(* ===== verification/Prelude.thy ===== *)
theory Prelude
  imports Main "HOL-Library.Word" "HOL-Library.AList"
begin

text \<open>
  Shared vocabulary of the development: machine integers and byte strings, the layer in
  which a fallible, stateful Rust function is an \<open>op\<close> (a state transformer that returns
  an error or a value), the Hoare-style calculus over such operations, the parts of
  Rust's \<^verbatim>\<open>str\<close> and \<^verbatim>\<open>HashMap\<close> interfaces that the sources use, and the environment an
  operation draws clock readings, identifiers and randomness from.
\<close>

section \<open>Machine integers, bytes and strings\<close>

type_synonym u8 = "8 word"
type_synonym u16 = "16 word"
type_synonym u32 = "32 word"
type_synonym bytes = "u8 list"
type_synonym uuid = "128 word"

text \<open>
  A Rust \<^verbatim>\<open>String\<close> is its UTF-8 byte sequence; a \<open>char\<close> of HOL is a byte, so
  \<^typ>\<open>string\<close> is that sequence and \<open>length\<close> is \<^verbatim>\<open>String::len\<close>.
\<close>

definition as_bytes :: "string \<Rightarrow> bytes" where
  "as_bytes s = map (\<lambda>c. word_of_nat (of_char c)) s"

definition of_bytes :: "bytes \<Rightarrow> string" where
  "of_bytes bs = map (\<lambda>b. char_of (unat b)) bs"

text \<open>Time stamps (\<^verbatim>\<open>DateTime<Utc>\<close>) and spans (\<^verbatim>\<open>TimeDelta\<close>) are counted in nanoseconds.\<close>

type_synonym date_time = int
type_synonym time_delta = int

definition seconds :: "int \<Rightarrow> time_delta" where
  "seconds n = n * 1000000000"

text \<open>\<^verbatim>\<open>TimeDelta::num_seconds\<close>: the whole seconds, truncated towards zero.\<close>

definition num_seconds :: "time_delta \<Rightarrow> int" where
  "num_seconds d = sgn d * (\<bar>d\<bar> div 1000000000)"

text \<open>A Rust function that may panic (an index out of range, a slice off a boundary).\<close>

datatype 'a outcome = Done 'a | Panic

definition bind_out :: "'a outcome \<Rightarrow> ('a \<Rightarrow> 'b outcome) \<Rightarrow> 'b outcome" where
  "bind_out m k = (case m of Done x \<Rightarrow> k x | Panic \<Rightarrow> Panic)"

text \<open>\<^verbatim>\<open>xs[i]\<close> panics out of range, \<^verbatim>\<open>xs.get(i)\<close> does not.\<close>

definition index_at :: "'a list \<Rightarrow> nat \<Rightarrow> 'a outcome" where
  "index_at xs i = (if i < length xs then Done (xs ! i) else Panic)"

definition get_at :: "'a list \<Rightarrow> nat \<Rightarrow> 'a option" where
  "get_at xs i = (if i < length xs then Some (xs ! i) else None)"

text \<open>\<^verbatim>\<open>xs.get(a..b)\<close>: the slice, when \<open>a \<le> b \<le> len\<close>.\<close>

definition get_range :: "'a list \<Rightarrow> nat \<Rightarrow> nat \<Rightarrow> 'a list option" where
  "get_range xs a b =
     (if a \<le> b \<and> b \<le> length xs then Some (take (b - a) (drop a xs)) else None)"

section \<open>Operations: fallible state transformers\<close>

type_synonym ('w, 'e, 'a) op = "'w \<Rightarrow> ('e + 'a) \<times> 'w"

definition ok :: "'a \<Rightarrow> ('w, 'e, 'a) op" where
  "ok x w = (Inr x, w)"

definition fail :: "'e \<Rightarrow> ('w, 'e, 'a) op" where
  "fail e w = (Inl e, w)"

text \<open>\<open>try_op m k\<close> is \<^verbatim>\<open>let x = m?; k(x)\<close>: an error ends the function.\<close>

definition try_op :: "('w, 'e, 'a) op \<Rightarrow> ('a \<Rightarrow> ('w, 'e, 'b) op) \<Rightarrow> ('w, 'e, 'b) op" where
  "try_op m k w = (case m w of (Inl e, w') \<Rightarrow> (Inl e, w') | (Inr x, w') \<Rightarrow> k x w')"

text \<open>\<open>let_op f k\<close> is \<^verbatim>\<open>let x = f(); k(x)\<close> for an effectful function that cannot fail.\<close>

definition let_op :: "('w \<Rightarrow> 'a \<times> 'w) \<Rightarrow> ('a \<Rightarrow> ('w, 'e, 'b) op) \<Rightarrow> ('w, 'e, 'b) op" where
  "let_op f k w = (case f w of (x, w') \<Rightarrow> k x w')"

text \<open>\<open>of_result r\<close> lifts a pure \<^verbatim>\<open>Result\<close>; \<open>ignore_err m\<close> is \<^verbatim>\<open>let _ = m;\<close>.\<close>

definition of_result :: "'e + 'a \<Rightarrow> ('w, 'e, 'a) op" where
  "of_result r w = (r, w)"

definition ignore_err :: "('w, 'e, 'a) op \<Rightarrow> 'w \<Rightarrow> unit \<times> 'w" where
  "ignore_err m w = ((), snd (m w))"

text \<open>\<open>ok_or e x\<close> is \<^verbatim>\<open>x.ok_or(e)\<close>.\<close>

definition ok_or :: "'e \<Rightarrow> 'a option \<Rightarrow> 'e + 'a" where
  "ok_or e x = (case x of None \<Rightarrow> Inl e | Some y \<Rightarrow> Inr y)"

fun is_ok :: "'e + 'a \<Rightarrow> bool" where
  "is_ok (Inl _) = False"
| "is_ok (Inr _) = True"

text \<open>Hoare triples: the postcondition sees the result, error or value, and the state.\<close>

definition hoare :: "('w \<Rightarrow> bool) \<Rightarrow> ('w, 'e, 'a) op \<Rightarrow> ('e + 'a \<Rightarrow> 'w \<Rightarrow> bool) \<Rightarrow> bool" where
  "hoare P m Q \<longleftrightarrow> (\<forall>w. P w \<longrightarrow> (case m w of (r, w') \<Rightarrow> Q r w'))"

definition keeps :: "('w \<Rightarrow> bool) \<Rightarrow> ('w, 'e, 'a) op \<Rightarrow> bool" where
  "keeps I m \<longleftrightarrow> (\<forall>w. I w \<longrightarrow> I (snd (m w)))"

section \<open>Strings\<close>

definition starts_with :: "'a list \<Rightarrow> 'a list \<Rightarrow> bool" where
  "starts_with s p \<longleftrightarrow> take (length p) s = p"

definition ends_with :: "'a list \<Rightarrow> 'a list \<Rightarrow> bool" where
  "ends_with s t \<longleftrightarrow> length t \<le> length s \<and> drop (length s - length t) s = t"

definition strip_prefix :: "'a list \<Rightarrow> 'a list \<Rightarrow> 'a list option" where
  "strip_prefix s p = (if starts_with s p then Some (drop (length p) s) else None)"

definition strip_suffix :: "'a list \<Rightarrow> 'a list \<Rightarrow> 'a list option" where
  "strip_suffix s t = (if ends_with s t then Some (take (length s - length t) s) else None)"

text \<open>Decimal printing, \<^verbatim>\<open>format!("{n}")\<close>.\<close>

fun show_nat :: "nat \<Rightarrow> string" where
  "show_nat n =
     (if n < 10 then [char_of (48 + n)] else show_nat (n div 10) @ [char_of (48 + n mod 10)])"

declare show_nat.simps [simp del]

definition show_int :: "int \<Rightarrow> string" where
  "show_int i = (if i < 0 then ''-'' @ show_nat (nat (- i)) else show_nat (nat i))"

text \<open>\<^verbatim>\<open>format!("{b:02x}")\<close> of a byte.\<close>

definition hex_digit :: "nat \<Rightarrow> char" where
  "hex_digit n = char_of (if n < 10 then 48 + n else 87 + n)"

definition hex_byte :: "u8 \<Rightarrow> string" where
  "hex_byte b = [hex_digit (unat b div 16), hex_digit (unat b mod 16)]"

text \<open>
  UTF-8 validity of a byte sequence, as \<^verbatim>\<open>String::from_utf8\<close> checks it: no overlong
  forms, no surrogates, nothing above U+10FFFF.
\<close>

definition byte_in :: "nat \<Rightarrow> nat \<Rightarrow> u8 \<Rightarrow> bool" where
  "byte_in lo hi b \<longleftrightarrow> lo \<le> unat b \<and> unat b \<le> hi"

definition is_cont :: "u8 \<Rightarrow> bool" where
  "is_cont = byte_in 128 191"

fun utf8_valid :: "bytes \<Rightarrow> bool" where
  "utf8_valid [] = True"
| "utf8_valid (b # bs) =
     (if unat b < 128 then utf8_valid bs
      else if byte_in 194 223 b then
        (case bs of c1 # r \<Rightarrow> is_cont c1 \<and> utf8_valid r | _ \<Rightarrow> False)
      else if byte_in 224 239 b then
        (case bs of c1 # c2 # r \<Rightarrow>
           (if unat b = 224 then byte_in 160 191 c1
            else if unat b = 237 then byte_in 128 159 c1 else is_cont c1) \<and>
           is_cont c2 \<and> utf8_valid r
         | _ \<Rightarrow> False)
      else if byte_in 240 244 b then
        (case bs of c1 # c2 # c3 # r \<Rightarrow>
           (if unat b = 240 then byte_in 144 191 c1
            else if unat b = 244 then byte_in 128 143 c1 else is_cont c1) \<and>
           is_cont c2 \<and> is_cont c3 \<and> utf8_valid r
         | _ \<Rightarrow> False)
      else False)"

definition from_utf8 :: "bytes \<Rightarrow> string option" where
  "from_utf8 bs = (if utf8_valid bs then Some (of_bytes bs) else None)"

section \<open>The environment\<close>

text \<open>
  What an operation draws from outside: the readings of \<^verbatim>\<open>Utc::now()\<close>, the values of
  \<^verbatim>\<open>Uuid::now_v7()\<close>, the random bytes of \<^verbatim>\<open>OsRng\<close>, and the error (with its message) an
  external call meets, if any. One position counts all draws, so the \<open>n\<close>-th draw of an
  execution reads the \<open>n\<close>-th element of its stream.
\<close>

record env =
  env_clock :: "nat \<Rightarrow> date_time"
  env_uuid :: "nat \<Rightarrow> uuid"
  env_rand :: "nat \<Rightarrow> nat \<Rightarrow> bytes"
  env_fault :: "nat \<Rightarrow> string option"
  env_pos :: nat

definition env_step :: "env \<Rightarrow> env" where
  "env_step e = e\<lparr>env_pos := Suc (env_pos e)\<rparr>"

definition utc_now :: "env \<Rightarrow> date_time \<times> env" where
  "utc_now e = (env_clock e (env_pos e), env_step e)"

definition uuid_now_v7 :: "env \<Rightarrow> uuid \<times> env" where
  "uuid_now_v7 e = (env_uuid e (env_pos e), env_step e)"

definition fill_bytes :: "nat \<Rightarrow> env \<Rightarrow> bytes \<times> env" where
  "fill_bytes n e = (take n (env_rand e (env_pos e) n @ replicate n 0), env_step e)"

definition io_fault :: "env \<Rightarrow> string option \<times> env" where
  "io_fault e = (env_fault e (env_pos e), env_step e)"

text \<open>\<open>env_le e e'\<close>: the same streams, read at least as far.\<close>

definition env_le :: "env \<Rightarrow> env \<Rightarrow> bool" where
  "env_le e e' \<longleftrightarrow>
     env_clock e' = env_clock e \<and> env_uuid e' = env_uuid e \<and> env_rand e' = env_rand e \<and>
     env_fault e' = env_fault e \<and> env_pos e \<le> env_pos e'"

section \<open>Collections of facts\<close>

named_theorems op_defs \<open>unfolding the operation layer\<close>
named_theorems keeps_rules \<open>invariant rules of the operation layer\<close>
named_theorems env_simps \<open>draws from the environment\<close>

lemmas [op_defs] = ok_def fail_def try_op_def let_op_def of_result_def ignore_err_def

lemma ok_or_simps [simp]:
  "ok_or e None = Inl e"
  "ok_or e (Some x) = Inr x"
  by (simp_all add: ok_or_def)

lemma ok_or_Inr [simp]: "ok_or e x = Inr y \<longleftrightarrow> x = Some y"
  by (cases x) auto

lemma is_ok_iff: "is_ok r \<longleftrightarrow> (\<exists>x. r = Inr x)"
  by (cases r) auto

section \<open>The Hoare calculus\<close>

lemma hoareI: "(\<And>w r w'. P w \<Longrightarrow> m w = (r, w') \<Longrightarrow> Q r w') \<Longrightarrow> hoare P m Q"
  by (auto simp: hoare_def split: prod.splits)

lemma hoareD: "hoare P m Q \<Longrightarrow> P w \<Longrightarrow> m w = (r, w') \<Longrightarrow> Q r w'"
  by (auto simp: hoare_def)

lemma hoare_conseq:
  "hoare P m Q \<Longrightarrow> (\<And>w. P' w \<Longrightarrow> P w) \<Longrightarrow> (\<And>r w. Q r w \<Longrightarrow> Q' r w) \<Longrightarrow> hoare P' m Q'"
  unfolding hoare_def by fastforce

lemma hoare_try_op:
  assumes "hoare P m (\<lambda>r w. case r of Inl e \<Rightarrow> Q (Inl e) w | Inr x \<Rightarrow> R x w)"
    and "\<And>x. hoare (R x) (k x) Q"
  shows "hoare P (try_op m k) Q"
proof (rule hoareI)
  fix w r w'
  assume P: "P w" and run: "try_op m k w = (r, w')"
  obtain r1 w1 where m: "m w = (r1, w1)" by fastforce
  have Q1: "case r1 of Inl e \<Rightarrow> Q (Inl e) w1 | Inr x \<Rightarrow> R x w1"
    using hoareD [OF assms(1) P m] .
  show "Q r w'"
    using Q1 run m hoareD [OF assms(2)] by (cases r1) (auto simp: try_op_def)
qed

lemma keepsI: "(\<And>w. I w \<Longrightarrow> I (snd (m w))) \<Longrightarrow> keeps I m"
  by (simp add: keeps_def)

lemma keepsD: "keeps I m \<Longrightarrow> I w \<Longrightarrow> m w = (r, w') \<Longrightarrow> I w'"
  by (auto simp: keeps_def)

lemma keeps_ok [keeps_rules, simp]: "keeps I (ok x)"
  by (simp add: keeps_def ok_def)

lemma keeps_fail [keeps_rules, simp]: "keeps I (fail e)"
  by (simp add: keeps_def fail_def)

lemma keeps_of_result [keeps_rules, simp]: "keeps I (of_result r)"
  by (simp add: keeps_def of_result_def)

lemma keeps_try_op [keeps_rules]:
  "keeps I m \<Longrightarrow> (\<And>x. keeps I (k x)) \<Longrightarrow> keeps I (try_op m k)"
  by (auto simp: keeps_def try_op_def case_prod_beta split: sum.splits)

lemma keeps_let_op [keeps_rules]:
  "(\<And>w. I w \<Longrightarrow> I (snd (f w))) \<Longrightarrow> (\<And>x. keeps I (k x)) \<Longrightarrow> keeps I (let_op f k)"
  by (simp add: keeps_def let_op_def case_prod_beta)

lemma keeps_if [keeps_rules]:
  "(c \<Longrightarrow> keeps I m) \<Longrightarrow> (\<not> c \<Longrightarrow> keeps I n) \<Longrightarrow> keeps I (if c then m else n)"
  by simp

lemma keeps_case_option [keeps_rules]:
  "(x = None \<Longrightarrow> keeps I m) \<Longrightarrow> (\<And>y. x = Some y \<Longrightarrow> keeps I (n y)) \<Longrightarrow>
    keeps I (case x of None \<Rightarrow> m | Some y \<Rightarrow> n y)"
  by (simp split: option.splits)

lemma keeps_case_sum [keeps_rules]:
  "(\<And>e. x = Inl e \<Longrightarrow> keeps I (m e)) \<Longrightarrow> (\<And>y. x = Inr y \<Longrightarrow> keeps I (n y)) \<Longrightarrow>
    keeps I (case x of Inl e \<Rightarrow> m e | Inr y \<Rightarrow> n y)"
  by (simp split: sum.splits)

text \<open>The ways a \<^verbatim>\<open>?\<close>-chain can end well or badly.\<close>

lemma try_op_Inr:
  "try_op m k w = (Inr y, w') \<longleftrightarrow> (\<exists>x w1. m w = (Inr x, w1) \<and> k x w1 = (Inr y, w'))"
  by (auto simp: try_op_def split: prod.splits sum.splits)

lemma try_op_Inl:
  "try_op m k w = (Inl e, w') \<longleftrightarrow>
     m w = (Inl e, w') \<or> (\<exists>x w1. m w = (Inr x, w1) \<and> k x w1 = (Inl e, w'))"
  by (auto simp: try_op_def split: prod.splits sum.splits)

lemma let_op_eq: "let_op f k w = k (fst (f w)) (snd (f w))"
  by (simp add: let_op_def case_prod_beta)

lemma ok_eq [simp]: "ok x w = (r, w') \<longleftrightarrow> r = Inr x \<and> w' = w"
  by (auto simp: ok_def)

lemma fail_eq [simp]: "fail e w = (r, w') \<longleftrightarrow> r = Inl e \<and> w' = w"
  by (auto simp: fail_def)

lemma of_result_eq [simp]: "of_result x w = (r, w') \<longleftrightarrow> r = x \<and> w' = w"
  by (auto simp: of_result_def)

section \<open>Strings\<close>

lemma starts_with_iff: "starts_with s p \<longleftrightarrow> (\<exists>r. s = p @ r)"
  unfolding starts_with_def by (metis append_eq_conv_conj append_take_drop_id)

lemma ends_with_iff: "ends_with s t \<longleftrightarrow> (\<exists>r. s = r @ t)"
  unfolding ends_with_def
  by (metis append_eq_append_conv append_take_drop_id diff_diff_cancel le_add2 length_append length_drop)

lemma strip_prefix_Some: "strip_prefix s p = Some r \<longleftrightarrow> s = p @ r"
  by (auto simp: strip_prefix_def starts_with_iff)

lemma strip_prefix_None: "strip_prefix s p = None \<longleftrightarrow> (\<nexists>r. s = p @ r)"
  by (auto simp: strip_prefix_def starts_with_iff)

lemma strip_suffix_Some: "strip_suffix s t = Some r \<longleftrightarrow> s = r @ t"
  by (auto simp: strip_suffix_def ends_with_iff)

lemma strip_suffix_None: "strip_suffix s t = None \<longleftrightarrow> (\<nexists>r. s = r @ t)"
  by (auto simp: strip_suffix_def ends_with_iff)

lemma as_bytes_inverse [simp]: "of_bytes (as_bytes s) = s"
  by (induction s) (auto simp: of_bytes_def as_bytes_def unat_of_nat)

lemma of_bytes_inverse [simp]: "as_bytes (of_bytes b) = b"
proof (induction b)
  case (Cons x b)
  have "unat x < 256" using unsigned_less [of x] by simp
  then show ?case using Cons by (simp add: of_bytes_def as_bytes_def)
qed (simp add: of_bytes_def as_bytes_def)

lemma as_bytes_append [simp]: "as_bytes (s @ t) = as_bytes s @ as_bytes t"
  by (simp add: as_bytes_def)

lemma length_as_bytes [simp]: "length (as_bytes s) = length s"
  by (simp add: as_bytes_def)

lemma as_bytes_inject [simp]: "as_bytes s = as_bytes t \<longleftrightarrow> s = t"
  by (metis as_bytes_inverse)

text \<open>ASCII text is valid UTF-8 and decodes to itself.\<close>

lemma utf8_valid_ascii: "\<forall>b\<in>set bs. unat b < 128 \<Longrightarrow> utf8_valid bs"
  by (induction bs) auto

lemma from_utf8_as_bytes: "utf8_valid (as_bytes s) \<Longrightarrow> from_utf8 (as_bytes s) = Some s"
  by (simp add: from_utf8_def)

section \<open>Ranges and time\<close>

lemma unat_less_pow32: "unat (w :: u32) < 4294967296"
  using unsigned_less [of w] by simp

lemma get_range_Some:
  "get_range xs a b = Some ys \<longleftrightarrow> a \<le> b \<and> b \<le> length xs \<and> ys = take (b - a) (drop a xs)"
  by (auto simp: get_range_def)

lemma get_range_append: "get_range (xs @ ys @ zs) (length xs) (length xs + length ys) = Some ys"
  by (simp add: get_range_def)

lemma num_seconds_pos: "0 < num_seconds d \<longleftrightarrow> seconds 1 \<le> d"
proof (cases "0 < d")
  case True
  then have "num_seconds d = d div 1000000000" by (simp add: num_seconds_def)
  then show ?thesis by (simp add: seconds_def pos_imp_zdiv_pos_iff)
next
  case False
  then have "num_seconds d \<le> 0"
    by (cases "d = 0") (auto simp: num_seconds_def sgn_if pos_imp_zdiv_nonneg_iff)
  with False show ?thesis by (simp add: seconds_def)
qed

section \<open>Draws\<close>

lemma env_le_refl [simp]: "env_le e e"
  by (simp add: env_le_def)

lemma env_le_trans [trans]: "env_le a b \<Longrightarrow> env_le b c \<Longrightarrow> env_le a c"
  by (auto simp: env_le_def)

lemma env_le_step [simp]: "env_le e (env_step e)"
  by (simp add: env_le_def env_step_def)

lemma env_step_simps [simp]:
  "env_pos (env_step e) = Suc (env_pos e)"
  "env_clock (env_step e) = env_clock e"
  "env_uuid (env_step e) = env_uuid e"
  "env_rand (env_step e) = env_rand e"
  "env_fault (env_step e) = env_fault e"
  by (simp_all add: env_step_def)

lemma snd_draws [simp]:
  "snd (utc_now e) = env_step e"
  "snd (uuid_now_v7 e) = env_step e"
  "snd (fill_bytes n e) = env_step e"
  "snd (io_fault e) = env_step e"
  by (simp_all add: utc_now_def uuid_now_v7_def fill_bytes_def io_fault_def)

lemma length_fill_bytes [simp]: "length (fst (fill_bytes n e)) = n"
  by (simp add: fill_bytes_def)

lemmas [env_simps] = utc_now_def uuid_now_v7_def fill_bytes_def io_fault_def

section \<open>Association lists as hash maps\<close>

text \<open>
  A \<^verbatim>\<open>HashMap\<close> is an association list with distinct keys, in some order: \<^verbatim>\<open>get\<close> is
  \<^const>\<open>map_of\<close>, \<^verbatim>\<open>insert\<close> and writing through \<^verbatim>\<open>get_mut\<close> are \<open>AList.update\<close>,
  \<^verbatim>\<open>remove\<close> is \<open>AList.delete\<close>, \<^verbatim>\<open>retain\<close> is \<^const>\<open>filter\<close>.
\<close>

lemma set_update_distinct:
  "distinct (map fst al) \<Longrightarrow>
    set (AList.update k v al) = insert (k, v) {p \<in> set al. fst p \<noteq> k}"
  by (induction al) (auto simp: image_iff)

lemma distinct_fst_filter: "distinct (map fst al) \<Longrightarrow> distinct (map fst (filter P al))"
  by (induction al) auto

lemma map_of_filter_distinct:
  "distinct (map fst al) \<Longrightarrow>
    map_of (filter P al) k = (case map_of al k of None \<Rightarrow> None | Some v \<Rightarrow> if P (k, v) then Some v else None)"
  by (induction al) (auto split: option.splits simp: map_of_eq_None_iff image_iff dest: map_of_SomeD)

lemma map_of_map_values:
  "map_of (map (\<lambda>(k, v). (k, f v)) al) k = map_option f (map_of al k)"
  by (induction al) auto

lemma map_fst_map_values [simp]: "map fst (map (\<lambda>(k, v). (k, f v)) al) = map fst al"
  by (induction al) auto

end
