(* ===== verification/Identity.thy ===== *)
theory Identity
  imports Prelude
begin

text \<open>
  The types crate (\<^verbatim>\<open>crates/zerolease-types/src\<close>) and the error type (\<^verbatim>\<open>src/error.rs\<close>):
  identifier newtypes with their printed forms, the domain scope and its matching rule,
  lease terms and grants, cipher and secret kinds, revocation reasons, and the error
  enumeration with the text each error prints. Printing a UUID is the \<^verbatim>\<open>uuid\<close> crate's,
  so the printers take that function as an argument \<open>us\<close>.
\<close>

section \<open>Identifiers\<close>

datatype SecretId = SecretId (sid_uuid: uuid)
datatype AgentId = AgentId (agent_str: string)
datatype LeaseId = LeaseId (lid_uuid: uuid)
datatype SecretName = SecretName (name_str: string)
datatype DomainScope = DomainScope (domain_str: string)
datatype SessionId = SessionId (ssid_uuid: uuid)
datatype SessionToken = SessionToken (token_bytes: bytes)

text \<open>The \<^verbatim>\<open>new\<close> functions that draw a fresh UUID.\<close>

definition SecretId_new :: "env \<Rightarrow> SecretId \<times> env" where
  "SecretId_new e = (case uuid_now_v7 e of (u, e') \<Rightarrow> (SecretId u, e'))"

definition LeaseId_new :: "env \<Rightarrow> LeaseId \<times> env" where
  "LeaseId_new e = (case uuid_now_v7 e of (u, e') \<Rightarrow> (LeaseId u, e'))"

definition SessionId_new :: "env \<Rightarrow> SessionId \<times> env" where
  "SessionId_new e = (case uuid_now_v7 e of (u, e') \<Rightarrow> (SessionId u, e'))"

text \<open>The \<^verbatim>\<open>Display\<close> instances.\<close>

definition show_SecretId :: "(uuid \<Rightarrow> string) \<Rightarrow> SecretId \<Rightarrow> string" where
  "show_SecretId us i = ''secret:'' @ us (sid_uuid i)"

definition show_AgentId :: "AgentId \<Rightarrow> string" where
  "show_AgentId a = ''agent:'' @ agent_str a"

definition show_LeaseId :: "(uuid \<Rightarrow> string) \<Rightarrow> LeaseId \<Rightarrow> string" where
  "show_LeaseId us i = ''lease:'' @ us (lid_uuid i)"

definition show_SessionId :: "(uuid \<Rightarrow> string) \<Rightarrow> SessionId \<Rightarrow> string" where
  "show_SessionId us i = ''session:'' @ us (ssid_uuid i)"

definition show_SecretName :: "SecretName \<Rightarrow> string" where
  "show_SecretName n = name_str n"

definition show_DomainScope :: "DomainScope \<Rightarrow> string" where
  "show_DomainScope d = domain_str d"

definition show_SessionToken :: "SessionToken \<Rightarrow> string" where
  "show_SessionToken t = ''SessionToken(***)''"

section \<open>Domain matching\<close>

text \<open>
  \<^verbatim>\<open>DomainScope::matches\<close>: equality, or a pattern \<open>*.suffix\<close> against a host that ends
  in the suffix, where what is left must end in a dot and have more than one byte.
\<close>

definition matches :: "DomainScope \<Rightarrow> string \<Rightarrow> bool" where
  "matches d host =
     (let pattern = domain_str d in
      if pattern = host then True
      else case strip_prefix pattern ''*.'' of
        None \<Rightarrow> False
      | Some suffix \<Rightarrow>
          (case strip_suffix host suffix of
             None \<Rightarrow> False
           | Some rest \<Rightarrow> ends_with rest ''.'' \<and> length rest > 1))"

section \<open>Leases, secrets and audit vocabulary\<close>

record LeaseTerms =
  ttl :: time_delta
  renewable :: bool
  max_uses :: "u32 option"

definition default_short :: LeaseTerms where
  "default_short = \<lparr>ttl = seconds (15 * 60), renewable = False, max_uses = None\<rparr>"

definition workflow :: LeaseTerms where
  "workflow = \<lparr>ttl = seconds 3600, renewable = True, max_uses = None\<rparr>"

definition single_use :: LeaseTerms where
  "single_use = \<lparr>ttl = seconds (5 * 60), renewable = False, max_uses = Some 1\<rparr>"

record LeaseGrant =
  grant_lease_id :: LeaseId
  grant_secret_name :: SecretName
  grant_allowed_domains :: "DomainScope list"
  grant_expires_at :: date_time
  grant_renewable :: bool
  grant_remaining_uses :: "u32 option"

datatype CipherAlgorithm = Aes256Gcm | XChaCha20Poly1305

fun CipherAlgorithm_as_str :: "CipherAlgorithm \<Rightarrow> string" where
  "CipherAlgorithm_as_str Aes256Gcm = ''aes256gcm''"
| "CipherAlgorithm_as_str XChaCha20Poly1305 = ''xchacha20poly1305''"

datatype SecretKind =
    Pat
  | OAuth2 (refresh_ciphertext: "bytes option") (refresh_nonce: "bytes option")
  | ApiKey
  | BasicAuth
  | SshKey
  | ClientCert
  | Opaque

fun SecretKind_as_str :: "SecretKind \<Rightarrow> string" where
  "SecretKind_as_str Pat = ''pat''"
| "SecretKind_as_str (OAuth2 _ _) = ''oauth2''"
| "SecretKind_as_str ApiKey = ''apikey''"
| "SecretKind_as_str BasicAuth = ''basicauth''"
| "SecretKind_as_str SshKey = ''sshkey''"
| "SecretKind_as_str ClientCert = ''clientcert''"
| "SecretKind_as_str Opaque = ''opaque''"

record SecretMetadata =
  md_id :: SecretId
  md_name :: SecretName
  md_kind :: SecretKind
  md_description :: "string option"
  md_created_at :: date_time
  md_updated_at :: date_time
  md_version :: u32

datatype RevocationReason =
  Expired | AdminRevoked | SecretDeleted | UseLimitReached | VaultShutdown | SessionRevoked

section \<open>Errors\<close>

datatype Error =
    LeaseExpired LeaseId
  | LeaseRevoked LeaseId
  | LeaseNotFound LeaseId
  | AccessDenied AgentId SecretName DomainScope
  | NoPolicyForAgent AgentId
  | SessionNotFound
  | SessionExpired SessionId
  | SessionRevokedErr SessionId
  | SessionLeaseLimitReached SessionId u32
  | RenewalLimitReached LeaseId u32
  | SecretNotFound SecretName
  | SecretAlreadyExists SecretName
  | EncryptionFailed
  | DecryptionFailed
  | KeySourceUnavailable string
  | Storage string
  | Transport string
  | InvalidConfig string
  | NotSupported string
  | Remote string string

type_synonym 'a result = "Error + 'a"

fun show_Error :: "(uuid \<Rightarrow> string) \<Rightarrow> Error \<Rightarrow> string" where
  "show_Error us (LeaseExpired l) = ''lease '' @ show_LeaseId us l @ '' has expired''"
| "show_Error us (LeaseRevoked l) = ''lease '' @ show_LeaseId us l @ '' has been revoked''"
| "show_Error us (LeaseNotFound l) = ''lease '' @ show_LeaseId us l @ '' not found''"
| "show_Error us (AccessDenied a s d) =
     ''agent '' @ show_AgentId a @ '' is not authorized to access secret '' @ show_SecretName s @
     '' for domain '' @ show_DomainScope d"
| "show_Error us (NoPolicyForAgent a) = ''no policy found for agent '' @ show_AgentId a"
| "show_Error us SessionNotFound = ''session not found''"
| "show_Error us (SessionExpired s) = ''session '' @ show_SessionId us s @ '' has expired''"
| "show_Error us (SessionRevokedErr s) = ''session '' @ show_SessionId us s @ '' has been revoked''"
| "show_Error us (SessionLeaseLimitReached s n) =
     ''session '' @ show_SessionId us s @ '' has reached the maximum of '' @ show_nat (unat n) @
     '' concurrent leases''"
| "show_Error us (RenewalLimitReached l n) =
     ''lease '' @ show_LeaseId us l @ '' has reached the maximum of '' @ show_nat (unat n) @
     '' renewals for this session''"
| "show_Error us (SecretNotFound s) = ''secret '' @ show_SecretName s @ '' not found''"
| "show_Error us (SecretAlreadyExists s) = ''secret '' @ show_SecretName s @ '' already exists''"
| "show_Error us EncryptionFailed = ''encryption failed''"
| "show_Error us DecryptionFailed = ''decryption failed''"
| "show_Error us (KeySourceUnavailable m) = ''key source unavailable: '' @ m"
| "show_Error us (Storage m) = ''storage error: '' @ m"
| "show_Error us (Transport m) = ''transport error: '' @ m"
| "show_Error us (InvalidConfig m) = ''invalid configuration: '' @ m"
| "show_Error us (NotSupported m) = ''operation not supported: '' @ m"
| "show_Error us (Remote code m) = ''remote error ('' @ code @ ''): '' @ m"

text \<open>An external call that may fail with a message and has no other effect here.\<close>

definition io_guard :: "(string \<Rightarrow> Error) \<Rightarrow> ('x \<times> env, Error, unit) op" where
  "io_guard err = (\<lambda>(x, e).
     case io_fault e of (Some m, e') \<Rightarrow> (Inl (err m), x, e') | (None, e') \<Rightarrow> (Inr (), x, e'))"

section \<open>Lemmas\<close>

lemma io_guard_eq:
  "io_guard err (x, e) =
     (case env_fault e (env_pos e) of
        Some m \<Rightarrow> (Inl (err m), x, env_step e) | None \<Rightarrow> (Inr (), x, env_step e))"
  by (simp add: io_guard_def io_fault_def split: option.splits)

lemma snd_new_ids [simp]:
  "snd (SecretId_new e) = env_step e"
  "snd (LeaseId_new e) = env_step e"
  "snd (SessionId_new e) = env_step e"
  by (simp_all add: SecretId_new_def LeaseId_new_def SessionId_new_def uuid_now_v7_def)

lemma fst_new_ids:
  "fst (SecretId_new e) = SecretId (env_uuid e (env_pos e))"
  "fst (LeaseId_new e) = LeaseId (env_uuid e (env_pos e))"
  "fst (SessionId_new e) = SessionId (env_uuid e (env_pos e))"
  by (simp_all add: SecretId_new_def LeaseId_new_def SessionId_new_def uuid_now_v7_def)

text \<open>The matching rule without the code's string surgery.\<close>

lemma matches_iff:
  "matches (DomainScope p) h \<longleftrightarrow>
     p = h \<or> (\<exists>suffix sub. p = ''*.'' @ suffix \<and> sub \<noteq> [] \<and> h = sub @ ''.'' @ suffix)"
proof (cases "\<exists>s r. p = ''*.'' @ s \<and> h = r @ s")
  case True
  then obtain s r where p: "p = ''*.'' @ s" and h: "h = r @ s" by blast
  have "strip_prefix p ''*.'' = Some s" "strip_suffix h s = Some r"
    using p h by (simp_all add: strip_prefix_Some strip_suffix_Some)
  then have "matches (DomainScope p) h \<longleftrightarrow> p = h \<or> (ends_with r ''.'' \<and> length r > 1)"
    by (simp add: matches_def)
  also have "ends_with r ''.'' \<and> length r > 1 \<longleftrightarrow> (\<exists>sub. sub \<noteq> [] \<and> r = sub @ ''.'')"
    by (auto simp: ends_with_iff)
  finally show ?thesis using p h by auto
next
  case False
  then have none: "\<And>s. strip_prefix p ''*.'' = Some s \<Longrightarrow> strip_suffix h s = None"
    by (auto simp: strip_prefix_Some strip_suffix_None)
  have "matches (DomainScope p) h \<longleftrightarrow> p = h"
    using none by (auto simp: matches_def split: option.splits)
  with False show ?thesis by auto
qed

lemma matches_exact [simp]: "matches (DomainScope p) p"
  by (simp add: matches_iff)

lemma matches_no_wildcard: "\<not> starts_with p ''*.'' \<Longrightarrow> matches (DomainScope p) h \<longleftrightarrow> p = h"
  by (auto simp: matches_iff starts_with_iff)

text \<open>
  Scopes compose: what a scope admits is admitted by every pattern that admits the
  scope's own text, so a lease on a wildcard inside a granted wildcard stays inside it.
\<close>

lemma matches_trans:
  assumes "matches (DomainScope p) d" and "matches (DomainScope d) h"
  shows "matches (DomainScope p) h"
proof (cases "p = d \<or> d = h")
  case True
  then show ?thesis using assms by auto
next
  case False
  obtain s x where p: "p = ''*.'' @ s" and d: "d = x @ ''.'' @ s" "x \<noteq> []"
    using assms(1) False by (auto simp: matches_iff)
  obtain t y where d': "d = ''*.'' @ t" and h: "h = y @ ''.'' @ t" "y \<noteq> []"
    using assms(2) False by (auto simp: matches_iff)
  obtain x' where x: "x = CHR ''*'' # x'" using d d' by (cases x) auto
  then have eq: "x' @ ''.'' @ s = ''.'' @ t" using d d' by simp
  show ?thesis
  proof (cases x')
    case Nil
    then show ?thesis using eq p d' False by simp
  next
    case (Cons c x'')
    then have "t = x'' @ ''.'' @ s" using eq by simp
    then have "h = (y @ ''.'' @ x'') @ ''.'' @ s" using h by simp
    then show ?thesis using p h(2) unfolding matches_iff by blast
  qed
qed

text \<open>
  A domain scope matches a host exactly when they are equal, or the scope is
  \<open>*.suffix\<close> and the host is a non-empty label sequence, a dot and the suffix; matching
  composes, so a scope matched by a pattern never admits a host the pattern does not.
\<close>

theorem domain_scope_matching:
  "(matches (DomainScope p) h \<longleftrightarrow>
      p = h \<or> (\<exists>suffix sub. p = ''*.'' @ suffix \<and> sub \<noteq> [] \<and> h = sub @ ''.'' @ suffix)) \<and>
   (matches (DomainScope p) d \<longrightarrow> matches (DomainScope d) h \<longrightarrow> matches (DomainScope p) h)"
  using matches_iff matches_trans by blast

theorem domain_scope_matching_witness:
  "matches (DomainScope ''*.net'') ''*.atlassian.net'' \<and>
   matches (DomainScope ''*.atlassian.net'') ''acme.atlassian.net'' \<and>
   matches (DomainScope ''*.net'') ''acme.atlassian.net''"
proof -
  have "matches (DomainScope ''*.net'') ''*.atlassian.net''"
    "matches (DomainScope ''*.atlassian.net'') ''acme.atlassian.net''"
    by (simp_all add: matches_def strip_prefix_def starts_with_def strip_suffix_def ends_with_def)
  with domain_scope_matching [of "''*.net''" "''acme.atlassian.net''" "''*.atlassian.net''"]
  show ?thesis by blast
qed

end
