(* ===== verification/Frame.thy ===== *)
theory Frame
  imports Identity
begin

text \<open>
  Length-prefixed frames (\<^verbatim>\<open>src/protocol/frame.rs\<close>) over byte streams. A reader holds the
  bytes that will still arrive and how the stream ends after them: at end of file, or with
  an I/O error. A writer holds the bytes accepted so far, how many more it accepts before
  it fails, and whether flushing fails.
\<close>

section \<open>Streams\<close>

record reader =
  rd_bytes :: bytes
  rd_error :: "string option"

record writer =
  wr_bytes :: bytes
  wr_room :: "(nat \<times> string) option"
  wr_flush_error :: "string option"

datatype read_error = UnexpectedEof | ReadFailed string

text \<open>\<^verbatim>\<open>read_exact\<close>: all of the requested bytes, or an error with the stream used up.\<close>

definition read_exact :: "nat \<Rightarrow> reader \<Rightarrow> (read_error + bytes) \<times> reader" where
  "read_exact n r =
     (if n \<le> length (rd_bytes r)
      then (Inr (take n (rd_bytes r)), r\<lparr>rd_bytes := drop n (rd_bytes r)\<rparr>)
      else (Inl (case rd_error r of None \<Rightarrow> UnexpectedEof | Some m \<Rightarrow> ReadFailed m),
            r\<lparr>rd_bytes := []\<rparr>))"

definition write_all :: "bytes \<Rightarrow> writer \<Rightarrow> (string + unit) \<times> writer" where
  "write_all data w =
     (case wr_room w of
        None \<Rightarrow> (Inr (), w\<lparr>wr_bytes := wr_bytes w @ data\<rparr>)
      | Some (n, m) \<Rightarrow>
          if length data \<le> n
          then (Inr (), w\<lparr>wr_bytes := wr_bytes w @ data, wr_room := Some (n - length data, m)\<rparr>)
          else (Inl m, w\<lparr>wr_bytes := wr_bytes w @ take n data, wr_room := Some (0, m)\<rparr>))"

definition flush :: "writer \<Rightarrow> (string + unit) \<times> writer" where
  "flush w = (case wr_flush_error w of None \<Rightarrow> Inr () | Some m \<Rightarrow> Inl m, w)"

text \<open>\<^verbatim>\<open>m.map_err(f)?\<close> on streams.\<close>

definition map_err :: "('e \<Rightarrow> 'f) \<Rightarrow> ('w, 'e, 'a) op \<Rightarrow> ('w, 'f, 'a) op" where
  "map_err f m w = (case m w of (Inl e, w') \<Rightarrow> (Inl (f e), w') | (Inr x, w') \<Rightarrow> (Inr x, w'))"

text \<open>\<^verbatim>\<open>u32::from_be_bytes\<close> and \<^verbatim>\<open>u32::to_be_bytes\<close>.\<close>

definition from_be_bytes :: "bytes \<Rightarrow> u32" where
  "from_be_bytes bs = word_of_nat (foldl (\<lambda>n b. 256 * n + unat b) 0 bs)"

definition to_be_bytes :: "u32 \<Rightarrow> bytes" where
  "to_be_bytes w = map (\<lambda>k. word_of_nat (unat w div 256 ^ k)) [3, 2, 1, 0]"

section \<open>Frames\<close>

definition MAX_FRAME_SIZE :: u32 where
  "MAX_FRAME_SIZE = 1048576"

definition frame_too_large :: "nat \<Rightarrow> Error" where
  "frame_too_large len =
     Transport (''frame too large: '' @ show_nat len @ '' bytes (max '' @ show_nat (unat MAX_FRAME_SIZE) @ '')'')"

fun read_frame_error :: "string \<Rightarrow> read_error \<Rightarrow> Error" where
  "read_frame_error what UnexpectedEof = Transport (''unexpected EOF reading frame '' @ what)"
| "read_frame_error what (ReadFailed m) = Transport (''failed to read frame '' @ what @ '': '' @ m)"

definition read_frame :: "(reader, Error, bytes) op" where
  "read_frame =
     try_op (map_err (read_frame_error ''length'') (read_exact 4)) (\<lambda>len_buf.
     if from_be_bytes len_buf > MAX_FRAME_SIZE then fail (frame_too_large (unat (from_be_bytes len_buf)))
     else map_err (read_frame_error ''payload'') (read_exact (unat (from_be_bytes len_buf))))"

definition write_frame :: "bytes \<Rightarrow> (writer, Error, unit) op" where
  "write_frame data =
     (if length data > unat MAX_FRAME_SIZE then fail (frame_too_large (length data))
      else
        try_op (map_err (\<lambda>m. Transport (''failed to write frame length: '' @ m))
          (write_all (to_be_bytes (word_of_nat (length data))))) (\<lambda>_.
        try_op (map_err (\<lambda>m. Transport (''failed to write frame payload: '' @ m)) (write_all data)) (\<lambda>_.
        map_err (\<lambda>m. Transport (''failed to flush frame: '' @ m)) flush)))"

section \<open>Lemmas\<close>

text \<open>The bytes of one frame on the wire.\<close>

definition frame_of :: "bytes \<Rightarrow> bytes" where
  "frame_of data = to_be_bytes (word_of_nat (length data)) @ data"

lemma length_to_be_bytes [simp]: "length (to_be_bytes w) = 4"
  by (simp add: to_be_bytes_def)

lemma div_256: "(n :: nat) div 256 ^ 2 = n div 256 div 256" "n div 256 ^ 3 = n div 256 div 256 div 256"
  by (simp_all add: div_mult2_eq [symmetric])

lemma from_to_be_bytes [simp]: "from_be_bytes (to_be_bytes w) = w"
proof -
  define n where "n = unat w"
  define a b c where "a = n div 256" and "b = a div 256" and "c = b div 256"
  have "n < 256 * (256 * (256 * 256))" using unsigned_less [of w] by (simp add: n_def)
  then have "c < 256" unfolding a_def b_def c_def by (simp only: less_mult_imp_div_less mult.commute mult.assoc)
  then have "256 * (256 * (256 * (c mod 256) + b mod 256) + a mod 256) + n mod 256 = n"
    unfolding c_def by (simp only: mod_less mult_div_mod_eq) (simp only: b_def a_def mult_div_mod_eq)
  then have "foldl (\<lambda>n b. 256 * n + unat b) 0 (to_be_bytes w) = unat w"
    unfolding to_be_bytes_def n_def [symmetric] list.map div_256 power_0 power_one_right div_by_1
      a_def [symmetric] b_def [symmetric] c_def [symmetric]
    by (simp only: foldl_Cons foldl_Nil unsigned_of_nat take_bit_eq_mod) simp
  then show ?thesis by (simp add: from_be_bytes_def)
qed

lemma to_from_be_bytes: "length bs = 4 \<Longrightarrow> to_be_bytes (from_be_bytes bs) = bs"
proof -
  assume "length bs = 4"
  then obtain a b c d where bs: "bs = [a, b, c, d]"
    by (auto simp: eval_nat_numeral length_Suc_conv)
  have lt: "unat a < 256" "unat b < 256" "unat c < 256" "unat d < 256"
    using unsigned_less [of a] unsigned_less [of b] unsigned_less [of c] unsigned_less [of d] by simp_all
  define n where "n = 256 * (256 * (256 * unat a + unat b) + unat c) + unat d"
  have "n < 2 ^ 32" using lt by (simp add: n_def)
  moreover have "from_be_bytes bs = word_of_nat n" by (simp add: from_be_bytes_def bs n_def)
  ultimately have n: "unat (from_be_bytes bs) = n" by (simp only: unsigned_of_nat take_bit_eq_mod) simp
  have byte: "(word_of_nat (256 * q + unat x) :: u8) = x" for q and x :: u8
  proof -
    have "word_of_nat (256 * q) = (word_of_nat 256 :: u8) * word_of_nat q" by (simp only: of_nat_mult)
    moreover have "(word_of_nat 256 :: u8) = 0" by simp
    ultimately have "(word_of_nat (256 * q) :: u8) = 0" by (simp only: mult_zero_left)
    then show ?thesis by (simp only: of_nat_add add_0_left) simp
  qed
  define q1 where "q1 = 256 * unat a + unat b"
  define q2 where "q2 = 256 * q1 + unat c"
  have q: "q1 div 256 = unat a" "q2 div 256 = q1" "n div 256 = q2" "n = 256 * q2 + unat d"
    using lt by (simp_all add: n_def q1_def q2_def del: distrib_left_numeral mult.assoc)
  have div: "n div 256 ^ 2 = q1" "n div 256 ^ 3 = unat a"
    by (simp_all only: div_256 q(1-3))
  have "(word_of_nat (n div 256 ^ 3) :: u8) = a" unfolding div(2) by simp
  moreover have "(word_of_nat (n div 256 ^ 2) :: u8) = b" unfolding div(1) q1_def by (rule byte)
  moreover have "(word_of_nat (n div 256 ^ 1) :: u8) = c" unfolding power_one_right q(3) q2_def by (rule byte)
  moreover have "(word_of_nat (n div 256 ^ 0) :: u8) = d"
    unfolding power_0 div_by_1 by (subst q(4)) (rule byte)
  ultimately show ?thesis unfolding to_be_bytes_def n list.map by (simp only: bs)
qed

lemma max_frame [simp]: "unat MAX_FRAME_SIZE = 1048576"
  by (simp add: MAX_FRAME_SIZE_def)

lemma unat_length_small: "n \<le> 1048576 \<Longrightarrow> unat (word_of_nat n :: u32) = n"
  by (simp add: unsigned_of_nat take_bit_eq_mod)

lemma map_err_eq:
  "map_err f m w = (r, w') \<longleftrightarrow> (\<exists>r1. m w = (r1, w') \<and> r = (case r1 of Inl e \<Rightarrow> Inl (f e) | Inr x \<Rightarrow> Inr x))"
  by (auto simp: map_err_def split: prod.splits sum.splits)

text \<open>Which result a read gives, on every branch.\<close>

lemma read_frame_eq:
  "read_frame r =
     (let bs = rd_bytes r; err = (case rd_error r of None \<Rightarrow> UnexpectedEof | Some m \<Rightarrow> ReadFailed m);
          len = from_be_bytes (take 4 bs) in
      if length bs < 4 then (Inl (read_frame_error ''length'' err), r\<lparr>rd_bytes := []\<rparr>)
      else if len > MAX_FRAME_SIZE then (Inl (frame_too_large (unat len)), r\<lparr>rd_bytes := drop 4 bs\<rparr>)
      else if length bs < 4 + unat len then (Inl (read_frame_error ''payload'' err), r\<lparr>rd_bytes := []\<rparr>)
      else (Inr (take (unat len) (drop 4 bs)), r\<lparr>rd_bytes := drop (4 + unat len) bs\<rparr>))"
  by (auto simp: read_frame_def read_exact_def map_err_def op_defs Let_def add.commute)

lemma read_frame_of:
  assumes "length data \<le> 1048576" and "rd_bytes r = frame_of data @ rest"
  shows "read_frame r = (Inr data, r\<lparr>rd_bytes := rest\<rparr>)"
  using assms unat_length_small [OF assms(1)]
  by (simp add: read_frame_eq Let_def frame_of_def MAX_FRAME_SIZE_def word_less_nat_alt)

text \<open>A successful read takes a whole frame off the stream; a failed one never adds to it.\<close>

lemma read_frame_Inr:
  assumes "read_frame r = (Inr data, r')"
  shows "length data \<le> 1048576 \<and> rd_bytes r = frame_of data @ rd_bytes r' \<and> rd_error r' = rd_error r"
proof -
  define len where "len = from_be_bytes (take 4 (rd_bytes r))"
  have d: "4 + unat len \<le> length (rd_bytes r)" "\<not> len > MAX_FRAME_SIZE"
    "data = take (unat len) (drop 4 (rd_bytes r))" "r' = r\<lparr>rd_bytes := drop (4 + unat len) (rd_bytes r)\<rparr>"
    using assms by (auto simp: read_frame_eq Let_def len_def split: if_splits)
  have "unat len \<le> 1048576" using d(2) by (simp add: MAX_FRAME_SIZE_def word_le_nat_alt not_less)
  moreover have "length data = unat len" using d(1,3) by simp
  moreover have "to_be_bytes len = take 4 (rd_bytes r)" unfolding len_def by (rule to_from_be_bytes) (use d(1) in simp)
  moreover have "rd_bytes r = take 4 (rd_bytes r) @ take (unat len) (drop 4 (rd_bytes r)) @
      drop (unat len) (drop 4 (rd_bytes r))"
    by (simp only: append_take_drop_id)
  ultimately show ?thesis using d(3,4) by (simp add: frame_of_def add.commute)
qed

text \<open>How much of a frame reaches the writer.\<close>

lemma write_frame_unlimited:
  assumes "wr_room w = None" and "wr_flush_error w = None" and "length data \<le> 1048576"
  shows "write_frame data w = (Inr (), w\<lparr>wr_bytes := wr_bytes w @ frame_of data\<rparr>)"
  using assms by (simp add: write_frame_def map_err_def write_all_def flush_def op_defs frame_of_def)

lemma write_frame_Inr:
  assumes "write_frame data w = (Inr u, w')"
  shows "length data \<le> 1048576 \<and> wr_bytes w' = wr_bytes w @ frame_of data"
  using assms
  by (auto simp: write_frame_def map_err_def write_all_def flush_def op_defs frame_of_def
      split: if_splits option.splits prod.splits sum.splits)

section \<open>Conversations\<close>

text \<open>Writing frames one after the other, and reading as many.\<close>

fun write_frames :: "bytes list \<Rightarrow> (writer, Error, unit) op" where
  "write_frames [] = ok ()"
| "write_frames (d # ds) = try_op (write_frame d) (\<lambda>_. write_frames ds)"

fun read_frames :: "nat \<Rightarrow> (reader, Error, bytes list) op" where
  "read_frames 0 = ok []"
| "read_frames (Suc n) = try_op read_frame (\<lambda>d. try_op (read_frames n) (\<lambda>ds. ok (d # ds)))"

lemma write_frames_Inr:
  "write_frames ds w = (Inr u, w') \<Longrightarrow>
     (\<forall>d\<in>set ds. length d \<le> 1048576) \<and> wr_bytes w' = wr_bytes w @ concat (map frame_of ds)"
proof (induction ds arbitrary: w)
  case (Cons d ds)
  then obtain v w1 where "write_frame d w = (Inr v, w1)" "write_frames ds w1 = (Inr u, w')"
    by (auto simp: try_op_Inr)
  with Cons.IH write_frame_Inr show ?case by fastforce
qed simp

lemma read_frames_of:
  "\<forall>d\<in>set ds. length d \<le> 1048576 \<Longrightarrow> rd_bytes r = concat (map frame_of ds) @ rest \<Longrightarrow>
    read_frames (length ds) r = (Inr ds, r\<lparr>rd_bytes := rest\<rparr>)"
proof (induction ds arbitrary: r)
  case (Cons d ds)
  have "read_frame r = (Inr d, r\<lparr>rd_bytes := concat (map frame_of ds) @ rest\<rparr>)"
    by (rule read_frame_of) (use Cons.prems in auto)
  with Cons show ?case by (simp add: try_op_def ok_def)
qed (simp add: ok_def)

text \<open>
  C23: framing is transparent. If a sequence of payloads was written with success, the reader
  of those bytes (followed by anything) gets the same payloads in the same order, byte for
  byte, and is left exactly at what follows; at the end of the stream the next read reports
  an end of file. No payload above the frame limit is ever written or delivered.
\<close>

theorem frames_roundtrip:
  assumes "write_frames ds w = (Inr u, w')" and "wr_bytes w = []"
  shows "read_frames (length ds) \<lparr>rd_bytes = wr_bytes w' @ rest, rd_error = e\<rparr> =
      (Inr ds, \<lparr>rd_bytes = rest, rd_error = e\<rparr>) \<and>
    fst (read_frame \<lparr>rd_bytes = [], rd_error = None\<rparr>) =
      Inl (Transport ''unexpected EOF reading frame length'') \<and>
    (\<forall>d\<in>set ds. length d \<le> unat MAX_FRAME_SIZE)"
proof -
  note w = write_frames_Inr [OF assms(1)]
  have "read_frames (length ds) \<lparr>rd_bytes = wr_bytes w' @ rest, rd_error = e\<rparr> =
      (Inr ds, \<lparr>rd_bytes = wr_bytes w' @ rest, rd_error = e\<rparr>\<lparr>rd_bytes := rest\<rparr>)"
    by (rule read_frames_of) (use w assms(2) in auto)
  moreover have "fst (read_frame \<lparr>rd_bytes = [], rd_error = None\<rparr>) =
      Inl (Transport ''unexpected EOF reading frame length'')"
    by (simp add: read_frame_eq)
  ultimately show ?thesis using w by simp
qed

definition open_writer :: writer where
  "open_writer = \<lparr>wr_bytes = [], wr_room = None, wr_flush_error = None\<rparr>"

theorem frames_roundtrip_witness:
  "read_frames 2 \<lparr>rd_bytes = [0, 0, 0, 2, 7, 8, 0, 0, 0, 0, 99], rd_error = None\<rparr> =
     (Inr [[7, 8], []], \<lparr>rd_bytes = [99], rd_error = None\<rparr>)"
proof -
  have w: "write_frames [[7, 8], []] open_writer =
      (Inr (), open_writer\<lparr>wr_bytes := [0, 0, 0, 2, 7, 8, 0, 0, 0, 0]\<rparr>)"
    by (simp add: try_op_def write_frame_unlimited open_writer_def ok_def frame_of_def to_be_bytes_def)
  from frames_roundtrip [OF w, of "[99]" None] show ?thesis by (simp add: open_writer_def numeral_2_eq_2)
qed

text \<open>
  A read never trusts the length it is sent. For every stream the read fails without
  looking at the payload when the announced length exceeds the limit, otherwise it returns
  exactly the announced bytes, and it never takes more from the stream than the four
  length bytes and the announced payload.
\<close>

theorem read_frame_bounded:
  "case read_frame r of
     (Inr data, r') \<Rightarrow> length data \<le> unat MAX_FRAME_SIZE \<and> rd_bytes r = frame_of data @ rd_bytes r'
   | (Inl er, r') \<Rightarrow>
       (if 4 \<le> length (rd_bytes r) \<and> from_be_bytes (take 4 (rd_bytes r)) > MAX_FRAME_SIZE
        then er = frame_too_large (unat (from_be_bytes (take 4 (rd_bytes r)))) \<and>
          rd_bytes r' = drop 4 (rd_bytes r)
        else rd_bytes r' = [] \<and>
          length (rd_bytes r) < 4 + (if length (rd_bytes r) < 4 then 0 else unat (from_be_bytes (take 4 (rd_bytes r)))))"
proof (cases "fst (read_frame r)")
  case (Inr data)
  then show ?thesis using read_frame_Inr [of r data] by (cases "read_frame r") auto
next
  case (Inl er)
  then show ?thesis by (cases "read_frame r") (auto simp: read_frame_eq Let_def split: if_splits)
qed

end
