(* ===== verification/Lease.thy ===== *)
theory Lease
  imports Identity
begin

text \<open>
  Leases (\<^verbatim>\<open>src/lease.rs\<close>): the server-side record, its life cycle (new, validate,
  record a use, renew, revoke) and the client's view. Functions that read the clock are
  operations over the environment. Counters are \<^verbatim>\<open>u32\<close> and increments wrap, as in a
  release build.
\<close>

record Lease =
  l_id :: LeaseId
  l_agent :: AgentId
  l_secret_name :: SecretName
  l_allowed_domains :: "DomainScope list"
  l_issued_at :: date_time
  l_expires_at :: date_time
  l_renewable :: bool
  l_max_uses :: "u32 option"
  l_use_count :: u32
  l_revoked :: bool
  l_session_id :: "SessionId option"
  l_renewal_count :: u32

definition Lease_new ::
  "AgentId \<Rightarrow> SecretName \<Rightarrow> DomainScope list \<Rightarrow> LeaseTerms \<Rightarrow> env \<Rightarrow> Lease \<times> env" where
  "Lease_new agent secret_name allowed_domains terms e =
     (case utc_now e of (now, e1) \<Rightarrow>
      case LeaseId_new e1 of (i, e2) \<Rightarrow>
        (\<lparr>l_id = i, l_agent = agent, l_secret_name = secret_name,
          l_allowed_domains = allowed_domains, l_issued_at = now, l_expires_at = now + ttl terms,
          l_renewable = renewable terms, l_max_uses = max_uses terms, l_use_count = 0,
          l_revoked = False, l_session_id = None, l_renewal_count = 0\<rparr>, e2))"

definition use_limit_reached :: "Lease \<Rightarrow> bool" where
  "use_limit_reached l = (case l_max_uses l of None \<Rightarrow> False | Some m \<Rightarrow> l_use_count l \<ge> m)"

definition validate :: "Lease \<Rightarrow> string \<Rightarrow> (env, Error, unit) op" where
  "validate l target_domain =
     (if l_revoked l then fail (LeaseRevoked (l_id l))
      else let_op utc_now (\<lambda>now.
        if now > l_expires_at l then fail (LeaseExpired (l_id l))
        else if use_limit_reached l then fail (LeaseExpired (l_id l))
        else if \<not> list_ex (\<lambda>d. matches d target_domain) (l_allowed_domains l)
          then fail (AccessDenied (l_agent l) (l_secret_name l) (DomainScope target_domain))
        else ok ()))"

definition record_use :: "Lease \<Rightarrow> Lease result" where
  "record_use l =
     (if use_limit_reached l then Inl (LeaseExpired (l_id l))
      else Inr (l\<lparr>l_use_count := l_use_count l + 1\<rparr>))"

definition renew :: "(uuid \<Rightarrow> string) \<Rightarrow> Lease \<Rightarrow> time_delta \<Rightarrow> (env, Error, Lease) op" where
  "renew us l extension =
     (if l_revoked l then fail (LeaseRevoked (l_id l))
      else if \<not> l_renewable l then
        fail (InvalidConfig (''lease '' @ show_LeaseId us (l_id l) @ '' is not renewable''))
      else let_op utc_now (\<lambda>now.
        ok (l\<lparr>l_expires_at := now + extension, l_renewal_count := l_renewal_count l + 1\<rparr>)))"

definition revoke :: "Lease \<Rightarrow> Lease" where
  "revoke l = l\<lparr>l_revoked := True\<rparr>"

definition time_remaining :: "Lease \<Rightarrow> env \<Rightarrow> time_delta \<times> env" where
  "time_remaining l e = (case utc_now e of (now, e') \<Rightarrow> (l_expires_at l - now, e'))"

text \<open>\<^verbatim>\<open>u32::saturating_sub\<close>.\<close>

definition saturating_sub :: "'a::len word \<Rightarrow> 'a word \<Rightarrow> 'a word" where
  "saturating_sub a b = (if b \<le> a then a - b else 0)"

definition LeaseGrant_from :: "Lease \<Rightarrow> LeaseGrant" where
  "LeaseGrant_from l =
     \<lparr>grant_lease_id = l_id l, grant_secret_name = l_secret_name l,
      grant_allowed_domains = l_allowed_domains l, grant_expires_at = l_expires_at l,
      grant_renewable = l_renewable l,
      grant_remaining_uses = map_option (\<lambda>m. saturating_sub m (l_use_count l)) (l_max_uses l)\<rparr>"

text \<open>
  The guard that hands out a decrypted value: a lease id and the value, \<open>expose\<close> applies
  a function to the value, the debug form shows the id and hides the value.
\<close>

record LeaseGuard =
  guard_lease_id :: LeaseId
  guard_value :: string

definition LeaseGuard_new :: "LeaseId \<Rightarrow> string \<Rightarrow> LeaseGuard" where
  "LeaseGuard_new i v = \<lparr>guard_lease_id = i, guard_value = v\<rparr>"

definition expose :: "LeaseGuard \<Rightarrow> (string \<Rightarrow> 'r) \<Rightarrow> 'r" where
  "expose g f = f (guard_value g)"

text \<open>\<^verbatim>\<open>debug_struct\<close> with the derived \<^verbatim>\<open>Debug\<close> of the id, a function of the id alone.\<close>

definition debug_LeaseGuard :: "(LeaseId \<Rightarrow> string) \<Rightarrow> LeaseGuard \<Rightarrow> string" where
  "debug_LeaseGuard dbg g =
     ''LeaseGuard { lease_id: '' @ dbg (guard_lease_id g) @ '', value: '' @
     [char_of (34::nat)] @ ''[REDACTED]'' @ [char_of (34::nat)] @ '' }''"

section \<open>The invariant of a lease\<close>

text \<open>A limited lease has never been used more often than its limit.\<close>

definition lease_inv :: "Lease \<Rightarrow> bool" where
  "lease_inv l \<longleftrightarrow> (case l_max_uses l of None \<Rightarrow> True | Some m \<Rightarrow> l_use_count l \<le> m)"

named_theorems lease_simps \<open>fields of a lease after an operation\<close>

lemma Lease_new_eq:
  "Lease_new a s ds t e =
     (\<lparr>l_id = LeaseId (env_uuid e (Suc (env_pos e))), l_agent = a, l_secret_name = s,
       l_allowed_domains = ds, l_issued_at = env_clock e (env_pos e),
       l_expires_at = env_clock e (env_pos e) + ttl t, l_renewable = renewable t,
       l_max_uses = max_uses t, l_use_count = 0, l_revoked = False, l_session_id = None,
       l_renewal_count = 0\<rparr>, env_step (env_step e))"
  by (simp add: Lease_new_def utc_now_def LeaseId_new_def uuid_now_v7_def)

lemma revoke_simps [simp, lease_simps]:
  "l_id (revoke l) = l_id l" "l_agent (revoke l) = l_agent l"
  "l_secret_name (revoke l) = l_secret_name l" "l_revoked (revoke l)"
  "l_allowed_domains (revoke l) = l_allowed_domains l" "l_expires_at (revoke l) = l_expires_at l"
  "l_max_uses (revoke l) = l_max_uses l" "l_use_count (revoke l) = l_use_count l"
  "l_session_id (revoke l) = l_session_id l" "l_renewable (revoke l) = l_renewable l"
  "l_renewal_count (revoke l) = l_renewal_count l" "l_issued_at (revoke l) = l_issued_at l"
  by (simp_all add: revoke_def)

lemma record_use_Inr:
  "record_use l = Inr l' \<longleftrightarrow>
     \<not> use_limit_reached l \<and> l' = l\<lparr>l_use_count := l_use_count l + 1\<rparr>"
  by (auto simp: record_use_def)

text \<open>The checks of \<open>validate\<close> as one condition at a point in time.\<close>

definition valid_at :: "Lease \<Rightarrow> string \<Rightarrow> date_time \<Rightarrow> bool" where
  "valid_at l d now \<longleftrightarrow>
     \<not> l_revoked l \<and> now \<le> l_expires_at l \<and> \<not> use_limit_reached l \<and>
     (\<exists>p\<in>set (l_allowed_domains l). matches p d)"

lemma validate_ok_iff:
  "fst (validate l d e) = Inr () \<longleftrightarrow> valid_at l d (env_clock e (env_pos e))"
  by (auto simp: validate_def valid_at_def op_defs utc_now_def list_ex_iff not_less)

lemma validate_Inr:
  "validate l d e = (Inr u, e') \<longleftrightarrow> valid_at l d (env_clock e (env_pos e)) \<and> e' = env_step e"
  by (auto simp: validate_def valid_at_def op_defs utc_now_def list_ex_iff not_less)

lemma validate_env: "env_le e (snd (validate l d e))"
  by (simp add: validate_def op_defs utc_now_def)

lemma use_limit_not_reached_less:
  "\<not> use_limit_reached l \<Longrightarrow> l_max_uses l = Some m \<Longrightarrow> l_use_count l < m"
  by (simp add: use_limit_reached_def not_le)

text \<open>Below its limit the counter does not wrap.\<close>

lemma record_use_counts:
  assumes "record_use l = Inr l'" and "l_max_uses l = Some m"
  shows "unat (l_use_count l') = Suc (unat (l_use_count l)) \<and> unat (l_use_count l') \<le> unat m"
proof -
  have lt: "l_use_count l < m"
    using assms by (auto simp: record_use_Inr intro: use_limit_not_reached_less)
  then have "unat (l_use_count l) < unat m" by (simp add: word_less_nat_alt)
  then have "unat (l_use_count l + 1) = Suc (unat (l_use_count l))"
    using unat_less_pow32 [of m] by (simp add: unat_word_ariths)
  then show ?thesis
    using assms lt by (auto simp: record_use_Inr word_less_nat_alt)
qed

lemma lease_inv_new: "lease_inv (fst (Lease_new a s ds t e))"
  by (simp add: Lease_new_eq lease_inv_def split: option.splits)

lemma lease_inv_record_use: "lease_inv l \<Longrightarrow> record_use l = Inr l' \<Longrightarrow> lease_inv l'"
proof (cases "l_max_uses l")
  case (Some m)
  assume "record_use l = Inr l'"
  then show ?thesis
    using record_use_counts [of l l' m] Some
    by (auto simp: lease_inv_def word_le_nat_alt record_use_Inr)
qed (auto simp: lease_inv_def record_use_Inr)

lemma lease_inv_revoke: "lease_inv (revoke l) = lease_inv l"
  by (simp add: lease_inv_def split: option.splits)

lemma renew_Inr:
  "renew us l x e = (Inr l', e') \<longleftrightarrow>
     \<not> l_revoked l \<and> l_renewable l \<and> e' = env_step e \<and>
     l' = l\<lparr>l_expires_at := env_clock e (env_pos e) + x, l_renewal_count := l_renewal_count l + 1\<rparr>"
  by (auto simp: renew_def op_defs utc_now_def)

lemma renew_env: "env_le e (snd (renew us l x e))"
  by (simp add: renew_def op_defs utc_now_def)

lemma lease_inv_renew: "lease_inv l \<Longrightarrow> renew us l x e = (Inr l', e') \<Longrightarrow> lease_inv l'"
  by (auto simp: renew_Inr lease_inv_def split: option.splits)

text \<open>A guard's debug form does not depend on the value it holds.\<close>

lemma debug_LeaseGuard_redacted: "debug_LeaseGuard dbg (LeaseGuard_new i v) = debug_LeaseGuard dbg (LeaseGuard_new i w)"
  by (simp add: debug_LeaseGuard_def LeaseGuard_new_def)

section \<open>Properties\<close>


end
