(* ===== verification/Crypto.thy ===== *)
theory Crypto
  imports Identity
begin

text \<open>
  Encryption at rest (\<^verbatim>\<open>src/crypto.rs\<close>) and the data encryption key of
  \<^verbatim>\<open>src/keysource/mod.rs\<close>. The two AEAD ciphers are external crates: the record \<open>aead\<close>
  holds their four functions, each from key, nonce and text to an optional result.
\<close>

record aead =
  aes_encrypt :: "bytes \<Rightarrow> bytes \<Rightarrow> bytes \<Rightarrow> bytes option"
  aes_decrypt :: "bytes \<Rightarrow> bytes \<Rightarrow> bytes \<Rightarrow> bytes option"
  xchacha_encrypt :: "bytes \<Rightarrow> bytes \<Rightarrow> bytes \<Rightarrow> bytes option"
  xchacha_decrypt :: "bytes \<Rightarrow> bytes \<Rightarrow> bytes \<Rightarrow> bytes option"

datatype DataEncryptionKey = DEK (dek_bytes: bytes)

definition debug_DataEncryptionKey :: "DataEncryptionKey \<Rightarrow> string" where
  "debug_DataEncryptionKey k = ''DataEncryptionKey([REDACTED])''"

record Sealed =
  sealed_ciphertext :: bytes
  sealed_nonce :: bytes
  sealed_algorithm :: CipherAlgorithm

record Cipher =
  default_algorithm :: CipherAlgorithm

text \<open>\<^verbatim>\<open>new_from_slice\<close> rejects a key that is not 32 bytes long.\<close>

definition encrypt_aes_gcm ::
  "aead \<Rightarrow> bytes \<Rightarrow> bytes \<Rightarrow> (env, Error, bytes \<times> bytes) op" where
  "encrypt_aes_gcm c plaintext key =
     (if length key \<noteq> 32 then fail EncryptionFailed
      else let_op (fill_bytes 12) (\<lambda>nonce.
        case aes_encrypt c key nonce plaintext of
          None \<Rightarrow> fail EncryptionFailed
        | Some ciphertext \<Rightarrow> ok (ciphertext, nonce)))"

definition decrypt_aes_gcm :: "aead \<Rightarrow> bytes \<Rightarrow> bytes \<Rightarrow> bytes \<Rightarrow> bytes result" where
  "decrypt_aes_gcm c ciphertext nonce key =
     (if length nonce \<noteq> 12 then Inl DecryptionFailed
      else if length key \<noteq> 32 then Inl DecryptionFailed
      else ok_or DecryptionFailed (aes_decrypt c key nonce ciphertext))"

definition encrypt_xchacha ::
  "aead \<Rightarrow> bytes \<Rightarrow> bytes \<Rightarrow> (env, Error, bytes \<times> bytes) op" where
  "encrypt_xchacha c plaintext key =
     (if length key \<noteq> 32 then fail EncryptionFailed
      else let_op (fill_bytes 24) (\<lambda>nonce.
        case xchacha_encrypt c key nonce plaintext of
          None \<Rightarrow> fail EncryptionFailed
        | Some ciphertext \<Rightarrow> ok (ciphertext, nonce)))"

definition decrypt_xchacha :: "aead \<Rightarrow> bytes \<Rightarrow> bytes \<Rightarrow> bytes \<Rightarrow> bytes result" where
  "decrypt_xchacha c ciphertext nonce key =
     (if length nonce \<noteq> 24 then Inl DecryptionFailed
      else if length key \<noteq> 32 then Inl DecryptionFailed
      else ok_or DecryptionFailed (xchacha_decrypt c key nonce ciphertext))"

definition Cipher_encrypt ::
  "aead \<Rightarrow> Cipher \<Rightarrow> bytes \<Rightarrow> DataEncryptionKey \<Rightarrow> (env, Error, Sealed) op" where
  "Cipher_encrypt c self plaintext key =
     try_op (case default_algorithm self of
         Aes256Gcm \<Rightarrow> encrypt_aes_gcm c plaintext (dek_bytes key)
       | XChaCha20Poly1305 \<Rightarrow> encrypt_xchacha c plaintext (dek_bytes key))
     (\<lambda>(ciphertext, nonce).
       ok \<lparr>sealed_ciphertext = ciphertext, sealed_nonce = nonce,
           sealed_algorithm = default_algorithm self\<rparr>)"

definition Cipher_decrypt :: "aead \<Rightarrow> Cipher \<Rightarrow> Sealed \<Rightarrow> DataEncryptionKey \<Rightarrow> bytes result" where
  "Cipher_decrypt c self sealed key =
     (case sealed_algorithm sealed of
        Aes256Gcm \<Rightarrow> decrypt_aes_gcm c (sealed_ciphertext sealed) (sealed_nonce sealed) (dek_bytes key)
      | XChaCha20Poly1305 \<Rightarrow>
          decrypt_xchacha c (sealed_ciphertext sealed) (sealed_nonce sealed) (dek_bytes key))"

text \<open>
  What is asked of the AEAD crates: decrypting a produced ciphertext under the same key
  and nonce gives back the plaintext.
\<close>

definition aead_correct :: "aead \<Rightarrow> bool" where
  "aead_correct c \<longleftrightarrow>
     (\<forall>k n p ct. aes_encrypt c k n p = Some ct \<longrightarrow> aes_decrypt c k n ct = Some p) \<and>
     (\<forall>k n p ct. xchacha_encrypt c k n p = Some ct \<longrightarrow> xchacha_decrypt c k n ct = Some p)"

text \<open>That encryption under a 32-byte key does not fail (it does only for oversized texts).\<close>

definition aead_total :: "aead \<Rightarrow> bool" where
  "aead_total c \<longleftrightarrow>
     (\<forall>k n p. aes_encrypt c k n p \<noteq> None) \<and> (\<forall>k n p. xchacha_encrypt c k n p \<noteq> None)"

section \<open>Lemmas\<close>

lemma Cipher_encrypt_env: "env_le e (snd (Cipher_encrypt c ci p k e))"
  by (cases "default_algorithm ci")
    (auto simp: Cipher_encrypt_def encrypt_aes_gcm_def encrypt_xchacha_def op_defs case_prod_beta
      split: option.splits sum.splits if_splits)

lemma Cipher_encrypt_total:
  "aead_total c \<Longrightarrow> length (dek_bytes k) = 32 \<Longrightarrow> \<exists>x. fst (Cipher_encrypt c ci p k e) = Inr x"
  by (cases "default_algorithm ci")
    (auto simp: Cipher_encrypt_def encrypt_aes_gcm_def encrypt_xchacha_def op_defs aead_total_def
      case_prod_beta split: option.splits sum.splits)

text \<open>What one cipher sealed, any cipher configuration opens.\<close>

lemma decrypt_encrypt:
  assumes "aead_correct c" and "Cipher_encrypt c ci p k e = (Inr sealed, e')"
  shows "Cipher_decrypt c ci' sealed k = Inr p"
proof (cases "default_algorithm ci")
  case Aes256Gcm
  obtain nonce where n: "fill_bytes 12 e = (nonce, env_step e)" "length nonce = 12"
    by (metis length_fill_bytes prod.collapse snd_draws(3))
  show ?thesis using assms n Aes256Gcm
    by (auto simp: Cipher_encrypt_def Cipher_decrypt_def encrypt_aes_gcm_def decrypt_aes_gcm_def
        op_defs aead_correct_def split: if_splits option.splits)
next
  case XChaCha20Poly1305
  obtain nonce where n: "fill_bytes 24 e = (nonce, env_step e)" "length nonce = 24"
    by (metis length_fill_bytes prod.collapse snd_draws(3))
  show ?thesis using assms n XChaCha20Poly1305
    by (auto simp: Cipher_encrypt_def Cipher_decrypt_def encrypt_xchacha_def decrypt_xchacha_def
        op_defs aead_correct_def split: if_splits option.splits)
qed

section \<open>Properties\<close>

text \<open>
  C16: a sealed value decrypts to the plaintext it was made from under the same key,
  whichever algorithm the decrypting cipher is configured with, since decryption follows
  the algorithm recorded in the value; and a nonce of the wrong length is refused before
  the cipher is called.
\<close>

theorem cipher_migration:
  assumes "aead_correct c" and "Cipher_encrypt c ci p k e = (Inr sealed, e')"
  shows "Cipher_decrypt c ci' sealed k = Inr p \<and>
    length (sealed_nonce sealed) = (case default_algorithm ci of Aes256Gcm \<Rightarrow> 12 | XChaCha20Poly1305 \<Rightarrow> 24) \<and>
    (\<forall>s. length (sealed_nonce s) \<noteq> (case sealed_algorithm s of Aes256Gcm \<Rightarrow> 12 | XChaCha20Poly1305 \<Rightarrow> 24) \<longrightarrow>
      Cipher_decrypt c ci' s k = Inl DecryptionFailed)"
proof (intro conjI)
  show "Cipher_decrypt c ci' sealed k = Inr p" by (rule decrypt_encrypt [OF assms])
  show "length (sealed_nonce sealed) =
      (case default_algorithm ci of Aes256Gcm \<Rightarrow> 12 | XChaCha20Poly1305 \<Rightarrow> 24)"
    using assms(2) length_fill_bytes [of 12 e] length_fill_bytes [of 24 e]
    by (auto simp: Cipher_encrypt_def encrypt_aes_gcm_def encrypt_xchacha_def op_defs case_prod_beta
        split: CipherAlgorithm.splits if_splits option.splits)
qed (auto simp: Cipher_decrypt_def decrypt_aes_gcm_def decrypt_xchacha_def split: CipherAlgorithm.splits)

text \<open>A cipher that appends the key and nonce as a tag, for closed examples.\<close>

definition tag_seal :: "bytes \<Rightarrow> bytes \<Rightarrow> bytes \<Rightarrow> bytes option" where
  "tag_seal k n p = Some (p @ k @ n)"

definition tag_open :: "bytes \<Rightarrow> bytes \<Rightarrow> bytes \<Rightarrow> bytes option" where
  "tag_open k n ct = strip_suffix ct (k @ n)"

definition tag_aead :: aead where
  "tag_aead = \<lparr>aes_encrypt = tag_seal, aes_decrypt = tag_open,
     xchacha_encrypt = tag_seal, xchacha_decrypt = tag_open\<rparr>"

lemma tag_aead_correct: "aead_correct tag_aead" "aead_total tag_aead"
  by (auto simp: aead_correct_def aead_total_def tag_aead_def tag_seal_def tag_open_def strip_suffix_Some)

definition sample_env :: env where
  "sample_env = \<lparr>env_clock = (\<lambda>n. int n), env_uuid = (\<lambda>n. word_of_nat n),
     env_rand = (\<lambda>n m. replicate m (word_of_nat n)), env_fault = (\<lambda>n. None), env_pos = 0\<rparr>"

theorem cipher_migration_witness:
  "Cipher_decrypt tag_aead \<lparr>default_algorithm = Aes256Gcm\<rparr>
     \<lparr>sealed_ciphertext = [1, 2, 3] @ replicate 32 7 @ replicate 24 0,
      sealed_nonce = replicate 24 0, sealed_algorithm = XChaCha20Poly1305\<rparr>
     (DEK (replicate 32 7)) = Inr [1, 2, 3]"
proof -
  have "Cipher_encrypt tag_aead \<lparr>default_algorithm = XChaCha20Poly1305\<rparr> [1, 2, 3]
      (DEK (replicate 32 7)) sample_env =
    (Inr \<lparr>sealed_ciphertext = [1, 2, 3] @ replicate 32 7 @ replicate 24 0,
      sealed_nonce = replicate 24 0, sealed_algorithm = XChaCha20Poly1305\<rparr>, env_step sample_env)"
    by (simp add: Cipher_encrypt_def encrypt_xchacha_def op_defs fill_bytes_def sample_env_def
        tag_aead_def tag_seal_def)
  from cipher_migration [OF tag_aead_correct(1) this] show ?thesis by blast
qed

end
