(* ===== verification/Store.thy ===== *)
theory Store
  imports Crypto
begin

text \<open>
  The secret store interface (\<^verbatim>\<open>src/store/mod.rs\<close>): the stored record and its metadata
  view, the textual forms of cipher algorithms and secret kinds, the six operations a
  backend offers, and the contract of a backend as a locale over an abstract map from
  secret names to sealed values.
\<close>

record StoredSecret =
  ss_id :: SecretId
  ss_name :: SecretName
  ss_ciphertext :: bytes
  ss_nonce :: bytes
  ss_algorithm :: CipherAlgorithm
  ss_kind :: SecretKind
  ss_description :: "string option"
  ss_created_at :: date_time
  ss_updated_at :: date_time
  ss_version :: u32

text \<open>The double quote, which the string literals below cannot contain.\<close>

definition dquote :: string where
  "dquote = [char_of (34::nat)]"

definition parse_cipher_algorithm :: "string \<Rightarrow> CipherAlgorithm result" where
  "parse_cipher_algorithm s =
     (if s = ''aes256gcm'' then Inr Aes256Gcm
      else if s = ''xchacha20poly1305'' then Inr XChaCha20Poly1305
      else if s = dquote @ ''Aes256Gcm'' @ dquote then Inr Aes256Gcm
      else if s = dquote @ ''XChaCha20Poly1305'' @ dquote then Inr XChaCha20Poly1305
      else Inl (Storage (''unknown algorithm: '' @ s)))"

text \<open>\<^verbatim>\<open>trim_matches('"')\<close>.\<close>

definition trim_quotes :: "string \<Rightarrow> string" where
  "trim_quotes s =
     (let q = (\<lambda>c. c = hd dquote) in rev (dropWhile q (rev (dropWhile q s))))"

definition parse_secret_kind :: "string \<Rightarrow> SecretKind result" where
  "parse_secret_kind s =
     (if s = ''pat'' then Inr Pat
      else if s = ''oauth2'' then Inr (OAuth2 None None)
      else if s = ''apikey'' then Inr ApiKey
      else if s = ''basicauth'' then Inr BasicAuth
      else if s = ''sshkey'' then Inr SshKey
      else if s = ''clientcert'' then Inr ClientCert
      else if s = ''opaque'' then Inr Opaque
      else if starts_with s dquote then
        (let unquoted = trim_quotes s in
         if unquoted = ''Pat'' then Inr Pat
         else if unquoted = ''ApiKey'' then Inr ApiKey
         else if unquoted = ''BasicAuth'' then Inr BasicAuth
         else if unquoted = ''SshKey'' then Inr SshKey
         else if unquoted = ''ClientCert'' then Inr ClientCert
         else if unquoted = ''Opaque'' then Inr Opaque
         else Inl (Storage (''unknown kind: '' @ s)))
      else Inl (Storage (''unknown kind: '' @ s)))"

record StoreSecretParams =
  sp_name :: SecretName
  sp_ciphertext :: bytes
  sp_nonce :: bytes
  sp_algorithm :: CipherAlgorithm
  sp_kind :: SecretKind
  sp_description :: "string option"

record BatchUpdateItem =
  bu_name :: SecretName
  bu_ciphertext :: bytes
  bu_nonce :: bytes
  bu_algorithm :: CipherAlgorithm

definition SecretMetadata_from :: "StoredSecret \<Rightarrow> SecretMetadata" where
  "SecretMetadata_from s =
     \<lparr>md_id = ss_id s, md_name = ss_name s, md_kind = ss_kind s,
      md_description = ss_description s, md_created_at = ss_created_at s,
      md_updated_at = ss_updated_at s, md_version = ss_version s\<rparr>"

text \<open>The trait \<^verbatim>\<open>SecretStore\<close>: operations over the backend's state and the environment.\<close>

record 's SecretStore =
  put :: "StoreSecretParams \<Rightarrow> ('s \<times> env, Error, StoredSecret) op"
  get :: "SecretName \<Rightarrow> ('s \<times> env, Error, StoredSecret) op"
  update :: "SecretName \<Rightarrow> bytes \<Rightarrow> bytes \<Rightarrow> CipherAlgorithm \<Rightarrow> ('s \<times> env, Error, StoredSecret) op"
  batch_update :: "BatchUpdateItem list \<Rightarrow> ('s \<times> env, Error, unit) op"
  delete :: "SecretName \<Rightarrow> ('s \<times> env, Error, unit) op"
  list_all_md :: "('s \<times> env, Error, SecretMetadata list) op"

section \<open>The contract of a store\<close>

definition stored_sealed :: "StoredSecret \<Rightarrow> Sealed" where
  "stored_sealed x =
     \<lparr>sealed_ciphertext = ss_ciphertext x, sealed_nonce = ss_nonce x, sealed_algorithm = ss_algorithm x\<rparr>"

definition params_sealed :: "StoreSecretParams \<Rightarrow> Sealed" where
  "params_sealed x =
     \<lparr>sealed_ciphertext = sp_ciphertext x, sealed_nonce = sp_nonce x, sealed_algorithm = sp_algorithm x\<rparr>"

definition item_sealed :: "BatchUpdateItem \<Rightarrow> Sealed" where
  "item_sealed x =
     \<lparr>sealed_ciphertext = bu_ciphertext x, sealed_nonce = bu_nonce x, sealed_algorithm = bu_algorithm x\<rparr>"

text \<open>The abstract effect of a batch: the updates in order, each of a present name.\<close>

fun apply_batch :: "BatchUpdateItem list \<Rightarrow> (SecretName \<rightharpoonup> Sealed) \<Rightarrow> (SecretName \<rightharpoonup> Sealed) option" where
  "apply_batch [] m = Some m"
| "apply_batch (u # us) m =
     (if bu_name u \<in> dom m then apply_batch us (m(bu_name u \<mapsto> item_sealed u)) else None)"

text \<open>No external call of an environment fails.\<close>

definition quiet :: "env \<Rightarrow> bool" where
  "quiet e \<longleftrightarrow> (\<forall>i. env_fault e i = None)"

lemma quiet_env_le: "env_le e e' \<Longrightarrow> quiet e' = quiet e"
  by (simp add: quiet_def env_le_def)

lemma quiet_step [simp]: "quiet (env_step e) = quiet e"
  by (simp add: quiet_def)

text \<open>
  A store over states \<open>'s\<close>: \<open>absf\<close> reads the abstract map, \<open>inv\<close> is the backend's
  invariant and \<open>readable s n\<close> says that the stored form of \<open>n\<close> parses back.
  A failed operation leaves the map as it was, except \<open>update\<close>, which reports a failure
  of its final read after the write; a batch takes effect as a whole or not at all.
\<close>

locale secret_store =
  fixes st :: "'s SecretStore"
    and absf :: "'s \<Rightarrow> SecretName \<rightharpoonup> Sealed"
    and inv :: "'s \<Rightarrow> bool"
    and readable :: "'s \<Rightarrow> SecretName \<Rightarrow> bool"
  assumes get_frame: "get st n (s, e) = (r, s', e') \<Longrightarrow> s' = s \<and> env_le e e'"
    and get_ok: "inv s \<Longrightarrow> get st n (s, e) = (Inr x, s', e') \<Longrightarrow>
      ss_name x = n \<and> absf s n = Some (stored_sealed x)"
    and get_live: "inv s \<Longrightarrow> quiet e \<Longrightarrow> absf s n = Some y \<Longrightarrow> readable s n \<Longrightarrow>
      \<exists>x. fst (get st n (s, e)) = Inr x"
    and get_absent: "inv s \<Longrightarrow> quiet e \<Longrightarrow> absf s n = None \<Longrightarrow>
      fst (get st n (s, e)) = Inl (SecretNotFound n)"
    and put_inv: "inv s \<Longrightarrow> put st p (s, e) = (r, s', e') \<Longrightarrow> inv s' \<and> env_le e e'"
    and put_ok: "inv s \<Longrightarrow> put st p (s, e) = (Inr x, s', e') \<Longrightarrow>
      absf s (sp_name p) = None \<and> absf s' = (absf s)(sp_name p \<mapsto> params_sealed p) \<and>
      ss_name x = sp_name p \<and> readable s' (sp_name p)"
    and put_fail: "inv s \<Longrightarrow> put st p (s, e) = (Inl er, s', e') \<Longrightarrow> absf s' = absf s"
    and update_inv: "inv s \<Longrightarrow> update st n c no al (s, e) = (r, s', e') \<Longrightarrow> inv s' \<and> env_le e e'"
    and update_ok: "inv s \<Longrightarrow> update st n c no al (s, e) = (Inr x, s', e') \<Longrightarrow>
      n \<in> dom (absf s) \<and>
      absf s' = (absf s)(n \<mapsto> \<lparr>sealed_ciphertext = c, sealed_nonce = no, sealed_algorithm = al\<rparr>) \<and>
      absf s' n = Some (stored_sealed x)"
    and batch_inv: "inv s \<Longrightarrow> batch_update st us (s, e) = (ru, s', e') \<Longrightarrow> inv s' \<and> env_le e e'"
    and batch_ok: "inv s \<Longrightarrow> batch_update st us (s, e) = (Inr u, s', e') \<Longrightarrow>
      apply_batch us (absf s) = Some (absf s')"
    and batch_fail: "inv s \<Longrightarrow> batch_update st us (s, e) = (Inl er, s', e') \<Longrightarrow> absf s' = absf s"
    and delete_inv: "inv s \<Longrightarrow> delete st n (s, e) = (ru, s', e') \<Longrightarrow> inv s' \<and> env_le e e'"
    and delete_ok: "inv s \<Longrightarrow> delete st n (s, e) = (Inr u, s', e') \<Longrightarrow>
      n \<in> dom (absf s) \<and> absf s' = (absf s)(n := None)"
    and delete_fail: "inv s \<Longrightarrow> delete st n (s, e) = (Inl er, s', e') \<Longrightarrow> absf s' = absf s"
    and list_frame: "list_all_md st (s, e) = (rl, s', e') \<Longrightarrow> s' = s \<and> env_le e e'"
    and list_ok: "inv s \<Longrightarrow> list_all_md st (s, e) = (Inr ms, s', e') \<Longrightarrow>
      distinct (map md_name ms) \<and> set (map md_name ms) = dom (absf s)"
begin

text \<open>Insert, then lookup.\<close>

lemma get_after_put:
  assumes "inv s" and "put st p (s, e) = (Inr x, s1, e1)" and "get st (sp_name p) (s1, e2) = (r, s2, e3)"
  shows "quiet e2 \<Longrightarrow> \<exists>y. r = Inr y" and "r = Inr y \<Longrightarrow> stored_sealed y = params_sealed p"
proof -
  have s1: "inv s1" "absf s1 (sp_name p) = Some (params_sealed p)" "readable s1 (sp_name p)"
    using put_inv put_ok assms by auto
  show "quiet e2 \<Longrightarrow> \<exists>y. r = Inr y"
    using get_live [OF s1(1) _ s1(2,3), of e2] assms(3) by simp
  show "r = Inr y \<Longrightarrow> stored_sealed y = params_sealed p"
    using get_ok [OF s1(1)] assms(3) s1(2) by simp
qed

lemma get_after_delete:
  assumes "inv s" and "delete st n (s, e) = (Inr u, s1, e1)" and "quiet e2"
  shows "fst (get st n (s1, e2)) = Inl (SecretNotFound n)"
  using delete_inv [OF assms(1,2)] delete_ok [OF assms(1,2)] get_absent assms(3) by simp

lemma put_twice:
  assumes "inv s" and "put st p (s, e) = (Inr x, s1, e1)" and "sp_name q = sp_name p"
  shows "\<exists>err. fst (put st q (s1, e2)) = Inl err"
proof -
  have "inv s1" "absf s1 (sp_name q) \<noteq> None"
    using put_inv [OF assms(1,2)] put_ok [OF assms(1,2)] assms(3) by auto
  then show ?thesis
    using put_ok [of s1 q e2] by (cases "put st q (s1, e2)", cases "fst (put st q (s1, e2))") auto
qed

end

section \<open>Lemmas\<close>

lemma apply_batch_dom: "apply_batch us m = Some m' \<Longrightarrow> dom m' = dom m"
  by (induction us arbitrary: m) (auto split: if_splits)

lemma apply_batch_other:
  "apply_batch us m = Some m' \<Longrightarrow> n \<notin> bu_name ` set us \<Longrightarrow> m' n = m n"
  by (induction us arbitrary: m) (auto split: if_splits)

lemma apply_batch_in:
  "apply_batch us m = Some m' \<Longrightarrow> distinct (map bu_name us) \<Longrightarrow> u \<in> set us \<Longrightarrow>
    m' (bu_name u) = Some (item_sealed u)"
proof (induction us arbitrary: m)
  case (Cons a us)
  then have rest: "apply_batch us (m(bu_name a \<mapsto> item_sealed a)) = Some m'"
    by (simp split: if_splits)
  show ?case
  proof (cases "u = a")
    case True
    then show ?thesis using apply_batch_other [OF rest, of "bu_name a"] Cons.prems by auto
  qed (use Cons rest in auto)
qed simp

section \<open>Properties\<close>

text \<open>
  The textual forms a database stores parse back: every cipher algorithm exactly, and
  every secret kind up to the refresh data of an OAuth2 token, which is dropped.
\<close>

theorem parse_as_str:
  "parse_cipher_algorithm (CipherAlgorithm_as_str a) = Inr a \<and>
   parse_secret_kind (SecretKind_as_str k) =
     Inr (case k of OAuth2 _ _ \<Rightarrow> OAuth2 None None | _ \<Rightarrow> k)"
  by (cases a; cases k; simp add: parse_cipher_algorithm_def parse_secret_kind_def)

end
