(* ===== verification/Transport.thy ===== *)
theory Transport
  imports Identity
begin

text \<open>
  Peer identities (\<^verbatim>\<open>src/transport/mod.rs\<close>): what the transport knows of a client, how it
  prints in audit entries, and the token hash. A socket address is kept in the form its
  \<^verbatim>\<open>Display\<close> prints, the only use made of it; SHA-256 is an argument.
\<close>

type_synonym TokenHash = bytes

datatype PeerIdentity =
    PeerUnix (peer_uid: u32) (peer_pid: u32)
  | PeerVsock (peer_cid: u32)
  | PeerTcp (peer_addr: string) (peer_token_hash: TokenHash)
  | Anonymous

fun set_token_hash :: "PeerIdentity \<Rightarrow> TokenHash \<Rightarrow> PeerIdentity" where
  "set_token_hash (PeerTcp addr _) hash = PeerTcp addr hash"
| "set_token_hash p hash = p"

fun show_PeerIdentity :: "PeerIdentity \<Rightarrow> string" where
  "show_PeerIdentity (PeerUnix uid pid) =
     ''unix(uid='' @ show_nat (unat uid) @ '', pid='' @ show_nat (unat pid) @ '')''"
| "show_PeerIdentity (PeerVsock cid) = ''vsock(cid='' @ show_nat (unat cid) @ '')''"
| "show_PeerIdentity (PeerTcp addr hash) =
     ''tcp(addr='' @ addr @ '', token='' @ concat (map hex_byte (take 8 hash)) @ '')''"
| "show_PeerIdentity Anonymous = ''anonymous''"

definition hash_token :: "(bytes \<Rightarrow> bytes) \<Rightarrow> string \<Rightarrow> TokenHash" where
  "hash_token sha256 token = sha256 (as_bytes token)"

text \<open>The token itself never shows: the printed form depends on its hash alone.\<close>

lemma show_peer_token_hash:
  "take 8 h = take 8 h' \<Longrightarrow>
    show_PeerIdentity (set_token_hash p h) = show_PeerIdentity (set_token_hash p h')"
  by (cases p) auto

end
