(* ===== verification/Audit_Log.thy ===== *)
theory Audit_Log
  imports Transport
begin

text \<open>
  Audit events and entries (\<^verbatim>\<open>src/audit/mod.rs\<close>), the audit log interface with its
  contract as a locale, and the backend that emits entries to the \<^verbatim>\<open>tracing\<close> facade
  (\<^verbatim>\<open>src/audit/tracing_log.rs\<close>), which provides that contract.
\<close>

datatype AuditEvent =
    Ev_LeaseGranted LeaseId SecretName "DomainScope list" int
  | Ev_SecretAccessed LeaseId SecretName DomainScope
  | Ev_LeaseRevoked LeaseId RevocationReason
  | Ev_LeaseRenewed LeaseId int
  | Ev_AccessDenied SecretName DomainScope string
  | Ev_SecretStored SecretName
  | Ev_SecretRotated SecretName u32
  | Ev_SecretDeleted SecretName
  | Ev_DekRotated
  | Ev_PolicyReloaded nat
  | Ev_SessionCreated SessionId string string int
  | Ev_SessionRevoked SessionId string u32
  | Ev_ToolBindingDenied SessionId string SecretName string

fun indexed_fields :: "AuditEvent \<Rightarrow> string option \<times> LeaseId option" where
  "indexed_fields (Ev_LeaseGranted l s _ _) = (Some (name_str s), Some l)"
| "indexed_fields (Ev_SecretAccessed l s _) = (Some (name_str s), Some l)"
| "indexed_fields (Ev_LeaseRevoked l _) = (None, Some l)"
| "indexed_fields (Ev_LeaseRenewed l _) = (None, Some l)"
| "indexed_fields (Ev_AccessDenied s _ _) = (Some (name_str s), None)"
| "indexed_fields (Ev_SecretStored s) = (Some (name_str s), None)"
| "indexed_fields (Ev_SecretRotated s _) = (Some (name_str s), None)"
| "indexed_fields (Ev_SecretDeleted s) = (Some (name_str s), None)"
| "indexed_fields Ev_DekRotated = (None, None)"
| "indexed_fields (Ev_PolicyReloaded _) = (None, None)"
| "indexed_fields (Ev_SessionCreated _ _ _ _) = (None, None)"
| "indexed_fields (Ev_SessionRevoked _ _ _) = (None, None)"
| "indexed_fields (Ev_ToolBindingDenied _ _ s _) = (Some (name_str s), None)"

datatype AuditOutcome = Success | Denied string | ErrorOutcome string

record AuditEntry =
  ae_timestamp :: date_time
  ae_event_id :: uuid
  ae_event :: AuditEvent
  ae_agent :: AgentId
  ae_peer_identity :: string
  ae_outcome :: AuditOutcome

definition AuditEntry_new ::
  "AuditEvent \<Rightarrow> AgentId \<Rightarrow> PeerIdentity \<Rightarrow> AuditOutcome \<Rightarrow> env \<Rightarrow> AuditEntry \<times> env" where
  "AuditEntry_new event agent peer outcome e =
     (case utc_now e of (now, e1) \<Rightarrow>
      case uuid_now_v7 e1 of (u, e2) \<Rightarrow>
        (\<lparr>ae_timestamp = now, ae_event_id = u, ae_event = event, ae_agent = agent,
          ae_peer_identity = show_PeerIdentity peer, ae_outcome = outcome\<rparr>, e2))"

text \<open>The trait \<^verbatim>\<open>AuditLog\<close>.\<close>

record 'a AuditLog =
  record_entry :: "AuditEntry \<Rightarrow> ('a \<times> env, Error, unit) op"
  query_by_agent :: "AgentId \<Rightarrow> nat \<Rightarrow> ('a \<times> env, Error, AuditEntry list) op"
  query_by_secret :: "SecretName \<Rightarrow> nat \<Rightarrow> ('a \<times> env, Error, AuditEntry list) op"
  query_by_lease :: "LeaseId \<Rightarrow> ('a \<times> env, Error, AuditEntry list) op"

section \<open>The contract of an audit log\<close>

text \<open>
  A log over states \<open>'a\<close> holds a sequence of items \<open>items a\<close>, each the form \<open>view\<close> in
  which the backend keeps an entry. Recording appends the entry's form or fails and
  leaves the sequence as it was; queries change nothing.
\<close>

locale audit_log =
  fixes au :: "'a AuditLog"
    and items :: "'a \<Rightarrow> 'x list"
    and view :: "AuditEntry \<Rightarrow> 'x"
    and inv :: "'a \<Rightarrow> bool"
  assumes record_inv: "inv a \<Longrightarrow> record_entry au x (a, e) = (r, a', e') \<Longrightarrow> inv a' \<and> env_le e e'"
    and record_ok: "inv a \<Longrightarrow> record_entry au x (a, e) = (Inr u, a', e') \<Longrightarrow> items a' = items a @ [view x]"
    and record_fail: "inv a \<Longrightarrow> record_entry au x (a, e) = (Inl er, a', e') \<Longrightarrow> items a' = items a"
    and by_agent_frame: "query_by_agent au ag n (a, e) = (q, a', e') \<Longrightarrow> a' = a \<and> env_le e e'"
    and by_secret_frame: "query_by_secret au sn n (a, e) = (q, a', e') \<Longrightarrow> a' = a \<and> env_le e e'"
    and by_lease_frame: "query_by_lease au li (a, e) = (q, a', e') \<Longrightarrow> a' = a \<and> env_le e e'"
begin

text \<open>The log only grows.\<close>

lemma record_prefix:
  "inv a \<Longrightarrow> record_entry au x (a, e) = (r, a', e') \<Longrightarrow> \<exists>xs. items a' = items a @ xs"
  using record_ok record_fail by (cases r) (metis append_Nil2, metis)

lemma record_member:
  "inv a \<Longrightarrow> record_entry au x (a, e) = (r, a', e') \<Longrightarrow> y \<in> set (items a) \<Longrightarrow> y \<in> set (items a')"
  using record_prefix by fastforce

end

section \<open>The tracing backend\<close>

text \<open>
  The fields of the event \<^verbatim>\<open>TracingAuditLog::record\<close> emits. JSON serialisation is serde's
  and the printed forms of UUIDs and time stamps are their crates', all arguments.
\<close>

record audit_codec =
  event_to_json :: "AuditEvent \<Rightarrow> string + string"
  event_of_json :: "string \<Rightarrow> string + AuditEvent"
  outcome_to_json :: "AuditOutcome \<Rightarrow> string + string"
  outcome_of_json :: "string \<Rightarrow> string + AuditOutcome"
  uuid_to_string :: "uuid \<Rightarrow> string"
  uuid_parse :: "string \<Rightarrow> string + uuid"
  show_timestamp :: "date_time \<Rightarrow> string"
  to_rfc3339 :: "date_time \<Rightarrow> string"
  parse_rfc3339 :: "string \<Rightarrow> string + date_time"

record TracedEvent =
  te_event_id :: string
  te_timestamp :: string
  te_agent :: string
  te_peer_identity :: string
  te_event :: string
  te_outcome :: string
  te_secret_name :: string
  te_lease_id :: string

definition traced_event :: "audit_codec \<Rightarrow> AuditEntry \<Rightarrow> string \<Rightarrow> string \<Rightarrow> TracedEvent" where
  "traced_event c entry event_json outcome_json =
     (let (secret_name, lease_id) = indexed_fields (ae_event entry);
          lease_id_str = map_option (\<lambda>l. uuid_to_string c (lid_uuid l)) lease_id
      in \<lparr>te_event_id = uuid_to_string c (ae_event_id entry),
          te_timestamp = show_timestamp c (ae_timestamp entry),
          te_agent = agent_str (ae_agent entry),
          te_peer_identity = ae_peer_identity entry,
          te_event = event_json, te_outcome = outcome_json,
          te_secret_name = (case secret_name of None \<Rightarrow> '''' | Some s \<Rightarrow> s),
          te_lease_id = (case lease_id_str of None \<Rightarrow> '''' | Some s \<Rightarrow> s)\<rparr>)"

definition tracing_record :: "audit_codec \<Rightarrow> AuditEntry \<Rightarrow> (TracedEvent list \<times> env, Error, unit) op" where
  "tracing_record c entry =
     (case event_to_json c (ae_event entry) of
        Inl m \<Rightarrow> fail (Storage (''failed to serialize audit event: '' @ m))
      | Inr event_json \<Rightarrow>
         (case outcome_to_json c (ae_outcome entry) of
            Inl m \<Rightarrow> fail (Storage (''failed to serialize audit outcome: '' @ m))
          | Inr outcome_json \<Rightarrow>
              (\<lambda>(log, e). (Inr (), log @ [traced_event c entry event_json outcome_json], e))))"

definition not_queryable :: Error where
  "not_queryable = NotSupported ''TracingAuditLog does not support querying; use your log aggregator''"

definition TracingAuditLog :: "audit_codec \<Rightarrow> TracedEvent list AuditLog" where
  "TracingAuditLog c =
     \<lparr>record_entry = tracing_record c,
      query_by_agent = (\<lambda>_ _. fail not_queryable),
      query_by_secret = (\<lambda>_ _. fail not_queryable),
      query_by_lease = (\<lambda>_. fail not_queryable)\<rparr>"

definition json_text :: "string + string \<Rightarrow> string" where
  "json_text r = (case r of Inl _ \<Rightarrow> '''' | Inr j \<Rightarrow> j)"

definition tracing_view :: "audit_codec \<Rightarrow> AuditEntry \<Rightarrow> TracedEvent" where
  "tracing_view c x =
     traced_event c x (json_text (event_to_json c (ae_event x))) (json_text (outcome_to_json c (ae_outcome x)))"

interpretation tracing: audit_log "TracingAuditLog c" "\<lambda>log. log" "tracing_view c" "\<lambda>_. True" for c
  by unfold_locales
    (auto simp: TracingAuditLog_def tracing_record_def tracing_view_def json_text_def
      split: sum.splits)

section \<open>Lemmas\<close>

lemma AuditEntry_new_eq:
  "AuditEntry_new ev ag peer out e =
     (\<lparr>ae_timestamp = env_clock e (env_pos e), ae_event_id = env_uuid e (Suc (env_pos e)),
       ae_event = ev, ae_agent = ag, ae_peer_identity = show_PeerIdentity peer, ae_outcome = out\<rparr>,
      env_step (env_step e))"
  by (simp add: AuditEntry_new_def utc_now_def uuid_now_v7_def)

end
