(* ===== verification/Protocol.thy ===== *)
theory Protocol
  imports Frame Lease Store Audit_Log
begin

text \<open>
  The messages of the wire protocol (\<^verbatim>\<open>src/protocol/mod.rs\<close>): handshake, request and response
  envelopes, the parameters and results of the eight methods, and the mapping of errors to
  codes. \<^verbatim>\<open>serde_json\<close> and \<^verbatim>\<open>base64\<close> are other crates: a record \<open>serde\<close> holds the
  conversions the code calls, over a type \<open>'j\<close> of JSON values, each of which may fail with
  a message; \<open>serde_ok\<close> states that decoding inverts encoding.
\<close>

section \<open>Handshake\<close>

definition PROTOCOL_NAME :: string where
  "PROTOCOL_NAME = ''zerolease''"

definition CURRENT_VERSION :: u32 where
  "CURRENT_VERSION = 1"

record ClientHello =
  ch_protocol :: string
  ch_version :: u32
  ch_token :: "string option"

definition ClientHello_new :: ClientHello where
  "ClientHello_new = \<lparr>ch_protocol = PROTOCOL_NAME, ch_version = CURRENT_VERSION, ch_token = None\<rparr>"

definition with_token :: "string \<Rightarrow> ClientHello" where
  "with_token token = ClientHello_new\<lparr>ch_token := Some token\<rparr>"

record ServerHello =
  sh_protocol :: string
  sh_version :: u32
  sh_ok :: bool
  sh_error :: "string option"

definition accept :: "u32 \<Rightarrow> ServerHello" where
  "accept version = \<lparr>sh_protocol = PROTOCOL_NAME, sh_version = version, sh_ok = True, sh_error = None\<rparr>"

definition reject :: "string \<Rightarrow> ServerHello" where
  "reject reason =
     \<lparr>sh_protocol = PROTOCOL_NAME, sh_version = CURRENT_VERSION, sh_ok = False, sh_error = Some reason\<rparr>"

section \<open>Error codes\<close>

fun error_to_code :: "Error \<Rightarrow> string" where
  "error_to_code (LeaseExpired _) = ''lease_expired''"
| "error_to_code (LeaseRevoked _) = ''lease_revoked''"
| "error_to_code (LeaseNotFound _) = ''lease_not_found''"
| "error_to_code (AccessDenied _ _ _) = ''access_denied''"
| "error_to_code (NoPolicyForAgent _) = ''no_policy_for_agent''"
| "error_to_code (SecretNotFound _) = ''secret_not_found''"
| "error_to_code (SecretAlreadyExists _) = ''secret_already_exists''"
| "error_to_code EncryptionFailed = ''encryption_failed''"
| "error_to_code DecryptionFailed = ''decryption_failed''"
| "error_to_code (KeySourceUnavailable _) = ''key_source_unavailable''"
| "error_to_code (Storage _) = ''storage''"
| "error_to_code (Transport _) = ''transport''"
| "error_to_code (InvalidConfig _) = ''invalid_config''"
| "error_to_code (NotSupported _) = ''not_supported''"
| "error_to_code (Remote _ _) = ''remote''"
| "error_to_code SessionNotFound = ''session_not_found''"
| "error_to_code (SessionExpired _) = ''session_expired''"
| "error_to_code (SessionRevokedErr _) = ''session_revoked''"
| "error_to_code (SessionLeaseLimitReached _ _) = ''session_lease_limit''"
| "error_to_code (RenewalLimitReached _ _) = ''renewal_limit_reached''"

record ErrorPayload =
  ep_code :: string
  ep_message :: string

definition error_to_payload :: "(uuid \<Rightarrow> string) \<Rightarrow> Error \<Rightarrow> ErrorPayload" where
  "error_to_payload us err = \<lparr>ep_code = error_to_code err, ep_message = show_Error us err\<rparr>"

definition CODE_INVALID_REQUEST :: string where
  "CODE_INVALID_REQUEST = ''invalid_request''"

definition CODE_PROTOCOL_ERROR :: string where
  "CODE_PROTOCOL_ERROR = ''protocol_error''"

section \<open>Envelopes\<close>

record 'j Request =
  rq_id :: uuid
  rq_method :: string
  rq_params :: 'j

record 'j Response =
  rs_id :: uuid
  rs_ok :: bool
  rs_result :: "'j option"
  rs_error :: "ErrorPayload option"

definition success :: "uuid \<Rightarrow> 'j \<Rightarrow> 'j Response" where
  "success i result = \<lparr>rs_id = i, rs_ok = True, rs_result = Some result, rs_error = None\<rparr>"

definition from_error :: "(uuid \<Rightarrow> string) \<Rightarrow> uuid \<Rightarrow> Error \<Rightarrow> 'j Response" where
  "from_error us i err =
     \<lparr>rs_id = i, rs_ok = False, rs_result = None, rs_error = Some (error_to_payload us err)\<rparr>"

definition protocol_error :: "uuid \<Rightarrow> string \<Rightarrow> string \<Rightarrow> 'j Response" where
  "protocol_error i code message =
     \<lparr>rs_id = i, rs_ok = False, rs_result = None,
      rs_error = Some \<lparr>ep_code = code, ep_message = message\<rparr>\<rparr>"

section \<open>Methods\<close>

abbreviation "STORE_SECRET \<equiv> ''store_secret''"
abbreviation "REQUEST_LEASE \<equiv> ''request_lease''"
abbreviation "ACCESS_SECRET \<equiv> ''access_secret''"
abbreviation "REVOKE_LEASE \<equiv> ''revoke_lease''"
abbreviation "REVOKE_ALL_FOR_AGENT \<equiv> ''revoke_all_for_agent''"
abbreviation "LIST_SECRETS \<equiv> ''list_secrets''"
abbreviation "RENEW_LEASE \<equiv> ''renew_lease''"
abbreviation "DELETE_SECRET \<equiv> ''delete_secret''"

record 'j StoreSecretRequest =
  ssr_name :: string
  ssr_plaintext :: string
  ssr_kind :: 'j
  ssr_description :: "string option"

text \<open>The \<^verbatim>\<open>Debug\<close> form: the fields in order, the plaintext replaced.\<close>

definition debug_StoreSecretRequest ::
  "(string \<Rightarrow> string) \<Rightarrow> ('j \<Rightarrow> string) \<Rightarrow> (string option \<Rightarrow> string) \<Rightarrow> 'j StoreSecretRequest \<Rightarrow> (string \<times> string) list" where
  "debug_StoreSecretRequest dbg_str dbg_json dbg_opt r =
     [(''name'', dbg_str (ssr_name r)), (''plaintext'', dbg_str ''[REDACTED]''),
      (''kind'', dbg_json (ssr_kind r)), (''description'', dbg_opt (ssr_description r))]"

record RequestLeaseRequest =
  rlr_agent :: string
  rlr_secret_name :: string
  rlr_domain :: string

record AccessSecretRequest =
  asr_lease_id :: uuid
  asr_target_domain :: string

record AccessSecretResponse =
  asr_secret :: string

record 'j RevokeLeaseRequest =
  rvr_lease_id :: uuid
  rvr_reason :: 'j

record RevokeAllForAgentRequest =
  rar_agent :: string

record RevokeAllForAgentResponse =
  rar_revoked_count :: nat

record 'j ListSecretsResponse =
  lsr_secrets :: "'j list"

record RenewLeaseRequest =
  rnr_lease_id :: uuid
  rnr_extension_secs :: int

record DeleteSecretRequest =
  dsr_name :: string

section \<open>The codecs\<close>

text \<open>A conversion to some text or value and the one back; either may fail with a message.\<close>

record ('x, 'y) conv =
  enc :: "'x \<Rightarrow> string + 'y"
  dec :: "'y \<Rightarrow> string + 'x"

record 'j serde =
  j_hello :: "(ClientHello, bytes) conv"
  j_server_hello :: "(ServerHello, bytes) conv"
  j_request :: "('j Request, bytes) conv"
  j_response :: "('j Response, bytes) conv"
  j_store :: "('j StoreSecretRequest, 'j) conv"
  j_request_lease :: "(RequestLeaseRequest, 'j) conv"
  j_access :: "(AccessSecretRequest, 'j) conv"
  j_access_result :: "(AccessSecretResponse, 'j) conv"
  j_revoke :: "('j RevokeLeaseRequest, 'j) conv"
  j_revoke_all :: "(RevokeAllForAgentRequest, 'j) conv"
  j_revoke_all_result :: "(RevokeAllForAgentResponse, 'j) conv"
  j_list_result :: "('j ListSecretsResponse, 'j) conv"
  j_renew :: "(RenewLeaseRequest, 'j) conv"
  j_delete :: "(DeleteSecretRequest, 'j) conv"
  j_kind :: "(SecretKind, 'j) conv"
  j_reason :: "(RevocationReason, 'j) conv"
  j_metadata :: "(SecretMetadata, 'j) conv"
  j_grant :: "(LeaseGrant, 'j) conv"
  j_empty :: 'j
  b64_encode :: "bytes \<Rightarrow> string"
  b64_decode :: "string \<Rightarrow> string + bytes"

definition conv_ok :: "('x, 'y) conv \<Rightarrow> bool" where
  "conv_ok c \<longleftrightarrow> (\<forall>x y. enc c x = Inr y \<longrightarrow> dec c y = Inr x)"

definition serde_ok :: "'j serde \<Rightarrow> bool" where
  "serde_ok J \<longleftrightarrow>
     conv_ok (j_hello J) \<and> conv_ok (j_server_hello J) \<and> conv_ok (j_request J) \<and> conv_ok (j_response J) \<and>
     conv_ok (j_store J) \<and> conv_ok (j_request_lease J) \<and> conv_ok (j_access J) \<and>
     conv_ok (j_access_result J) \<and> conv_ok (j_revoke J) \<and> conv_ok (j_revoke_all J) \<and>
     conv_ok (j_revoke_all_result J) \<and> conv_ok (j_list_result J) \<and> conv_ok (j_renew J) \<and>
     conv_ok (j_delete J) \<and> conv_ok (j_kind J) \<and> conv_ok (j_reason J) \<and> conv_ok (j_metadata J) \<and>
     conv_ok (j_grant J) \<and> (\<forall>b. b64_decode J (b64_encode J b) = Inr b)"

section \<open>Lemmas\<close>

lemma response_simps [simp]:
  "rs_id (success i j) = i" "rs_ok (success i j)" "rs_result (success i j) = Some j" "rs_error (success i j) = None"
  "rs_id (from_error us i e) = i" "\<not> rs_ok (from_error us i e)" "rs_result (from_error us i e) = None"
  "rs_error (from_error us i e) = Some (error_to_payload us e)"
  "rs_id (protocol_error i c m) = i" "\<not> rs_ok (protocol_error i c m)" "rs_result (protocol_error i c m) = None"
  "rs_error (protocol_error i c m) = Some \<lparr>ep_code = c, ep_message = m\<rparr>"
  by (simp_all add: success_def from_error_def protocol_error_def)

lemma conv_okD: "conv_ok c \<Longrightarrow> enc c x = Inr y \<Longrightarrow> dec c y = Inr x"
  by (simp add: conv_ok_def)

text \<open>A vault error never carries the code of a malformed request.\<close>

lemma error_to_code_not_protocol:
  "error_to_code e \<noteq> CODE_INVALID_REQUEST" "error_to_code e \<noteq> CODE_PROTOCOL_ERROR"
  by (cases e; simp add: CODE_INVALID_REQUEST_def CODE_PROTOCOL_ERROR_def)+

end
