(* ===== verification/Auth.thy ===== *)
theory Auth
  imports Transport
begin

text \<open>
  Authentication of connections (\<^verbatim>\<open>src/auth.rs\<close>): roles, the identity of a connection, and
  the two authenticators of the crate. The lock around the token table guards single map
  operations; a poisoned lock is not modelled. SHA-256 is an argument.
\<close>

datatype Role = Admin | Agent | Orchestrator

record ConnectionIdentity =
  ci_role :: Role
  ci_agent_id :: "AgentId option"
  ci_label :: string

type_synonym Authenticator = "PeerIdentity \<Rightarrow> string option \<Rightarrow> ConnectionIdentity option"

definition AllowAllAdmin :: Authenticator where
  "AllowAllAdmin peer token =
     Some \<lparr>ci_role = Admin, ci_agent_id = None, ci_label = ''allow-all-admin''\<rparr>"

record TokenAuthenticator =
  ta_tokens :: "(TokenHash \<times> ConnectionIdentity) list"

definition TokenAuthenticator_new :: TokenAuthenticator where
  "TokenAuthenticator_new = \<lparr>ta_tokens = []\<rparr>"

definition register ::
  "(bytes \<Rightarrow> bytes) \<Rightarrow> string \<Rightarrow> ConnectionIdentity \<Rightarrow> TokenAuthenticator \<Rightarrow> TokenAuthenticator" where
  "register sha256 token identity ta =
     ta\<lparr>ta_tokens := AList.update (hash_token sha256 token) identity (ta_tokens ta)\<rparr>"

definition revoke_token ::
  "(bytes \<Rightarrow> bytes) \<Rightarrow> string \<Rightarrow> TokenAuthenticator \<Rightarrow> bool \<times> TokenAuthenticator" where
  "revoke_token sha256 token ta =
     (map_of (ta_tokens ta) (hash_token sha256 token) \<noteq> None,
      ta\<lparr>ta_tokens := AList.delete (hash_token sha256 token) (ta_tokens ta)\<rparr>)"

definition token_authenticate :: "(bytes \<Rightarrow> bytes) \<Rightarrow> TokenAuthenticator \<Rightarrow> Authenticator" where
  "token_authenticate sha256 ta peer token =
     (case token of
        None \<Rightarrow> None
      | Some raw \<Rightarrow> map_of (ta_tokens ta) (hash_token sha256 raw))"

section \<open>The life of a token\<close>

lemma authenticate_register:
  "token_authenticate sha256 (register sha256 t i ta) peer (Some u) =
     (if hash_token sha256 u = hash_token sha256 t then Some i
      else token_authenticate sha256 ta peer (Some u))"
  by (auto simp: token_authenticate_def register_def update_conv')

lemma authenticate_revoke:
  "token_authenticate sha256 (snd (revoke_token sha256 t ta)) peer (Some u) =
     (if hash_token sha256 u = hash_token sha256 t then None
      else token_authenticate sha256 ta peer (Some u))"
  by (simp add: token_authenticate_def revoke_token_def delete_conv')

text \<open>Registrations and revocations of tokens, in the order they are made.\<close>

datatype token_step = Register string ConnectionIdentity | Revoke string

fun token_run :: "(bytes \<Rightarrow> bytes) \<Rightarrow> token_step list \<Rightarrow> TokenAuthenticator \<Rightarrow> TokenAuthenticator" where
  "token_run sha256 [] ta = ta"
| "token_run sha256 (Register t i # ss) ta = token_run sha256 ss (register sha256 t i ta)"
| "token_run sha256 (Revoke t # ss) ta = token_run sha256 ss (snd (revoke_token sha256 t ta))"

text \<open>What the last step on a token says of it.\<close>

fun last_word :: "string \<Rightarrow> ConnectionIdentity option \<Rightarrow> token_step list \<Rightarrow> ConnectionIdentity option" where
  "last_word u x [] = x"
| "last_word u x (Register t i # ss) = last_word u (if t = u then Some i else x) ss"
| "last_word u x (Revoke t # ss) = last_word u (if t = u then None else x) ss"

fun step_token :: "token_step \<Rightarrow> string" where
  "step_token (Register t i) = t"
| "step_token (Revoke t) = t"

lemma token_run_last_word:
  assumes "inj_on (hash_token sha256) (insert u (step_token ` set ss))"
  shows "token_authenticate sha256 (token_run sha256 ss ta) peer (Some u) =
    last_word u (token_authenticate sha256 ta peer (Some u)) ss"
  using assms
proof (induction ss arbitrary: ta)
  case (Cons s ss)
  have inj: "inj_on (hash_token sha256) (insert u (step_token ` set ss))"
    by (rule inj_on_subset [OF Cons.prems]) auto
  have eq: "hash_token sha256 u = hash_token sha256 (step_token s) \<longleftrightarrow> u = step_token s"
    using Cons.prems by (auto simp: inj_on_def)
  show ?case using Cons.IH [OF inj] eq
    by (cases s) (auto simp: authenticate_register authenticate_revoke)
qed simp

text \<open>
  C24: the token authenticator admits a connection exactly when the last step taken on its
  token registered it, with the identity of that registration, and never without a token.
  The registrations and revocations may come in any order, and the hash is asked to keep
  the tokens involved apart.
\<close>

theorem token_authenticator_decides:
  assumes "inj_on (hash_token sha256) (insert u (step_token ` set ss))"
  shows "token_authenticate sha256 (token_run sha256 ss TokenAuthenticator_new) peer (Some u) =
      last_word u None ss \<and>
    token_authenticate sha256 (token_run sha256 ss TokenAuthenticator_new) peer None = None"
  using token_run_last_word [OF assms, of TokenAuthenticator_new peer]
  by (simp add: token_authenticate_def TokenAuthenticator_new_def)

theorem token_authenticator_decides_witness:
  "token_authenticate (\<lambda>b. b)
     (token_run (\<lambda>b. b)
       [Register ''a'' \<lparr>ci_role = Agent, ci_agent_id = None, ci_label = ''x''\<rparr>,
        Register ''b'' \<lparr>ci_role = Admin, ci_agent_id = None, ci_label = ''y''\<rparr>, Revoke ''a'']
       TokenAuthenticator_new) Anonymous (Some ''a'') = None"
proof -
  have "inj_on (hash_token (\<lambda>b. b)) A" for A by (auto simp: inj_on_def hash_token_def)
  from token_authenticator_decides [OF this] show ?thesis by (simp del: token_run.simps)
qed

end
