(* ===== verification/Text.thy ===== *)
theory Text
  imports Prelude
begin

text \<open>
  The operations of Rust's \<^verbatim>\<open>str\<close> on white space, separators, letter case and decimal
  numbers that the policy warnings and the agent's parsers use, on UTF-8 byte strings.
\<close>

section \<open>White space\<close>

text \<open>
  \<^verbatim>\<open>char::is_whitespace\<close> on the UTF-8 encoding of a string: an ASCII white-space byte or
  the encoding of one of the Unicode white-space characters. None of these encodings starts
  with a continuation byte, so a match is always a whole character.
\<close>

definition whitespace_encodings :: "nat list list" where
  "whitespace_encodings =
     map (\<lambda>b. [b]) [9, 10, 11, 12, 13, 32] @
     [[194, 133], [194, 160], [225, 154, 128]] @
     map (\<lambda>b. [226, 128, b]) ([128..<139] @ [168, 169, 175]) @
     [[226, 129, 159], [227, 128, 128]]"

fun has_whitespace :: "string \<Rightarrow> bool" where
  "has_whitespace [] = False"
| "has_whitespace (c # cs) =
     (list_ex (starts_with (map of_char (c # cs))) whitespace_encodings \<or> has_whitespace cs)"

text \<open>The length of the white-space character a string starts or ends with.\<close>

definition ws_prefix :: "string \<Rightarrow> nat option" where
  "ws_prefix s = map_option length (find (starts_with (map of_char s)) whitespace_encodings)"

definition ws_suffix :: "string \<Rightarrow> nat option" where
  "ws_suffix s = map_option length (find (ends_with (map of_char s)) whitespace_encodings)"

lemma ws_encoding_pos: "w \<in> set whitespace_encodings \<Longrightarrow> w \<noteq> []"
  by (auto simp: whitespace_encodings_def)

lemma ws_suffix_pos: "ws_suffix s = Some n \<Longrightarrow> 0 < n"
  using ws_encoding_pos by (auto simp: ws_suffix_def find_Some_iff)

function trim_start :: "string \<Rightarrow> string" where
  "trim_start [] = []"
| "trim_start (c # cs) = (case ws_prefix (c # cs) of None \<Rightarrow> c # cs | Some n \<Rightarrow> trim_start (drop (n - 1) cs))"
  by pat_completeness auto
termination
  by (relation "measure length") auto

function trim_end :: "string \<Rightarrow> string" where
  "trim_end s = (if s = [] then [] else case ws_suffix s of None \<Rightarrow> s | Some n \<Rightarrow> trim_end (take (length s - n) s))"
  by pat_completeness auto
termination
  by (relation "measure length") (auto dest: ws_suffix_pos)

declare trim_end.simps [simp del]

definition trim :: "string \<Rightarrow> string" where
  "trim s = trim_end (trim_start s)"

text \<open>\<^verbatim>\<open>split_whitespace\<close>: the non-empty pieces between white space; \<open>cur\<close> is the piece being read.\<close>

function split_ws :: "string \<Rightarrow> string \<Rightarrow> string list" where
  "split_ws cur [] = (if cur = [] then [] else [cur])"
| "split_ws cur (c # cs) =
     (case ws_prefix (c # cs) of
        None \<Rightarrow> split_ws (cur @ [c]) cs
      | Some n \<Rightarrow> (if cur = [] then [] else [cur]) @ split_ws [] (drop (n - 1) cs))"
  by pat_completeness auto
termination
  by (relation "measure (\<lambda>(cur, s). length s)") auto

definition split_whitespace :: "string \<Rightarrow> string list" where
  "split_whitespace = split_ws []"

section \<open>Separators\<close>

text \<open>\<^verbatim>\<open>split_once\<close> and \<^verbatim>\<open>rsplit_once\<close> at a character.\<close>

fun split_once :: "char \<Rightarrow> string \<Rightarrow> (string \<times> string) option" where
  "split_once d [] = None"
| "split_once d (c # cs) =
     (if c = d then Some ([], cs) else map_option (\<lambda>(a, b). (c # a, b)) (split_once d cs))"

definition rsplit_once :: "char \<Rightarrow> string \<Rightarrow> (string \<times> string) option" where
  "rsplit_once d s = map_option (\<lambda>(a, b). (rev b, rev a)) (split_once d (rev s))"

text \<open>\<^verbatim>\<open>str::replace\<close> of a non-empty pattern, leftmost occurrences first.\<close>

function replace :: "string \<Rightarrow> string \<Rightarrow> string \<Rightarrow> string" where
  "replace p t [] = []"
| "replace p t (c # cs) =
     (if p \<noteq> [] \<and> starts_with (c # cs) p then t @ replace p t (drop (length p - 1) cs) else c # replace p t cs)"
  by pat_completeness auto
termination
  by (relation "measure (\<lambda>(p, t, s). length s)") auto

section \<open>Letters and digits\<close>

definition is_ascii_digit :: "char \<Rightarrow> bool" where
  "is_ascii_digit c \<longleftrightarrow> 48 \<le> (of_char c :: nat) \<and> (of_char c :: nat) \<le> 57"

definition is_ascii_upper :: "char \<Rightarrow> bool" where
  "is_ascii_upper c \<longleftrightarrow> 65 \<le> (of_char c :: nat) \<and> (of_char c :: nat) \<le> 90"

definition is_ascii_lower :: "char \<Rightarrow> bool" where
  "is_ascii_lower c \<longleftrightarrow> 97 \<le> (of_char c :: nat) \<and> (of_char c :: nat) \<le> 122"

definition is_ascii_alphanumeric :: "char \<Rightarrow> bool" where
  "is_ascii_alphanumeric c \<longleftrightarrow> is_ascii_digit c \<or> is_ascii_upper c \<or> is_ascii_lower c"

definition lower_char :: "char \<Rightarrow> char" where
  "lower_char c = (if is_ascii_upper c then char_of (of_char c + 32 :: nat) else c)"

definition to_ascii_lowercase :: "string \<Rightarrow> string" where
  "to_ascii_lowercase = map lower_char"

definition eq_ignore_ascii_case :: "string \<Rightarrow> string \<Rightarrow> bool" where
  "eq_ignore_ascii_case a b \<longleftrightarrow> to_ascii_lowercase a = to_ascii_lowercase b"

fun digits_value :: "nat \<Rightarrow> string \<Rightarrow> nat option" where
  "digits_value n [] = Some n"
| "digits_value n (c # cs) = (if is_ascii_digit c then digits_value (10 * n + (of_char c - 48)) cs else None)"

text \<open>\<^verbatim>\<open>str::parse::<u16>\<close>: an optional plus sign and at least one digit, in range.\<close>

definition parse_u16 :: "string \<Rightarrow> u16 option" where
  "parse_u16 s =
     (let ds = (case s of c # cs \<Rightarrow> if c = CHR ''+'' then cs else s | [] \<Rightarrow> []) in
      if ds = [] then None
      else (case digits_value 0 ds of
              Some n \<Rightarrow> if n < 65536 then Some (word_of_nat n) else None
            | None \<Rightarrow> None))"

section \<open>Lemmas\<close>

text \<open>On ASCII text white space is decided by the byte.\<close>

lemma ws_prefix_ascii:
  assumes "(of_char c :: nat) < 128"
  shows "ws_prefix (c # cs) = (if of_char c \<in> set [9, 10, 11, 12, 13, 32 :: nat] then Some 1 else None)"
  using assms unfolding ws_prefix_def whitespace_encodings_def
  by (simp add: starts_with_def upt_rec)

lemma ws_suffix_ascii:
  assumes "(of_char c :: nat) < 128"
  shows "ws_suffix (cs @ [c]) = (if of_char c \<in> set [9, 10, 11, 12, 13, 32 :: nat] then Some 1 else None)"
  using assms unfolding ws_suffix_def whitespace_encodings_def
  by (simp add: ends_with_iff upt_rec)

lemma split_once_Some: "split_once d s = Some (a, b) \<longleftrightarrow> s = a @ d # b \<and> d \<notin> set a"
proof (induction s arbitrary: a)
  case (Cons c s)
  then show ?case by (cases a) (auto split: prod.splits)
qed simp

lemma rsplit_once_Some: "rsplit_once d s = Some (a, b) \<longleftrightarrow> s = a @ d # b \<and> d \<notin> set b"
proof -
  have "rsplit_once d s = Some (a, b) \<longleftrightarrow> split_once d (rev s) = Some (rev b, rev a)"
    by (auto simp: rsplit_once_def)
  also have "\<dots> \<longleftrightarrow> s = a @ d # b \<and> d \<notin> set b"
    by (simp add: split_once_Some rev_swap)
  finally show ?thesis .
qed

lemma lower_char_idem [simp]: "lower_char (lower_char c) = lower_char c"
  by (auto simp: lower_char_def is_ascii_upper_def)

lemma to_ascii_lowercase_idem [simp]: "to_ascii_lowercase (to_ascii_lowercase s) = to_ascii_lowercase s"
  by (simp add: to_ascii_lowercase_def)

end
