(* ===== verification/Policy.thy ===== *)
theory Policy
  imports Identity Text
begin

text \<open>
  The policy engine (\<^verbatim>\<open>src/policy/mod.rs\<close>): grant rules with agent and secret patterns,
  the deny-by-default evaluation in which the first matching grant decides, the warnings
  issued when an engine is built, and reloading. The informational log lines of
  \<^verbatim>\<open>evaluate\<close> and \<^verbatim>\<open>reload\<close> are not modelled.
\<close>

datatype AgentPattern = AgentExact AgentId | AgentPrefix string | AgentAny

fun AgentPattern_matches :: "AgentPattern \<Rightarrow> AgentId \<Rightarrow> bool" where
  "AgentPattern_matches (AgentExact i) agent = (i = agent)"
| "AgentPattern_matches (AgentPrefix p) agent = starts_with (agent_str agent) p"
| "AgentPattern_matches AgentAny agent = True"

datatype SecretPattern = SecretExact SecretName | SecretPrefix string | SecretAny

fun SecretPattern_matches :: "SecretPattern \<Rightarrow> SecretName \<Rightarrow> bool" where
  "SecretPattern_matches (SecretExact n) name = (n = name)"
| "SecretPattern_matches (SecretPrefix p) name = starts_with (name_str name) p"
| "SecretPattern_matches SecretAny name = True"

record PolicyGrant =
  pg_agent :: AgentPattern
  pg_secret :: SecretPattern
  pg_allowed_domains :: "DomainScope list"
  pg_lease_terms :: "LeaseTerms option"

record PolicyConfig =
  default_lease_terms :: LeaseTerms
  grants :: "PolicyGrant list"

text \<open>
  \<^verbatim>\<open>from_json\<close> and \<^verbatim>\<open>from_file\<close>: the deserialiser is serde's and the file contents come from
  the file system, so both are arguments; what is modelled is how their errors are wrapped.
\<close>

definition from_json :: "(string \<Rightarrow> string + PolicyConfig) \<Rightarrow> string \<Rightarrow> PolicyConfig result" where
  "from_json serde json =
     (case serde json of
        Inl m \<Rightarrow> Inl (InvalidConfig (''invalid policy JSON: '' @ m))
      | Inr c \<Rightarrow> Inr c)"

definition from_file ::
  "(string \<Rightarrow> string + PolicyConfig) \<Rightarrow> string + string \<Rightarrow> PolicyConfig result" where
  "from_file serde contents =
     (case contents of
        Inl m \<Rightarrow> Inl (InvalidConfig (''failed to read policy file: '' @ m))
      | Inr s \<Rightarrow> from_json serde s)"

datatype PolicyWarning =
    EmptyAgentPrefix nat
  | EmptySecretPrefix nat
  | EmptyDomain nat
  | MalformedWildcard nat string
  | DomainWhitespace nat string

definition domain_warnings :: "nat \<Rightarrow> DomainScope \<Rightarrow> PolicyWarning list" where
  "domain_warnings i d =
     (let ds = domain_str d in
      if ds = [] then [EmptyDomain i]
      else if ds = ''*.'' then [MalformedWildcard i ds]
      else if has_whitespace ds then [DomainWhitespace i ds]
      else [])"

definition grant_warnings :: "nat \<Rightarrow> PolicyGrant \<Rightarrow> PolicyWarning list" where
  "grant_warnings i g =
     (case pg_agent g of AgentPrefix p \<Rightarrow> if p = [] then [EmptyAgentPrefix i] else [] | _ \<Rightarrow> []) @
     (case pg_secret g of SecretPrefix p \<Rightarrow> if p = [] then [EmptySecretPrefix i] else [] | _ \<Rightarrow> []) @
     concat (map (domain_warnings i) (pg_allowed_domains g))"

record PolicyEngine =
  config :: PolicyConfig

definition PolicyEngine_new :: "PolicyConfig \<Rightarrow> PolicyEngine \<times> PolicyWarning list" where
  "PolicyEngine_new c =
     (\<lparr>config = c\<rparr>, concat (map (\<lambda>(i, g). grant_warnings i g) (enumerate 0 (grants c))))"

fun evaluate_grants ::
  "LeaseTerms \<Rightarrow> PolicyGrant list \<Rightarrow> AgentId \<Rightarrow> SecretName \<Rightarrow> DomainScope \<Rightarrow> LeaseTerms result" where
  "evaluate_grants dflt [] agent secret domain = Inl (AccessDenied agent secret domain)"
| "evaluate_grants dflt (g # gs) agent secret domain =
     (if \<not> AgentPattern_matches (pg_agent g) agent then evaluate_grants dflt gs agent secret domain
      else if \<not> SecretPattern_matches (pg_secret g) secret
        then evaluate_grants dflt gs agent secret domain
      else if \<not> list_ex (\<lambda>d. matches d (domain_str domain)) (pg_allowed_domains g)
        then evaluate_grants dflt gs agent secret domain
      else Inr (case pg_lease_terms g of Some t \<Rightarrow> t | None \<Rightarrow> dflt))"

definition evaluate ::
  "PolicyEngine \<Rightarrow> AgentId \<Rightarrow> SecretName \<Rightarrow> DomainScope \<Rightarrow> LeaseTerms result" where
  "evaluate p agent secret domain =
     evaluate_grants (default_lease_terms (config p)) (grants (config p)) agent secret domain"

definition grants_for_agent :: "PolicyEngine \<Rightarrow> AgentId \<Rightarrow> PolicyGrant list" where
  "grants_for_agent p agent =
     filter (\<lambda>g. AgentPattern_matches (pg_agent g) agent) (grants (config p))"

definition reload :: "PolicyEngine \<Rightarrow> PolicyConfig \<Rightarrow> PolicyEngine" where
  "reload p c = p\<lparr>config := c\<rparr>"

section \<open>What a policy allows\<close>

definition grant_covers :: "PolicyGrant \<Rightarrow> AgentId \<Rightarrow> SecretName \<Rightarrow> DomainScope \<Rightarrow> bool" where
  "grant_covers g agent secret domain \<longleftrightarrow>
     AgentPattern_matches (pg_agent g) agent \<and> SecretPattern_matches (pg_secret g) secret \<and>
     (\<exists>d\<in>set (pg_allowed_domains g). matches d (domain_str domain))"

lemma evaluate_grants_find:
  "evaluate_grants t gs a s d =
     (case find (\<lambda>g. grant_covers g a s d) gs of
        None \<Rightarrow> Inl (AccessDenied a s d)
      | Some g \<Rightarrow> Inr (case pg_lease_terms g of Some x \<Rightarrow> x | None \<Rightarrow> t))"
  by (induction gs) (auto simp: grant_covers_def list_ex_iff)

lemma evaluate_denied_iff:
  "(\<exists>e. evaluate p a s d = Inl e) \<longleftrightarrow> (\<forall>g\<in>set (grants (config p)). \<not> grant_covers g a s d)"
  by (auto simp: evaluate_def evaluate_grants_find find_None_iff find_Some_iff split: option.splits)

lemma evaluate_Inl: "evaluate p a s d = Inl e \<Longrightarrow> e = AccessDenied a s d"
  by (auto simp: evaluate_def evaluate_grants_find split: option.splits)

lemma evaluate_Inr_covers:
  "evaluate p a s d = Inr t \<Longrightarrow> \<exists>g\<in>set (grants (config p)). grant_covers g a s d"
  using evaluate_denied_iff [of p a s d] by auto

section \<open>Properties\<close>

text \<open>
  C9: policy evaluation is deny-by-default and first-match: it grants the terms of the
  first grant, in list order, whose agent, secret and domain patterns all match (the
  configured default when that grant has none), and denies exactly when no grant matches.
\<close>

theorem evaluate_first_match:
  "evaluate p a s d = Inr t \<longleftrightarrow>
     (\<exists>before g after. grants (config p) = before @ g # after \<and>
        grant_covers g a s d \<and> (\<forall>b\<in>set before. \<not> grant_covers b a s d) \<and>
        t = (case pg_lease_terms g of Some x \<Rightarrow> x | None \<Rightarrow> default_lease_terms (config p)))"
  (is "?L = ?R")
proof
  assume ?L
  then obtain g where f: "find (\<lambda>g. grant_covers g a s d) (grants (config p)) = Some g"
    and t: "t = (case pg_lease_terms g of Some x \<Rightarrow> x | None \<Rightarrow> default_lease_terms (config p))"
    by (auto simp: evaluate_def evaluate_grants_find split: option.splits)
  from f obtain i where i: "i < length (grants (config p))" "grants (config p) ! i = g"
    "grant_covers g a s d" "\<forall>j<i. \<not> grant_covers (grants (config p) ! j) a s d"
    by (auto simp: find_Some_iff)
  then have "grants (config p) = take i (grants (config p)) @ g # drop (Suc i) (grants (config p))"
    by (metis id_take_nth_drop)
  moreover have "\<forall>b\<in>set (take i (grants (config p))). \<not> grant_covers b a s d"
    using i by (auto simp: in_set_conv_nth)
  ultimately show ?R using i t by blast
next
  assume ?R
  then obtain bs g as where "grants (config p) = bs @ g # as" "grant_covers g a s d"
    "\<forall>b\<in>set bs. \<not> grant_covers b a s d"
    "t = (case pg_lease_terms g of Some x \<Rightarrow> x | None \<Rightarrow> default_lease_terms (config p))"
    by blast
  moreover have "find P (bs @ g # as) = Some g" if "P g" "\<forall>b\<in>set bs. \<not> P b" for P
    using that by (induction bs) auto
  ultimately show ?L by (simp add: evaluate_def evaluate_grants_find)
qed

text \<open>A policy of two grants, of which the second decides.\<close>

definition sample_grants :: "PolicyGrant list" where
  "sample_grants =
     [\<lparr>pg_agent = AgentExact (AgentId ''ops''), pg_secret = SecretAny,
       pg_allowed_domains = [DomainScope ''*.internal''], pg_lease_terms = None\<rparr>,
      \<lparr>pg_agent = AgentPrefix ''ci-'', pg_secret = SecretExact (SecretName ''jira''),
       pg_allowed_domains = [DomainScope ''*.atlassian.net''], pg_lease_terms = Some single_use\<rparr>]"

theorem evaluate_first_match_witness:
  "evaluate \<lparr>config = \<lparr>default_lease_terms = workflow, grants = sample_grants\<rparr>\<rparr>
     (AgentId ''ci-7'') (SecretName ''jira'') (DomainScope ''acme.atlassian.net'') = Inr single_use"
  unfolding evaluate_first_match
  by (rule exI [of _ "[hd sample_grants]"], rule exI [of _ "sample_grants ! 1"], rule exI [of _ "[]"])
    (auto simp: sample_grants_def grant_covers_def matches_iff starts_with_def)

end
