(* ===== verification/Session.thy ===== *)
theory Session
  imports Identity
begin

text \<open>
  Sessions (\<^verbatim>\<open>src/session.rs\<close>): the trust context leases are requested under, its expiry
  and revocation, and the check of a tool's secret and domain bindings.
\<close>

record ToolCredentialBinding =
  tb_tool_name :: string
  tb_allowed_secrets :: "SecretName list"
  tb_allowed_domains :: "DomainScope list"

record SessionPolicy =
  max_session_duration :: time_delta
  max_concurrent_leases :: u32
  max_renewals_per_lease :: u32
  tool_bindings :: "ToolCredentialBinding list"

definition default_dev :: SessionPolicy where
  "default_dev = \<lparr>max_session_duration = seconds 3600, max_concurrent_leases = 10,
     max_renewals_per_lease = 3, tool_bindings = []\<rparr>"

record Session =
  s_id :: SessionId
  s_user :: string
  s_channel :: string
  s_created_at :: date_time
  s_expires_at :: date_time
  s_policy :: SessionPolicy
  s_active_lease_count :: u32
  s_revoked :: bool

definition Session_new :: "string \<Rightarrow> string \<Rightarrow> SessionPolicy \<Rightarrow> env \<Rightarrow> Session \<times> env" where
  "Session_new user channel p e =
     (case utc_now e of (now, e1) \<Rightarrow>
      case SessionId_new e1 of (i, e2) \<Rightarrow>
        (\<lparr>s_id = i, s_user = user, s_channel = channel, s_created_at = now,
          s_expires_at = now + max_session_duration p, s_policy = p,
          s_active_lease_count = 0, s_revoked = False\<rparr>, e2))"

definition is_expired :: "Session \<Rightarrow> env \<Rightarrow> bool \<times> env" where
  "is_expired s e = (case utc_now e of (now, e') \<Rightarrow> (now > s_expires_at s, e'))"

definition is_active :: "Session \<Rightarrow> env \<Rightarrow> bool \<times> env" where
  "is_active s e =
     (if s_revoked s then (False, e)
      else case is_expired s e of (x, e') \<Rightarrow> (\<not> x, e'))"

definition Session_time_remaining :: "Session \<Rightarrow> env \<Rightarrow> time_delta \<times> env" where
  "Session_time_remaining s e = (case utc_now e of (now, e') \<Rightarrow> (s_expires_at s - now, e'))"

definition Session_revoke :: "Session \<Rightarrow> Session" where
  "Session_revoke s = s\<lparr>s_revoked := True\<rparr>"

fun check_bindings ::
  "ToolCredentialBinding list \<Rightarrow> string \<Rightarrow> SecretName \<Rightarrow> DomainScope \<Rightarrow> unit result" where
  "check_bindings [] tool secret domain = Inl (AccessDenied (AgentId tool) secret domain)"
| "check_bindings (b # bs) tool secret domain =
     (if tb_tool_name b \<noteq> tool then check_bindings bs tool secret domain
      else let secret_ok = list_ex (\<lambda>s. s = secret) (tb_allowed_secrets b);
               domain_ok = list_ex (\<lambda>d. matches d (domain_str domain)) (tb_allowed_domains b)
           in if secret_ok \<and> domain_ok then Inr () else check_bindings bs tool secret domain)"

definition check_tool_binding :: "Session \<Rightarrow> string \<Rightarrow> SecretName \<Rightarrow> DomainScope \<Rightarrow> unit result" where
  "check_tool_binding s = check_bindings (tool_bindings (s_policy s))"

section \<open>Lemmas\<close>

definition binding_covers ::
  "ToolCredentialBinding \<Rightarrow> string \<Rightarrow> SecretName \<Rightarrow> DomainScope \<Rightarrow> bool" where
  "binding_covers b tool secret domain \<longleftrightarrow>
     tb_tool_name b = tool \<and> secret \<in> set (tb_allowed_secrets b) \<and>
     (\<exists>d\<in>set (tb_allowed_domains b). matches d (domain_str domain))"

lemma check_bindings_eq:
  "check_bindings bs tool secret domain =
     (if \<exists>b\<in>set bs. binding_covers b tool secret domain then Inr ()
      else Inl (AccessDenied (AgentId tool) secret domain))"
  by (induction bs) (auto simp: binding_covers_def list_ex_iff Let_def)

lemma Session_new_eq:
  "Session_new u c p e =
     (\<lparr>s_id = SessionId (env_uuid e (Suc (env_pos e))), s_user = u, s_channel = c,
       s_created_at = env_clock e (env_pos e),
       s_expires_at = env_clock e (env_pos e) + max_session_duration p, s_policy = p,
       s_active_lease_count = 0, s_revoked = False\<rparr>, env_step (env_step e))"
  by (simp add: Session_new_def utc_now_def SessionId_new_def uuid_now_v7_def)

lemma is_expired_eq: "is_expired s e = (env_clock e (env_pos e) > s_expires_at s, env_step e)"
  by (simp add: is_expired_def utc_now_def)

lemma is_active_iff:
  "fst (is_active s e) \<longleftrightarrow> \<not> s_revoked s \<and> env_clock e (env_pos e) \<le> s_expires_at s"
  by (simp add: is_active_def is_expired_eq not_less)

lemma is_active_env: "env_le e (snd (is_active s e))"
  by (simp add: is_active_def is_expired_eq)

lemma Session_revoke_simps [simp]:
  "s_id (Session_revoke s) = s_id s" "s_revoked (Session_revoke s)"
  "s_policy (Session_revoke s) = s_policy s" "s_expires_at (Session_revoke s) = s_expires_at s"
  "s_active_lease_count (Session_revoke s) = s_active_lease_count s"
  "s_user (Session_revoke s) = s_user s" "s_channel (Session_revoke s) = s_channel s"
  by (simp_all add: Session_revoke_def)

section \<open>Properties\<close>

text \<open>
  A tool may request a secret for a domain under a session exactly when one binding
  of the session's policy names the tool, lists the secret and has a matching domain; all
  other requests, in particular every request of a session without bindings, are denied
  with the tool's name as the agent of the error.
\<close>

theorem check_tool_binding_iff:
  "check_tool_binding s tool secret domain =
     (if \<exists>b\<in>set (tool_bindings (s_policy s)).
           tb_tool_name b = tool \<and> secret \<in> set (tb_allowed_secrets b) \<and>
           (\<exists>d\<in>set (tb_allowed_domains b). matches d (domain_str domain))
      then Inr () else Inl (AccessDenied (AgentId tool) secret domain))"
  by (simp add: check_tool_binding_def check_bindings_eq binding_covers_def)

end
