(* ===== verification/KeySource.thy ===== *)
theory KeySource
  imports Crypto
begin

text \<open>
  Key sources (\<^verbatim>\<open>src/keysource\<close>): the interface through which the vault obtains and
  rotates the data encryption key, its contract as a locale, and its three providers, the
  environment variable (\<^verbatim>\<open>env.rs\<close>), the OS keychain (\<^verbatim>\<open>keychain.rs\<close>) and AWS KMS
  (\<^verbatim>\<open>kms.rs\<close>). The process environment, the keychain and the KMS service are external:
  they are the state a provider works on, or arguments of its definitions.
\<close>

record EncryptedDek =
  ed_ciphertext :: bytes
  ed_key_id :: string

record 'k KeySource =
  load_or_create_dek :: "('k \<times> env, Error, DataEncryptionKey) op"
  rotate_key :: "DataEncryptionKey \<Rightarrow> ('k \<times> env, Error, EncryptedDek) op"
  ks_description :: string

text \<open>
  The contract. \<open>holds k d\<close>: whatever load succeeds from state \<open>k\<close> returns \<open>d\<close>. A
  load returns a 32-byte key which the source then holds, so that a restart finds the
  same key; a successful rotation makes the source hold the new key.
\<close>

locale key_source =
  fixes ks :: "'k KeySource"
    and holds :: "'k \<Rightarrow> DataEncryptionKey \<Rightarrow> bool"
    and inv :: "'k \<Rightarrow> bool"
  assumes load_inv: "inv k \<Longrightarrow> load_or_create_dek ks (k, e) = (r, k', e') \<Longrightarrow> inv k' \<and> env_le e e'"
    and load_ok: "inv k \<Longrightarrow> load_or_create_dek ks (k, e) = (Inr d, k', e') \<Longrightarrow>
      length (dek_bytes d) = 32 \<and> holds k' d"
    and load_held: "inv k \<Longrightarrow> holds k d \<Longrightarrow> load_or_create_dek ks (k, e) = (r, k', e') \<Longrightarrow>
      k' = k \<and> (\<forall>d'. r = Inr d' \<longrightarrow> d' = d)"
    and rotate_inv: "inv k \<Longrightarrow> rotate_key ks d (k, e) = (rx, k', e') \<Longrightarrow> inv k' \<and> env_le e e'"
    and rotate_ok: "inv k \<Longrightarrow> length (dek_bytes d) = 32 \<Longrightarrow>
      rotate_key ks d (k, e) = (Inr x, k', e') \<Longrightarrow> holds k' d"
begin

text \<open>Two starts in a row use the same key.\<close>

lemma load_again:
  assumes "inv k" and "load_or_create_dek ks (k, e) = (Inr d, k1, e1)"
    and "load_or_create_dek ks (k1, e2) = (Inr d', k2, e3)"
  shows "d' = d"
  using load_inv [OF assms(1,2)] load_ok [OF assms(1,2)] load_held [OF _ _ assms(3)] by blast

lemma load_after_rotate:
  assumes "inv k" and "length (dek_bytes d) = 32" and "rotate_key ks d (k, e) = (Inr x, k1, e1)"
    and "load_or_create_dek ks (k1, e2) = (Inr d', k2, e3)"
  shows "d' = d"
  using rotate_inv [OF assms(1,3)] rotate_ok [OF assms(1-3)] load_held [OF _ _ assms(4)] by blast

end

section \<open>Environment variable\<close>

definition hex_value :: "char \<Rightarrow> nat option" where
  "hex_value c =
     (let n = of_char c in
      if 48 \<le> n \<and> n \<le> 57 then Some (n - 48)
      else if 97 \<le> n \<and> n \<le> 102 then Some (n - 87)
      else if 65 \<le> n \<and> n \<le> 70 then Some (n - 55)
      else None)"

text \<open>
  \<^verbatim>\<open>u8::from_str_radix(s, 16)\<close> on a two-byte slice: a leading plus sign is accepted when
  a digit follows.
\<close>

definition from_str_radix16 :: "string \<Rightarrow> u8 option" where
  "from_str_radix16 s =
     (case s of
        [a, b] \<Rightarrow>
          (if a = CHR ''+'' then map_option word_of_nat (hex_value b)
           else case (hex_value a, hex_value b) of
             (Some x, Some y) \<Rightarrow> Some (word_of_nat (16 * x + y))
           | _ \<Rightarrow> None)
      | _ \<Rightarrow> None)"

text \<open>\<^verbatim>\<open>str::is_char_boundary\<close>: slicing a string elsewhere panics.\<close>

definition is_char_boundary :: "string \<Rightarrow> nat \<Rightarrow> bool" where
  "is_char_boundary s i \<longleftrightarrow>
     i = 0 \<or> i = length s \<or>
     (i < length s \<and> (let n = (of_char (s ! i) :: nat) in n < 128 \<or> 192 \<le> n))"

definition str_slice :: "string \<Rightarrow> nat \<Rightarrow> nat \<Rightarrow> string outcome" where
  "str_slice s a b =
     (if a \<le> b \<and> is_char_boundary s a \<and> is_char_boundary s b
      then Done (take (b - a) (drop a s)) else Panic)"

fun decode_hex_loop :: "string \<Rightarrow> string \<Rightarrow> nat list \<Rightarrow> bytes \<Rightarrow> bytes result outcome" where
  "decode_hex_loop hex var [] acc = Done (Inr acc)"
| "decode_hex_loop hex var (i # is) acc =
     (case str_slice hex (i * 2) (i * 2 + 2) of
        Panic \<Rightarrow> Panic
      | Done s \<Rightarrow>
         (case from_str_radix16 s of
            None \<Rightarrow> Done (Inl (InvalidConfig (''env var '' @ var @ '' is not valid hex'')))
          | Some b \<Rightarrow> decode_hex_loop hex var is (acc @ [b])))"

definition decode_hex_32 :: "string \<Rightarrow> string \<Rightarrow> bytes result outcome" where
  "decode_hex_32 hex var =
     (if length hex \<noteq> 64
      then Done (Inl (InvalidConfig (''env var '' @ var @
        '' must be 64 hex characters (32 bytes), got '' @ show_nat (length hex))))
      else decode_hex_loop hex var [0..<32] [])"

text \<open>
  The source's state is the process environment. A panic of the decoder is no error value
  of the code; the operation reports it as an unavailable source, which the contract's
  invariant (the variable holds ASCII text) rules out.
\<close>

definition env_load :: "string \<Rightarrow> ((string \<Rightarrow> string option) \<times> env, Error, DataEncryptionKey) op" where
  "env_load var_name = (\<lambda>(penv, e).
     (case penv var_name of
        None \<Rightarrow> Inl (KeySourceUnavailable (''env var '' @ var_name @ '' not set''))
      | Some hex \<Rightarrow>
         (case decode_hex_32 hex var_name of
            Done (Inl er) \<Rightarrow> Inl er
          | Done (Inr bs) \<Rightarrow> Inr (DEK bs)
          | Panic \<Rightarrow> Inl (KeySourceUnavailable ''panic'')), penv, e))"

definition EnvVarSource :: "string \<Rightarrow> (string \<Rightarrow> string option) KeySource" where
  "EnvVarSource var_name =
     \<lparr>load_or_create_dek = env_load var_name,
      rotate_key = (\<lambda>_. fail (KeySourceUnavailable
        ''cannot rotate an env-var key source; set a new value and restart'')),
      ks_description = ''env:'' @ var_name\<rparr>"

definition is_ascii :: "string \<Rightarrow> bool" where
  "is_ascii s \<longleftrightarrow> (\<forall>c\<in>set s. (of_char c :: nat) < 128)"

definition env_inv :: "string \<Rightarrow> (string \<Rightarrow> string option) \<Rightarrow> bool" where
  "env_inv var_name penv \<longleftrightarrow> (\<forall>s. penv var_name = Some s \<longrightarrow> is_ascii s)"

definition env_holds :: "string \<Rightarrow> (string \<Rightarrow> string option) \<Rightarrow> DataEncryptionKey \<Rightarrow> bool" where
  "env_holds var_name penv d \<longleftrightarrow>
     (\<exists>s. penv var_name = Some s \<and> decode_hex_32 s var_name = Done (Inr (dek_bytes d)))"

lemma decode_hex_loop_length:
  "decode_hex_loop hex var is acc = Done (Inr bs) \<Longrightarrow> length bs = length acc + length is"
  by (induction "is" arbitrary: acc) (auto split: outcome.splits option.splits)

lemma decode_hex_32_length: "decode_hex_32 hex var = Done (Inr bs) \<Longrightarrow> length bs = 32"
  using decode_hex_loop_length [of hex var "[0..<32]" "[]" bs]
  by (simp add: decode_hex_32_def split: if_splits)

interpretation env_var: key_source "EnvVarSource v" "env_holds v" "env_inv v" for v
  by unfold_locales
    (auto simp: EnvVarSource_def env_load_def env_holds_def env_inv_def
      split: option.splits outcome.splits sum.splits dest: decode_hex_32_length)

lemma str_slice_ascii:
  "is_ascii s \<Longrightarrow> a \<le> b \<Longrightarrow> b \<le> length s \<Longrightarrow> str_slice s a b = Done (take (b - a) (drop a s))"
  by (auto simp: str_slice_def is_char_boundary_def is_ascii_def Let_def)

lemma decode_hex_loop_no_panic:
  "is_ascii hex \<Longrightarrow> \<forall>i\<in>set is. i * 2 + 2 \<le> length hex \<Longrightarrow> decode_hex_loop hex var is acc \<noteq> Panic"
  by (induction "is" arbitrary: acc) (auto simp: str_slice_ascii split: option.splits)

lemma decode_hex_32_no_panic: "is_ascii hex \<Longrightarrow> decode_hex_32 hex var \<noteq> Panic"
  using decode_hex_loop_no_panic [of hex "[0..<32]" var "[]"] by (simp add: decode_hex_32_def)

section \<open>OS keychain\<close>

text \<open>
  The \<^verbatim>\<open>keyring\<close> crate: opening an entry and writing it may fail with a message, reading
  it gives the secret, no entry, or another error.
\<close>

datatype keyring_read = KrSecret bytes | KrNoEntry | KrError string

record 'k keyring =
  kr_open :: "string \<Rightarrow> string \<Rightarrow> 'k \<Rightarrow> nat \<Rightarrow> string option"
  kr_get :: "string \<Rightarrow> string \<Rightarrow> 'k \<Rightarrow> nat \<Rightarrow> keyring_read"
  kr_set :: "string \<Rightarrow> string \<Rightarrow> bytes \<Rightarrow> 'k \<Rightarrow> nat \<Rightarrow> string option \<times> 'k"

definition load_or_create_blocking ::
  "'k keyring \<Rightarrow> string \<Rightarrow> string \<Rightarrow> ('k \<times> env, Error, DataEncryptionKey) op" where
  "load_or_create_blocking kr service account = (\<lambda>(k, e).
     (case kr_open kr service account k (env_pos e) of
        Some m \<Rightarrow> (Inl (KeySourceUnavailable (''keychain entry error: '' @ m)), k, e)
      | None \<Rightarrow>
         (case kr_get kr service account k (env_pos e) of
            KrSecret bs \<Rightarrow>
              if length bs \<noteq> 32
              then (Inl (InvalidConfig
                (''keychain entry has wrong key length (expected 32 bytes, got '' @
                 show_nat (length ([] :: bytes)) @ '')'')), k, e)
              else (Inr (DEK bs), k, e)
          | KrNoEntry \<Rightarrow>
             (case fill_bytes 32 e of (key_bytes, e1) \<Rightarrow>
              case kr_set kr service account key_bytes k (env_pos e1) of (failed, k1) \<Rightarrow>
                (case failed of
                   Some m \<Rightarrow> (Inl (KeySourceUnavailable
                     (''failed to store DEK in keychain: '' @ m)), k1, e1)
                 | None \<Rightarrow> (Inr (DEK key_bytes), k1, e1)))
          | KrError m \<Rightarrow> (Inl (KeySourceUnavailable (''keychain error: '' @ m)), k, e))))"

definition KeychainSource :: "'k keyring \<Rightarrow> string \<Rightarrow> string \<Rightarrow> 'k KeySource" where
  "KeychainSource kr service account =
     \<lparr>load_or_create_dek = load_or_create_blocking kr service account,
      rotate_key = (\<lambda>_. fail (KeySourceUnavailable
        ''DEK rotation not yet supported for keychain source'')),
      ks_description = ''keychain:'' @ service @ ''/'' @ account\<rparr>"

text \<open>What is asked of a keyring: after a successful write a read gives the secret or an error.\<close>

definition keyring_holds :: "'k keyring \<Rightarrow> string \<Rightarrow> string \<Rightarrow> 'k \<Rightarrow> DataEncryptionKey \<Rightarrow> bool" where
  "keyring_holds kr service account k d \<longleftrightarrow>
     (\<forall>i. kr_get kr service account k i = KrSecret (dek_bytes d) \<or>
          (\<exists>m. kr_get kr service account k i = KrError m))"

definition keyring_correct :: "'k keyring \<Rightarrow> bool" where
  "keyring_correct kr \<longleftrightarrow>
     (\<forall>service account bs k i k'. kr_set kr service account bs k i = (None, k') \<longrightarrow>
        keyring_holds kr service account k' (DEK bs)) \<and>
     (\<forall>service account bs k i. kr_get kr service account k i = KrSecret bs \<longrightarrow>
        keyring_holds kr service account k (DEK bs))"

lemma keyring_set_holds:
  "keyring_correct kr \<Longrightarrow> kr_set kr s a bs k i = (None, k') \<Longrightarrow> keyring_holds kr s a k' (DEK bs)"
  by (simp add: keyring_correct_def)

lemma keyring_get_holds:
  "keyring_correct kr \<Longrightarrow> kr_get kr s a k i = KrSecret bs \<Longrightarrow> keyring_holds kr s a k (DEK bs)"
  unfolding keyring_correct_def by blast

interpretation keychain: key_source "KeychainSource kr s a"
  "keyring_holds kr s a" "\<lambda>_. keyring_correct kr" for kr s a
proof unfold_locales
  fix k e r k' e' d
  let ?run = "load_or_create_dek (KeychainSource kr s a) (k, e)"
  note defs = KeychainSource_def load_or_create_blocking_def fill_bytes_def
  show "keyring_correct kr \<and> env_le e e'" if "keyring_correct kr" "?run = (r, k', e')"
    using that by (auto simp: defs split: option.splits keyring_read.splits if_splits prod.splits)
  show "length (dek_bytes d) = 32 \<and> keyring_holds kr s a k' d"
    if c: "keyring_correct kr" and "?run = (Inr d, k', e')"
    using that by (auto simp: defs intro: keyring_set_holds keyring_get_holds
        split: option.splits keyring_read.splits if_splits prod.splits)
  show "k' = k \<and> (\<forall>d'. r = Inr d' \<longrightarrow> d' = d)"
    if "keyring_correct kr" "keyring_holds kr s a k d" "?run = (r, k', e')"
    using that(2) [unfolded keyring_holds_def, rule_format, of "env_pos e"] that(3)
    by (auto simp: defs split: option.splits keyring_read.splits if_splits)
qed (auto simp: KeychainSource_def)

section \<open>AWS KMS\<close>

text \<open>
  The KMS client returns an error message or an optional blob, depending on when it is
  called; \<open>fs_torn\<close> is what a failed write leaves in the blob file. The state is the
  file's contents, absent or present.
\<close>

record kms_api =
  kms_encrypt :: "string \<Rightarrow> bytes \<Rightarrow> nat \<Rightarrow> string + bytes option"
  kms_decrypt :: "string \<Rightarrow> bytes \<Rightarrow> nat \<Rightarrow> string + bytes option"
  fs_torn :: "bytes option \<Rightarrow> bytes \<Rightarrow> nat \<Rightarrow> bytes option"

record KmsSource =
  kms_key_id :: string
  encrypted_dek_path :: string
  path_has_parent :: bool

definition write_file ::
  "kms_api \<Rightarrow> (string \<Rightarrow> Error) \<Rightarrow> bytes \<Rightarrow> (bytes option \<times> env, Error, unit) op" where
  "write_file api err contents = (\<lambda>(file, e).
     case io_fault e of
       (Some m, e') \<Rightarrow> (Inl (err m), fs_torn api file contents (env_pos e), e')
     | (None, e') \<Rightarrow> (Inr (), Some contents, e'))"

definition kms_call :: "(nat \<Rightarrow> string + bytes option) \<Rightarrow> (string \<Rightarrow> Error) \<Rightarrow> Error \<Rightarrow>
    ('x \<times> env, Error, bytes) op" where
  "kms_call f err none = (\<lambda>(x, e).
     ((case f (env_pos e) of
         Inl m \<Rightarrow> Inl (err m)
       | Inr None \<Rightarrow> Inl none
       | Inr (Some b) \<Rightarrow> Inr b), x, env_step e))"

definition kms_load_existing ::
  "kms_api \<Rightarrow> KmsSource \<Rightarrow> bytes \<Rightarrow> (bytes option \<times> env, Error, DataEncryptionKey) op" where
  "kms_load_existing api self ciphertext =
     try_op (io_guard (\<lambda>m. KeySourceUnavailable
       (''failed to read encrypted DEK from '' @ encrypted_dek_path self @ '': '' @ m))) (\<lambda>_.
     try_op (kms_call (kms_decrypt api (kms_key_id self) ciphertext)
       (\<lambda>m. KeySourceUnavailable (''KMS decrypt failed: '' @ m))
       (KeySourceUnavailable ''KMS decrypt returned no plaintext'')) (\<lambda>bs.
     if length bs \<noteq> 32
     then fail (InvalidConfig (''KMS decrypted DEK has wrong length (expected 32 bytes, got '' @
       show_nat (length bs) @ '')''))
     else ok (DEK bs)))"

definition kms_create ::
  "kms_api \<Rightarrow> KmsSource \<Rightarrow> (bytes option \<times> env, Error, DataEncryptionKey) op" where
  "kms_create api self =
     let_op (\<lambda>(file, e). case fill_bytes 32 e of (b, e') \<Rightarrow> (b, file, e')) (\<lambda>key_bytes.
     try_op (kms_call (kms_encrypt api (kms_key_id self) key_bytes)
       (\<lambda>m. KeySourceUnavailable (''KMS encrypt failed: '' @ m))
       (KeySourceUnavailable ''KMS encrypt returned no ciphertext'')) (\<lambda>ciphertext.
     try_op (if path_has_parent self
             then io_guard (\<lambda>m. KeySourceUnavailable
               (''failed to create directory for DEK blob: '' @ m))
             else ok ()) (\<lambda>_.
     try_op (write_file api (\<lambda>m. KeySourceUnavailable
       (''failed to write encrypted DEK to '' @ encrypted_dek_path self @ '': '' @ m)) ciphertext) (\<lambda>_.
     ok (DEK key_bytes)))))"

definition kms_load :: "kms_api \<Rightarrow> KmsSource \<Rightarrow> (bytes option \<times> env, Error, DataEncryptionKey) op" where
  "kms_load api self = (\<lambda>(file, e).
     case file of
       Some ciphertext \<Rightarrow> kms_load_existing api self ciphertext (file, e)
     | None \<Rightarrow> kms_create api self (file, e))"

definition kms_rotate ::
  "kms_api \<Rightarrow> KmsSource \<Rightarrow> DataEncryptionKey \<Rightarrow> (bytes option \<times> env, Error, EncryptedDek) op" where
  "kms_rotate api self new_dek =
     try_op (kms_call (kms_encrypt api (kms_key_id self) (dek_bytes new_dek))
       (\<lambda>m. KeySourceUnavailable (''KMS encrypt failed during rotation: '' @ m))
       (KeySourceUnavailable ''KMS encrypt returned no ciphertext during rotation'')) (\<lambda>ciphertext.
     try_op (write_file api (\<lambda>m. KeySourceUnavailable
       (''failed to write rotated DEK to '' @ encrypted_dek_path self @ '': '' @ m)) ciphertext) (\<lambda>_.
     ok \<lparr>ed_ciphertext = ciphertext, ed_key_id = kms_key_id self\<rparr>))"

definition KmsKeySource :: "kms_api \<Rightarrow> KmsSource \<Rightarrow> bytes option KeySource" where
  "KmsKeySource api self =
     \<lparr>load_or_create_dek = kms_load api self, rotate_key = kms_rotate api self,
      ks_description = ''kms:'' @ kms_key_id self\<rparr>"

text \<open>What is asked of KMS: a blob it made decrypts, if at all, to what was encrypted, and
  always to the same text.\<close>

definition kms_correct :: "kms_api \<Rightarrow> bool" where
  "kms_correct api \<longleftrightarrow>
     (\<forall>key p i c j q. kms_encrypt api key p i = Inr (Some c) \<longrightarrow>
        kms_decrypt api key c j = Inr (Some q) \<longrightarrow> q = p) \<and>
     (\<forall>key c i j p q. kms_decrypt api key c i = Inr (Some p) \<longrightarrow>
        kms_decrypt api key c j = Inr (Some q) \<longrightarrow> q = p)"

definition kms_holds :: "kms_api \<Rightarrow> KmsSource \<Rightarrow> bytes option \<Rightarrow> DataEncryptionKey \<Rightarrow> bool" where
  "kms_holds api self file d \<longleftrightarrow>
     (\<exists>c. file = Some c \<and> (\<forall>j q. kms_decrypt api (kms_key_id self) c j = Inr (Some q) \<longrightarrow> q = dek_bytes d))"

lemma kms_encrypt_decrypt:
  "kms_correct api \<Longrightarrow> kms_encrypt api key p i = Inr (Some c) \<Longrightarrow>
    kms_decrypt api key c j = Inr (Some q) \<Longrightarrow> q = p"
  unfolding kms_correct_def by blast

lemma kms_decrypt_same:
  "kms_correct api \<Longrightarrow> kms_decrypt api key c i = Inr (Some p) \<Longrightarrow>
    kms_decrypt api key c j = Inr (Some q) \<Longrightarrow> q = p"
  unfolding kms_correct_def by blast

lemmas kms_defs = KmsKeySource_def kms_load_def kms_load_existing_def kms_create_def kms_rotate_def
  kms_call_def io_guard_def write_file_def op_defs io_fault_def case_prod_beta

lemma kms_load_existing_ok:
  "kms_load_existing api self c (f, e) = (Inr d, f', e') \<Longrightarrow>
     f' = f \<and> length (dek_bytes d) = 32 \<and> (\<exists>j. kms_decrypt api (kms_key_id self) c j = Inr (Some (dek_bytes d)))"
  by (auto simp: kms_defs split: option.splits sum.splits if_splits)

lemma kms_load_existing_env: "env_le e (snd (snd (kms_load_existing api self c (f, e))))"
  by (auto simp: kms_defs env_le_def split: option.splits sum.splits if_splits)

lemma kms_load_existing_file: "fst (snd (kms_load_existing api self c (f, e))) = f"
  by (auto simp: kms_defs split: option.splits sum.splits if_splits)

lemma kms_create_ok:
  "kms_create api self (f, e) = (Inr d, f', e') \<Longrightarrow>
     length (dek_bytes d) = 32 \<and>
     (\<exists>c i. f' = Some c \<and> kms_encrypt api (kms_key_id self) (dek_bytes d) i = Inr (Some c))"
  by (auto simp: kms_defs split: option.splits sum.splits if_splits)

lemma kms_create_env: "env_le e (snd (snd (kms_create api self (f, e))))"
  by (auto simp: kms_defs env_le_def split: option.splits sum.splits if_splits)

lemma kms_rotate_ok:
  "kms_rotate api self d (f, e) = (Inr x, f', e') \<Longrightarrow>
     (\<exists>c i. f' = Some c \<and> kms_encrypt api (kms_key_id self) (dek_bytes d) i = Inr (Some c))"
  by (auto simp: kms_defs split: option.splits sum.splits if_splits)

lemma kms_rotate_env: "env_le e (snd (snd (kms_rotate api self d (f, e))))"
  by (auto simp: kms_defs env_le_def split: option.splits sum.splits if_splits)

interpretation kms: key_source "KmsKeySource api self" "kms_holds api self" "\<lambda>_. kms_correct api" for api self
proof unfold_locales
  fix k e r k' e' d x rx
  note d = KmsKeySource_def kms_load_def
  let ?load = "load_or_create_dek (KmsKeySource api self) (k, e)"
  let ?rot = "rotate_key (KmsKeySource api self) d (k, e)"
  assume c: "kms_correct api"
  show "kms_correct api \<and> env_le e e'" if "?load = (r, k', e')"
    using that c kms_load_existing_env [of e api self _ k] kms_create_env [of e api self k]
    by (auto simp: d split: option.splits) (metis snd_conv)+
  show "length (dek_bytes d) = 32 \<and> kms_holds api self k' d" if run: "?load = (Inr d, k', e')"
  proof (cases k)
    case None
    then have "kms_create api self (None, e) = (Inr d, k', e')" using run by (simp add: d)
    from kms_create_ok [OF this] show ?thesis using kms_encrypt_decrypt [OF c] unfolding kms_holds_def by blast
  next
    case (Some ct)
    then have "kms_load_existing api self ct (Some ct, e) = (Inr d, k', e')" using run by (simp add: d)
    from kms_load_existing_ok [OF this] show ?thesis
      using kms_decrypt_same [OF c] unfolding kms_holds_def by auto
  qed
  show "k' = k \<and> (\<forall>d'. r = Inr d' \<longrightarrow> d' = d)"
    if h: "kms_holds api self k d" and run: "?load = (r, k', e')"
  proof -
    from h obtain ct where ct: "k = Some ct"
      "\<And>j q. kms_decrypt api (kms_key_id self) ct j = Inr (Some q) \<Longrightarrow> q = dek_bytes d"
      by (auto simp: kms_holds_def)
    then have run': "kms_load_existing api self ct (k, e) = (r, k', e')" using run by (simp add: d)
    have "k' = k" using kms_load_existing_file [of api self ct k e] run' by simp
    moreover have "d' = d" if "r = Inr d'" for d'
      using kms_load_existing_ok [of api self ct k e d'] run' that ct(2) by (auto intro: DataEncryptionKey.expand)
    ultimately show ?thesis by blast
  qed
  show "kms_correct api \<and> env_le e e'" if "?rot = (rx, k', e')"
    using that c kms_rotate_env [of e api self d k] by (simp add: KmsKeySource_def)
  show "kms_holds api self k' d" if "length (dek_bytes d) = 32" "?rot = (Inr x, k', e')"
    using that kms_rotate_ok [of api self d k e x k' e'] kms_encrypt_decrypt [OF c]
    by (auto simp: KmsKeySource_def kms_holds_def)
qed

section \<open>Configuration\<close>

text \<open>
  \<^verbatim>\<open>KeySourceConfig::build\<close>: the boxed source is represented by the provider chosen and
  its fields. Whether the platform is Unix and whether the \<^verbatim>\<open>kms\<close> feature is compiled in
  are the conditions of the \<^verbatim>\<open>cfg\<close> attributes. \<open>parent\<close> says whether a path has a parent.
\<close>

datatype KeySourceConfig =
    CfgKeychain string string
  | CfgAwsKms string string string
  | CfgEnvVar string

datatype built_source = BuiltEnv string | BuiltKeychain string string | BuiltKms KmsSource

definition KmsSource_new :: "(string \<Rightarrow> bool) \<Rightarrow> string \<Rightarrow> string \<Rightarrow> KmsSource" where
  "KmsSource_new parent key_id path =
     \<lparr>kms_key_id = key_id, encrypted_dek_path = path, path_has_parent = parent path\<rparr>"

fun build :: "bool \<Rightarrow> bool \<Rightarrow> (string \<Rightarrow> bool) \<Rightarrow> KeySourceConfig \<Rightarrow> built_source result" where
  "build unix kms_feature parent (CfgEnvVar var_name) = Inr (BuiltEnv var_name)"
| "build unix kms_feature parent (CfgKeychain service account) =
     (if unix then Inr (BuiltKeychain service account)
      else Inl (InvalidConfig ''keychain key source is only available on Unix platforms''))"
| "build unix kms_feature parent (CfgAwsKms key_id region path) =
     (if kms_feature then Inr (BuiltKms (KmsSource_new parent key_id path))
      else Inl (InvalidConfig (''KMS key source requires the '' @ CHR 0x27 # ''kms'' @ CHR 0x27 #
        '' feature to be enabled'')))"

section \<open>Properties\<close>

definition encode_hex :: "bytes \<Rightarrow> string" where
  "encode_hex bs = concat (map hex_byte bs)"

lemma hex_value_digit: "n < 16 \<Longrightarrow> hex_value (hex_digit n) = Some n"
  by (auto simp: hex_value_def hex_digit_def Let_def)

lemma hex_digit_not_plus: "n < 16 \<Longrightarrow> hex_digit n \<noteq> CHR ''+''"
  using hex_value_digit [of n] by (auto simp: hex_value_def Let_def)

lemma from_str_radix16_hex_byte: "from_str_radix16 (hex_byte b) = Some b"
proof -
  have "unat b < 256" using unsigned_less [of b] by simp
  then have "unat b div 16 < 16" "unat b mod 16 < 16" by auto
  then show ?thesis
    by (simp add: from_str_radix16_def hex_byte_def hex_value_digit hex_digit_not_plus)
qed

lemma hex_byte_ascii: "is_ascii (hex_byte b)"
proof -
  have "unat b < 256" using unsigned_less [of b] by simp
  then show ?thesis by (auto simp: is_ascii_def hex_byte_def hex_digit_def)
qed

lemma encode_hex_ascii: "is_ascii (encode_hex bs)"
  using hex_byte_ascii by (auto simp: is_ascii_def encode_hex_def)

lemma length_encode_hex [simp]: "length (encode_hex bs) = 2 * length bs"
  by (induction bs) (simp_all add: encode_hex_def hex_byte_def)

lemma encode_hex_slice:
  "i < length bs \<Longrightarrow> take 2 (drop (i * 2) (encode_hex bs)) = hex_byte (bs ! i)"
proof (induction bs arbitrary: i)
  case (Cons b bs)
  then show ?case by (cases i) (auto simp: encode_hex_def hex_byte_def)
qed simp

lemma decode_hex_loop_encode:
  "i + n \<le> length bs \<Longrightarrow>
    decode_hex_loop (encode_hex bs) var [i..<i + n] acc = Done (Inr (acc @ take n (drop i bs)))"
proof (induction n arbitrary: i acc)
  case (Suc n)
  have sl: "str_slice (encode_hex bs) (i * 2) (i * 2 + 2) = Done (hex_byte (bs ! i))"
    using Suc.prems by (simp add: str_slice_ascii encode_hex_ascii encode_hex_slice)
  have up: "[i..<i + Suc n] = i # [Suc i..<Suc i + n]" by (simp add: upt_rec)
  have dr: "take (Suc n) (drop i bs) = bs ! i # take n (drop (Suc i) bs)"
    using Suc.prems by (simp add: Cons_nth_drop_Suc [symmetric])
  have "decode_hex_loop (encode_hex bs) var (i # [Suc i..<Suc i + n]) acc =
      decode_hex_loop (encode_hex bs) var [Suc i..<Suc i + n] (acc @ [bs ! i])"
    by (simp only: decode_hex_loop.simps sl outcome.case from_str_radix16_hex_byte option.case)
  then show ?case unfolding up dr using Suc.IH [of "Suc i" "acc @ [bs ! i]"] Suc.prems by simp
qed simp

text \<open>
  The environment key source reads back a hex-encoded 32-byte key: decoding the 64
  digits gives the key, text of another length is a configuration error, and on ASCII
  text the decoder never panics.
\<close>

theorem decode_hex_roundtrip:
  assumes "length key = 32"
  shows "decode_hex_32 (encode_hex key) var = Done (Inr key) \<and>
    (is_ascii hex \<longrightarrow> (\<exists>r. decode_hex_32 hex var = Done r \<and> (length hex \<noteq> 64 \<longrightarrow> (\<exists>m. r = Inl (InvalidConfig m)))))"
proof
  show "decode_hex_32 (encode_hex key) var = Done (Inr key)"
    using decode_hex_loop_encode [of 0 32 key var "[]"] assms by (simp add: decode_hex_32_def)
  show "is_ascii hex \<longrightarrow> (\<exists>r. decode_hex_32 hex var = Done r \<and> (length hex \<noteq> 64 \<longrightarrow> (\<exists>m. r = Inl (InvalidConfig m))))"
    using decode_hex_32_no_panic [of hex var] by (cases "decode_hex_32 hex var") (auto simp: decode_hex_32_def)
qed

theorem decode_hex_roundtrip_witness:
  "decode_hex_32 (encode_hex (replicate 31 0 @ [255])) ''KEY'' = Done (Inr (replicate 31 0 @ [255])) \<and>
   (\<exists>m. decode_hex_32 ''c0ffee'' ''KEY'' = Done (Inl (InvalidConfig m)))"
  using decode_hex_roundtrip [of "replicate 31 0 @ [255]" "''KEY''" "''c0ffee''"]
  by (auto simp: is_ascii_def)

end
