(* ===== verification/Vault.thy ===== *)
theory Vault
  imports Lease Policy Session Store Audit_Log KeySource
begin

text \<open>
  The vault (\<^verbatim>\<open>src/vault.rs\<close>): its state, the helpers that encrypt, decrypt and record,
  and every public operation, each as an operation on the state that returns a value or
  an error. The maps behind the read-write locks are association lists; an operation is a
  run without interleaving. The three backends and the AEAD and UUID crates are gathered
  in a record \<open>backends\<close>. \<open>v_traced\<close> collects the audit events sent to the
  \<^verbatim>\<open>tracing\<close> facade; the vault's other log lines are not modelled.
\<close>

record ('k, 's, 'a) backends =
  be_keys :: "'k KeySource"
  be_store :: "'s SecretStore"
  be_audit :: "'a AuditLog"
  be_aead :: aead
  be_us :: "uuid \<Rightarrow> string"

record ('k, 's, 'a) vault =
  v_key_source :: 'k
  v_store :: 's
  v_audit :: 'a
  v_policy :: PolicyEngine
  v_leases :: "(LeaseId \<times> Lease) list"
  v_sessions :: "(SessionToken \<times> Session) list"
  v_dek :: "DataEncryptionKey option"
  v_cipher :: Cipher
  v_max_leases_per_agent :: nat
  v_env :: env
  v_traced :: "AuditEntry list"

section \<open>Running a component's operation inside the vault\<close>

definition on_env :: "(env \<Rightarrow> 'x \<times> env) \<Rightarrow> ('k, 's, 'a) vault \<Rightarrow> 'x \<times> ('k, 's, 'a) vault" where
  "on_env f v = (case f (v_env v) of (x, e) \<Rightarrow> (x, v\<lparr>v_env := e\<rparr>))"

definition store_op ::
  "('s \<times> env, Error, 'x) op \<Rightarrow> (('k, 's, 'a) vault, Error, 'x) op" where
  "store_op m v = (case m (v_store v, v_env v) of (r, s, e) \<Rightarrow> (r, v\<lparr>v_store := s, v_env := e\<rparr>))"

definition key_op ::
  "('k \<times> env, Error, 'x) op \<Rightarrow> (('k, 's, 'a) vault, Error, 'x) op" where
  "key_op m v = (case m (v_key_source v, v_env v) of (r, k, e) \<Rightarrow> (r, v\<lparr>v_key_source := k, v_env := e\<rparr>))"

definition reads :: "(('k, 's, 'a) vault \<Rightarrow> 'x) \<Rightarrow> (('k, 's, 'a) vault, Error, 'x) op" where
  "reads f v = (Inr (f v), v)"

definition modifies ::
  "(('k, 's, 'a) vault \<Rightarrow> ('k, 's, 'a) vault) \<Rightarrow> (('k, 's, 'a) vault, Error, unit) op" where
  "modifies f v = (Inr (), f v)"

section \<open>Construction\<close>

definition DEFAULT_MAX_LEASES_PER_AGENT :: nat where
  "DEFAULT_MAX_LEASES_PER_AGENT = 100"

definition Vault_new ::
  "'k \<Rightarrow> 's \<Rightarrow> 'a \<Rightarrow> PolicyEngine \<Rightarrow> CipherAlgorithm \<Rightarrow> env \<Rightarrow> ('k, 's, 'a) vault" where
  "Vault_new keys store audit p alg e =
     \<lparr>v_key_source = keys, v_store = store, v_audit = audit, v_policy = p,
      v_leases = [], v_sessions = [], v_dek = None, v_cipher = \<lparr>default_algorithm = alg\<rparr>,
      v_max_leases_per_agent = DEFAULT_MAX_LEASES_PER_AGENT, v_env = e, v_traced = []\<rparr>"

definition with_max_leases_per_agent :: "nat \<Rightarrow> ('k, 's, 'a) vault \<Rightarrow> ('k, 's, 'a) vault" where
  "with_max_leases_per_agent m v = v\<lparr>v_max_leases_per_agent := m\<rparr>"

definition initialize :: "('k, 's, 'a) backends \<Rightarrow> (('k, 's, 'a) vault, Error, unit) op" where
  "initialize B =
     try_op (key_op (load_or_create_dek (be_keys B))) (\<lambda>dek.
     modifies (\<lambda>v. v\<lparr>v_dek := Some dek\<rparr>))"

section \<open>Helpers\<close>

definition no_dek :: Error where
  "no_dek = KeySourceUnavailable ''vault not initialized (no DEK)''"

definition decrypt ::
  "('k, 's, 'a) backends \<Rightarrow> bytes \<Rightarrow> bytes \<Rightarrow> CipherAlgorithm \<Rightarrow> (('k, 's, 'a) vault, Error, string) op" where
  "decrypt B ciphertext nonce alg v =
     (case v_dek v of
        None \<Rightarrow> (Inl no_dek, v)
      | Some dek \<Rightarrow>
         (case Cipher_decrypt (be_aead B) (v_cipher v)
             \<lparr>sealed_ciphertext = ciphertext, sealed_nonce = nonce, sealed_algorithm = alg\<rparr> dek of
            Inl er \<Rightarrow> (Inl er, v)
          | Inr raw \<Rightarrow> (ok_or DecryptionFailed (from_utf8 raw), v)))"

definition encrypt ::
  "('k, 's, 'a) backends \<Rightarrow> bytes \<Rightarrow> (('k, 's, 'a) vault, Error, Sealed) op" where
  "encrypt B plaintext v =
     (case v_dek v of
        None \<Rightarrow> (Inl no_dek, v)
      | Some dek \<Rightarrow> on_env (Cipher_encrypt (be_aead B) (v_cipher v) plaintext dek) v)"

definition trace_and_record ::
  "('k, 's, 'a) backends \<Rightarrow> AuditEntry \<Rightarrow> (('k, 's, 'a) vault, Error, unit) op" where
  "trace_and_record B entry v =
     (case record_entry (be_audit B) entry (v_audit v, v_env v) of
        (r, a, e) \<Rightarrow> (r, v\<lparr>v_audit := a, v_env := e, v_traced := v_traced v @ [entry]\<rparr>))"

definition trace_and_record_best_effort ::
  "('k, 's, 'a) backends \<Rightarrow> AuditEntry \<Rightarrow> ('k, 's, 'a) vault \<Rightarrow> unit \<times> ('k, 's, 'a) vault" where
  "trace_and_record_best_effort B entry = ignore_err (trace_and_record B entry)"

text \<open>Building an entry and recording it, the pattern every operation uses.\<close>

definition audit_event ::
  "('k, 's, 'a) backends \<Rightarrow> AuditEvent \<Rightarrow> AgentId \<Rightarrow> PeerIdentity \<Rightarrow> AuditOutcome \<Rightarrow>
    (('k, 's, 'a) vault, Error, unit) op" where
  "audit_event B ev agent peer outcome =
     let_op (on_env (AuditEntry_new ev agent peer outcome)) (trace_and_record B)"

definition audit_best_effort ::
  "('k, 's, 'a) backends \<Rightarrow> AuditEvent \<Rightarrow> AgentId \<Rightarrow> PeerIdentity \<Rightarrow> AuditOutcome \<Rightarrow>
    ('k, 's, 'a) vault \<Rightarrow> unit \<times> ('k, 's, 'a) vault" where
  "audit_best_effort B ev agent peer outcome v =
     (case on_env (AuditEntry_new ev agent peer outcome) v of
        (entry, v') \<Rightarrow> trace_and_record_best_effort B entry v')"

definition admin_agent :: AgentId where
  "admin_agent = AgentId ''admin''"

section \<open>Leases\<close>

definition active_count :: "('k, 's, 'a) vault \<Rightarrow> AgentId \<Rightarrow> nat" where
  "active_count v agent =
     length (filter (\<lambda>l. l_agent l = agent \<and> \<not> l_revoked l) (map snd (v_leases v)))"

definition insert_lease :: "Lease \<Rightarrow> ('k, 's, 'a) vault \<Rightarrow> ('k, 's, 'a) vault" where
  "insert_lease l v = v\<lparr>v_leases := AList.update (l_id l) l (v_leases v)\<rparr>"

definition request_lease ::
  "('k, 's, 'a) backends \<Rightarrow> AgentId \<Rightarrow> SecretName \<Rightarrow> DomainScope \<Rightarrow> PeerIdentity \<Rightarrow>
    (('k, 's, 'a) vault, Error, LeaseGrant) op" where
  "request_lease B agent secret_name domain peer =
     try_op (reads (\<lambda>v. evaluate (v_policy v) agent secret_name domain)) (\<lambda>decision.
     case decision of
       Inl er \<Rightarrow>
         try_op (audit_event B
           (Ev_AccessDenied secret_name domain (show_Error (be_us B) er)) agent peer
           (Denied (show_Error (be_us B) er))) (\<lambda>_.
         fail er)
     | Inr terms \<Rightarrow>
         try_op (reads (\<lambda>v. (active_count v agent, v_max_leases_per_agent v))) (\<lambda>(count, cap).
         if count \<ge> cap then
           fail (InvalidConfig (''agent '' @ show_AgentId agent @ '' has reached the maximum of '' @
             show_nat cap @ '' active leases''))
         else
           try_op (store_op (get (be_store B) secret_name)) (\<lambda>_.
           let_op (on_env (Lease_new agent secret_name [domain] terms)) (\<lambda>lease.
           try_op (audit_event B
             (Ev_LeaseGranted (l_id lease) secret_name [domain] (num_seconds (ttl terms))) agent peer
             Success) (\<lambda>_.
           try_op (modifies (insert_lease lease)) (\<lambda>_.
           ok (LeaseGrant_from lease)))))))"

text \<open>The block that runs under the lease lock in \<^verbatim>\<open>access_secret\<close>.\<close>

definition use_lease ::
  "LeaseId \<Rightarrow> string \<Rightarrow> (('k, 's, 'a) vault, Error, AgentId \<times> SecretName) op" where
  "use_lease lease_id target_domain v =
     (case map_of (v_leases v) lease_id of
        None \<Rightarrow> (Inl (LeaseNotFound lease_id), v)
      | Some lease \<Rightarrow>
         (case on_env (validate lease target_domain) v of
            (Inl er, v1) \<Rightarrow> (Inl er, v1)
          | (Inr _, v1) \<Rightarrow>
             (case record_use lease of
                Inl er \<Rightarrow> (Inl er, v1)
              | Inr lease' \<Rightarrow>
                  (Inr (l_agent lease, l_secret_name lease),
                   v1\<lparr>v_leases := AList.update lease_id lease' (v_leases v1)\<rparr>))))"

definition access_secret ::
  "('k, 's, 'a) backends \<Rightarrow> LeaseId \<Rightarrow> string \<Rightarrow> PeerIdentity \<Rightarrow>
    (('k, 's, 'a) vault, Error, LeaseGuard) op" where
  "access_secret B lease_id target_domain peer =
     try_op (use_lease lease_id target_domain) (\<lambda>(agent, secret_name).
     try_op (store_op (get (be_store B) secret_name)) (\<lambda>stored.
     try_op (decrypt B (ss_ciphertext stored) (ss_nonce stored) (ss_algorithm stored)) (\<lambda>plaintext.
     try_op (audit_event B
       (Ev_SecretAccessed lease_id secret_name (DomainScope target_domain)) agent peer Success) (\<lambda>_.
     ok (LeaseGuard_new lease_id plaintext)))))"

definition revoke_lease ::
  "('k, 's, 'a) backends \<Rightarrow> LeaseId \<Rightarrow> RevocationReason \<Rightarrow> PeerIdentity \<Rightarrow>
    (('k, 's, 'a) vault, Error, unit) op" where
  "revoke_lease B lease_id reason peer v =
     (case map_of (v_leases v) lease_id of
        None \<Rightarrow> (Inl (LeaseNotFound lease_id), v)
      | Some lease \<Rightarrow>
          audit_event B (Ev_LeaseRevoked lease_id reason) (l_agent lease) peer Success
            (v\<lparr>v_leases := AList.update lease_id (revoke lease) (v_leases v)\<rparr>))"

text \<open>
  The loop \<^verbatim>\<open>for lease in leases.values_mut()\<close> shared by the three cascades: every
  lease that satisfies the condition is revoked and its revocation recorded without
  regard to recording errors. The result is the number of leases revoked.
\<close>

fun revoke_loop ::
  "('k, 's, 'a) backends \<Rightarrow> (Lease \<Rightarrow> bool) \<Rightarrow> RevocationReason \<Rightarrow> PeerIdentity \<Rightarrow>
    LeaseId list \<Rightarrow> ('k, 's, 'a) vault \<Rightarrow> nat \<times> ('k, 's, 'a) vault" where
  "revoke_loop B cond reason peer [] v = (0, v)"
| "revoke_loop B cond reason peer (k # ks) v =
     (case map_of (v_leases v) k of
        None \<Rightarrow> revoke_loop B cond reason peer ks v
      | Some lease \<Rightarrow>
         if cond lease \<and> \<not> l_revoked lease then
           (case audit_best_effort B (Ev_LeaseRevoked (l_id lease) reason) (l_agent lease) peer Success
               (v\<lparr>v_leases := AList.update k (revoke lease) (v_leases v)\<rparr>) of
              (_, v1) \<Rightarrow>
                (case revoke_loop B cond reason peer ks v1 of (n, v2) \<Rightarrow> (Suc n, v2)))
         else revoke_loop B cond reason peer ks v)"

definition revoke_where ::
  "('k, 's, 'a) backends \<Rightarrow> (Lease \<Rightarrow> bool) \<Rightarrow> RevocationReason \<Rightarrow> PeerIdentity \<Rightarrow>
    ('k, 's, 'a) vault \<Rightarrow> nat \<times> ('k, 's, 'a) vault" where
  "revoke_where B cond reason peer v = revoke_loop B cond reason peer (map fst (v_leases v)) v"

definition revoke_all_for_agent ::
  "('k, 's, 'a) backends \<Rightarrow> AgentId \<Rightarrow> PeerIdentity \<Rightarrow> (('k, 's, 'a) vault, Error, nat) op" where
  "revoke_all_for_agent B agent peer =
     let_op (revoke_where B (\<lambda>l. l_agent l = agent) AdminRevoked peer) ok"

section \<open>Secrets\<close>

definition store_secret ::
  "('k, 's, 'a) backends \<Rightarrow> SecretName \<Rightarrow> bytes \<Rightarrow> SecretKind \<Rightarrow> string option \<Rightarrow> PeerIdentity \<Rightarrow>
    (('k, 's, 'a) vault, Error, SecretMetadata) op" where
  "store_secret B name plaintext kind description peer =
     try_op (encrypt B plaintext) (\<lambda>sealed.
     try_op (store_op (put (be_store B)
       \<lparr>sp_name = name, sp_ciphertext = sealed_ciphertext sealed, sp_nonce = sealed_nonce sealed,
        sp_algorithm = sealed_algorithm sealed, sp_kind = kind, sp_description = description\<rparr>)) (\<lambda>stored.
     try_op (audit_event B (Ev_SecretStored name) admin_agent peer Success) (\<lambda>_.
     ok (SecretMetadata_from stored))))"

definition list_secrets ::
  "('k, 's, 'a) backends \<Rightarrow> (('k, 's, 'a) vault, Error, SecretMetadata list) op" where
  "list_secrets B = store_op (list_all_md (be_store B))"

definition MAX_EXTENSION_SECS :: int where
  "MAX_EXTENSION_SECS = 86400"

text \<open>The session check of a renewal: the first session with the lease's session id, if any.\<close>

definition renewal_capped :: "('k, 's, 'a) vault \<Rightarrow> Lease \<Rightarrow> u32 option" where
  "renewal_capped v lease =
     (case l_session_id lease of
        None \<Rightarrow> None
      | Some sid \<Rightarrow>
         (case find (\<lambda>s. s_id s = sid) (map snd (v_sessions v)) of
            None \<Rightarrow> None
          | Some s \<Rightarrow>
              if l_renewal_count lease \<ge> max_renewals_per_lease (s_policy s)
              then Some (max_renewals_per_lease (s_policy s)) else None))"

definition renew_lease ::
  "('k, 's, 'a) backends \<Rightarrow> LeaseId \<Rightarrow> int \<Rightarrow> PeerIdentity \<Rightarrow> (('k, 's, 'a) vault, Error, LeaseGrant) op" where
  "renew_lease B lease_id extension_secs peer v =
     (case map_of (v_leases v) lease_id of
        None \<Rightarrow> (Inl (LeaseNotFound lease_id), v)
      | Some lease \<Rightarrow>
          let_op (on_env utc_now) (\<lambda>now.
          if now > l_expires_at lease then fail (LeaseExpired lease_id)
          else if extension_secs \<le> 0 \<or> extension_secs > MAX_EXTENSION_SECS then
            fail (InvalidConfig (''extension must be between 1 and '' @ show_int MAX_EXTENSION_SECS @
              '' seconds, got '' @ show_int extension_secs))
          else (case renewal_capped v lease of
            Some m \<Rightarrow> fail (RenewalLimitReached lease_id m)
          | None \<Rightarrow>
              try_op (on_env (renew (be_us B) lease (seconds extension_secs))) (\<lambda>lease'.
              try_op (modifies (\<lambda>w. w\<lparr>v_leases := AList.update lease_id lease' (v_leases w)\<rparr>)) (\<lambda>_.
              try_op (audit_event B (Ev_LeaseRenewed lease_id extension_secs) (l_agent lease') peer
                Success) (\<lambda>_.
              ok (LeaseGrant_from lease')))))) v)"

definition delete_secret ::
  "('k, 's, 'a) backends \<Rightarrow> SecretName \<Rightarrow> PeerIdentity \<Rightarrow> (('k, 's, 'a) vault, Error, unit) op" where
  "delete_secret B name peer =
     let_op (revoke_where B (\<lambda>l. l_secret_name l = name) SecretDeleted peer) (\<lambda>_.
     try_op (store_op (delete (be_store B) name)) (\<lambda>_.
     try_op (audit_event B (Ev_SecretDeleted name) admin_agent peer Success) (\<lambda>_.
     ok ())))"

text \<open>Step 3 of a key rotation: read, decrypt and re-encrypt each listed secret.\<close>

fun reencrypt_all ::
  "('k, 's, 'a) backends \<Rightarrow> DataEncryptionKey \<Rightarrow> DataEncryptionKey \<Rightarrow> SecretMetadata list \<Rightarrow>
    (('k, 's, 'a) vault, Error, BatchUpdateItem list) op" where
  "reencrypt_all B old_dek new_dek [] = ok []"
| "reencrypt_all B old_dek new_dek (m # ms) =
     try_op (store_op (get (be_store B) (md_name m))) (\<lambda>stored.
     try_op (reads (\<lambda>v. Cipher_decrypt (be_aead B) (v_cipher v)
       \<lparr>sealed_ciphertext = ss_ciphertext stored, sealed_nonce = ss_nonce stored,
        sealed_algorithm = ss_algorithm stored\<rparr> old_dek)) (\<lambda>r.
     try_op (of_result r) (\<lambda>plaintext.
     try_op (reads v_cipher) (\<lambda>cipher.
     try_op (on_env (Cipher_encrypt (be_aead B) cipher plaintext new_dek)) (\<lambda>sealed.
     try_op (reencrypt_all B old_dek new_dek ms) (\<lambda>rest.
     ok (\<lparr>bu_name = md_name m, bu_ciphertext = sealed_ciphertext sealed,
          bu_nonce = sealed_nonce sealed, bu_algorithm = sealed_algorithm sealed\<rparr> # rest)))))))"

definition rotate_dek ::
  "('k, 's, 'a) backends \<Rightarrow> PeerIdentity \<Rightarrow> (('k, 's, 'a) vault, Error, unit) op" where
  "rotate_dek B peer =
     try_op (reads v_dek) (\<lambda>dek.
     try_op (of_result (ok_or no_dek dek)) (\<lambda>old_dek.
     let_op (on_env (fill_bytes 32)) (\<lambda>new_key_bytes.
     try_op (store_op (list_all_md (be_store B))) (\<lambda>secrets.
     try_op (reencrypt_all B old_dek (DEK new_key_bytes) secrets) (\<lambda>updates.
     try_op (store_op (batch_update (be_store B) updates)) (\<lambda>_.
     try_op (key_op (rotate_key (be_keys B) (DEK new_key_bytes))) (\<lambda>_.
     try_op (modifies (\<lambda>v. v\<lparr>v_dek := Some (DEK new_key_bytes)\<rparr>)) (\<lambda>_.
     try_op (audit_event B Ev_DekRotated admin_agent peer Success) (\<lambda>_.
     ok ())))))))))"

text \<open>\<^verbatim>\<open>HashMap::retain\<close> with a predicate that reads the clock for each live entry.\<close>

fun retain_leases :: "(LeaseId \<times> Lease) list \<Rightarrow> env \<Rightarrow> (LeaseId \<times> Lease) list \<times> env" where
  "retain_leases [] e = ([], e)"
| "retain_leases ((k, l) # ls) e =
     (if l_revoked l then retain_leases ls e
      else case time_remaining l e of (d, e1) \<Rightarrow>
        (case retain_leases ls e1 of (ls', e2) \<Rightarrow>
           (if num_seconds d > 0 then (k, l) # ls' else ls', e2)))"

definition gc_leases :: "('k, 's, 'a) vault \<Rightarrow> nat \<times> ('k, 's, 'a) vault" where
  "gc_leases v =
     (case retain_leases (v_leases v) (v_env v) of
        (ls, e) \<Rightarrow> (length (v_leases v) - length ls, v\<lparr>v_leases := ls, v_env := e\<rparr>))"

section \<open>Sessions\<close>

definition create_session ::
  "('k, 's, 'a) backends \<Rightarrow> string \<Rightarrow> string \<Rightarrow> SessionPolicy \<Rightarrow> PeerIdentity \<Rightarrow>
    (('k, 's, 'a) vault, Error, SessionToken \<times> SessionId) op" where
  "create_session B user channel p peer =
     let_op (on_env (Session_new user channel p)) (\<lambda>session.
     let_op (on_env (Session_time_remaining session)) (\<lambda>remaining.
     let_op (on_env (fill_bytes 16)) (\<lambda>bs.
     try_op (modifies (\<lambda>v. v\<lparr>v_sessions :=
       AList.update (SessionToken bs) session (v_sessions v)\<rparr>)) (\<lambda>_.
     try_op (audit_event B
       (Ev_SessionCreated (s_id session) user channel (num_seconds remaining)) (AgentId user) peer
       Success) (\<lambda>_.
     ok (SessionToken bs, s_id session))))))"

definition validate_session :: "SessionToken \<Rightarrow> (('k, 's, 'a) vault, Error, Session) op" where
  "validate_session token v =
     (case map_of (v_sessions v) token of
        None \<Rightarrow> (Inl SessionNotFound, v)
      | Some session \<Rightarrow>
         if s_revoked session then (Inl (SessionRevokedErr (s_id session)), v)
         else let_op (on_env (is_expired session)) (\<lambda>expired.
           if expired then fail (SessionExpired (s_id session)) else ok session) v)"

definition revoke_session ::
  "('k, 's, 'a) backends \<Rightarrow> SessionToken \<Rightarrow> PeerIdentity \<Rightarrow> (('k, 's, 'a) vault, Error, unit) op" where
  "revoke_session B token peer v =
     (case map_of (v_sessions v) token of
        None \<Rightarrow> (Inl SessionNotFound, v)
      | Some session \<Rightarrow>
          let_op (revoke_where B (\<lambda>l. l_session_id l = Some (s_id session)) SessionRevoked peer) (\<lambda>n.
          try_op (audit_event B
            (Ev_SessionRevoked (s_id session) ''explicit revocation'' (word_of_nat n))
            (AgentId ''session'') peer Success) (\<lambda>_.
          ok ()))
          (v\<lparr>v_sessions := AList.update token (Session_revoke session) (v_sessions v)\<rparr>))"

definition link_lease :: "LeaseId \<Rightarrow> SessionId \<Rightarrow> ('k, 's, 'a) vault \<Rightarrow> ('k, 's, 'a) vault" where
  "link_lease lease_id sid v =
     (case map_of (v_leases v) lease_id of
        None \<Rightarrow> v
      | Some l \<Rightarrow> v\<lparr>v_leases := AList.update lease_id (l\<lparr>l_session_id := Some sid\<rparr>) (v_leases v)\<rparr>)"

definition count_lease :: "SessionToken \<Rightarrow> ('k, 's, 'a) vault \<Rightarrow> ('k, 's, 'a) vault" where
  "count_lease token v =
     (case map_of (v_sessions v) token of
        None \<Rightarrow> v
      | Some s \<Rightarrow> v\<lparr>v_sessions := AList.update token
          (s\<lparr>s_active_lease_count := s_active_lease_count s + 1\<rparr>) (v_sessions v)\<rparr>)"

definition request_lease_scoped ::
  "('k, 's, 'a) backends \<Rightarrow> AgentId \<Rightarrow> SecretName \<Rightarrow> DomainScope \<Rightarrow> PeerIdentity \<Rightarrow>
    SessionToken \<Rightarrow> string \<Rightarrow> (('k, 's, 'a) vault, Error, LeaseGrant) op" where
  "request_lease_scoped B agent secret_name domain peer token tool_name v =
     (case map_of (v_sessions v) token of
        None \<Rightarrow> (Inl SessionNotFound, v)
      | Some session \<Rightarrow>
         if s_revoked session then (Inl (SessionRevokedErr (s_id session)), v)
         else let_op (on_env (is_expired session)) (\<lambda>expired.
           if expired then fail (SessionExpired (s_id session))
           else (case check_tool_binding session tool_name secret_name domain of
             Inl _ \<Rightarrow>
               let_op (audit_best_effort B
                 (Ev_ToolBindingDenied (s_id session) tool_name secret_name
                   (''tool '' @ CHR 0x27 # tool_name @ CHR 0x27 # '' is not bound to secret '' @
                    CHR 0x27 # show_SecretName secret_name @ CHR 0x27 # '' for domain '' @
                    CHR 0x27 # show_DomainScope domain @ [CHR 0x27]))
                 agent peer (Denied ''tool-to-secret binding denied'')) (\<lambda>_.
               fail (AccessDenied (AgentId tool_name) secret_name domain))
           | Inr _ \<Rightarrow>
               if s_active_lease_count session \<ge> max_concurrent_leases (s_policy session)
               then fail (SessionLeaseLimitReached (s_id session)
                 (max_concurrent_leases (s_policy session)))
               else
                 try_op (request_lease B agent secret_name domain peer) (\<lambda>grant.
                 try_op (modifies (link_lease (grant_lease_id grant) (s_id session))) (\<lambda>_.
                 try_op (modifies (count_lease token)) (\<lambda>_.
                 ok grant))))) v)"

fun retain_sessions ::
  "(SessionToken \<times> Session) list \<Rightarrow> env \<Rightarrow> (SessionToken \<times> Session) list \<times> env" where
  "retain_sessions [] e = ([], e)"
| "retain_sessions ((k, s) # ss) e =
     (case is_active s e of (live, e1) \<Rightarrow>
      case retain_sessions ss e1 of (ss', e2) \<Rightarrow> (if live then (k, s) # ss' else ss', e2))"

definition gc_sessions :: "('k, 's, 'a) vault \<Rightarrow> nat \<times> ('k, 's, 'a) vault" where
  "gc_sessions v =
     (case retain_sessions (v_sessions v) (v_env v) of
        (ss, e) \<Rightarrow> (length (v_sessions v) - length ss, v\<lparr>v_sessions := ss, v_env := e\<rparr>))"

end
