(* ===== verification/Vault_Frames.thy ===== *)
theory Vault_Frames
  imports Vault "HOL-Library.Sublist"
begin

text \<open>
  What each vault operation leaves alone, and what it does to leases and sessions: frame
  facts of the helpers, one effect lemma per operation, the well-formedness invariant of
  the vault's tables and the operations as calls of one step function.
\<close>

section \<open>Frames of the helpers\<close>

named_theorems frame \<open>fields an operation does not touch\<close>

lemma snd_on_env [frame]:
  "snd (on_env f v) = v\<lparr>v_env := snd (f (v_env v))\<rparr>"
  by (simp add: on_env_def case_prod_beta)

lemma fst_on_env [frame]: "fst (on_env f v) = fst (f (v_env v))"
  by (simp add: on_env_def case_prod_beta)

lemma on_env_eq: "on_env f v = (x, w) \<longleftrightarrow> x = fst (f (v_env v)) \<and> w = v\<lparr>v_env := snd (f (v_env v))\<rparr>"
  by (auto simp: on_env_def case_prod_beta)

lemma store_op_eq:
  "store_op m v = (r, w) \<longleftrightarrow>
     (\<exists>s e. m (v_store v, v_env v) = (r, s, e) \<and> w = v\<lparr>v_store := s, v_env := e\<rparr>)"
  by (auto simp: store_op_def split: prod.splits)

lemma key_op_eq:
  "key_op m v = (r, w) \<longleftrightarrow>
     (\<exists>k e. m (v_key_source v, v_env v) = (r, k, e) \<and> w = v\<lparr>v_key_source := k, v_env := e\<rparr>)"
  by (auto simp: key_op_def split: prod.splits)

lemma reads_eq [simp]: "reads f v = (r, w) \<longleftrightarrow> r = Inr (f v) \<and> w = v"
  by (auto simp: reads_def)

lemma modifies_eq [simp]: "modifies f v = (r, w) \<longleftrightarrow> r = Inr () \<and> w = f v"
  by (auto simp: modifies_def)

lemma trace_and_record_eq:
  "trace_and_record B x v = (r, w) \<longleftrightarrow>
     (\<exists>a e. record_entry (be_audit B) x (v_audit v, v_env v) = (r, a, e) \<and>
        w = v\<lparr>v_audit := a, v_env := e, v_traced := v_traced v @ [x]\<rparr>)"
  by (auto simp: trace_and_record_def split: prod.splits)

text \<open>The entry an operation builds at environment \<open>e\<close>.\<close>

definition entry_at ::
  "AuditEvent \<Rightarrow> AgentId \<Rightarrow> PeerIdentity \<Rightarrow> AuditOutcome \<Rightarrow> env \<Rightarrow> AuditEntry" where
  "entry_at ev agent peer outcome e = fst (AuditEntry_new ev agent peer outcome e)"

lemma entry_at_simps [simp]:
  "ae_event (entry_at ev ag peer out e) = ev"
  "ae_agent (entry_at ev ag peer out e) = ag"
  "ae_outcome (entry_at ev ag peer out e) = out"
  "ae_peer_identity (entry_at ev ag peer out e) = show_PeerIdentity peer"
  by (simp_all add: entry_at_def AuditEntry_new_eq)

lemma audit_event_eq:
  "audit_event B ev ag peer out v = (r, w) \<longleftrightarrow>
     (\<exists>a e. record_entry (be_audit B) (entry_at ev ag peer out (v_env v))
          (v_audit v, env_step (env_step (v_env v))) = (r, a, e) \<and>
        w = v\<lparr>v_audit := a, v_env := e, v_traced := v_traced v @ [entry_at ev ag peer out (v_env v)]\<rparr>)"
  by (simp add: audit_event_def let_op_eq trace_and_record_eq frame entry_at_def AuditEntry_new_eq)

lemma audit_best_effort_eq:
  "audit_best_effort B ev ag peer out v = (u, w) \<longleftrightarrow> (\<exists>r. audit_event B ev ag peer out v = (r, w))"
  by (auto simp: audit_best_effort_def audit_event_def let_op_def trace_and_record_best_effort_def
      ignore_err_def split: prod.splits) (metis prod.collapse)

lemma audit_best_effort_frame [frame]:
  "v_leases (snd (audit_best_effort B ev ag peer out v)) = v_leases v"
  "v_sessions (snd (audit_best_effort B ev ag peer out v)) = v_sessions v"
  "v_policy (snd (audit_best_effort B ev ag peer out v)) = v_policy v"
  "v_dek (snd (audit_best_effort B ev ag peer out v)) = v_dek v"
  "v_cipher (snd (audit_best_effort B ev ag peer out v)) = v_cipher v"
  "v_store (snd (audit_best_effort B ev ag peer out v)) = v_store v"
  "v_max_leases_per_agent (snd (audit_best_effort B ev ag peer out v)) = v_max_leases_per_agent v"
  by (simp_all add: audit_best_effort_def trace_and_record_best_effort_def ignore_err_def
      trace_and_record_def on_env_def case_prod_beta)

text \<open>What a key opens a sealed value to, and that decryption is just that.\<close>

definition open_sealed :: "aead \<Rightarrow> DataEncryptionKey option \<Rightarrow> Sealed \<Rightarrow> string result" where
  "open_sealed c dek sealed =
     (case dek of
        None \<Rightarrow> Inl no_dek
      | Some k \<Rightarrow>
         (case Cipher_decrypt c \<lparr>default_algorithm = Aes256Gcm\<rparr> sealed k of
            Inl er \<Rightarrow> Inl er
          | Inr raw \<Rightarrow> ok_or DecryptionFailed (from_utf8 raw)))"

lemma Cipher_decrypt_self: "Cipher_decrypt c ci = Cipher_decrypt c ci'"
  by (intro ext) (simp add: Cipher_decrypt_def)

lemma decrypt_eq:
  "decrypt B ct no al v = (r, w) \<longleftrightarrow>
     w = v \<and> r = open_sealed (be_aead B) (v_dek v)
       \<lparr>sealed_ciphertext = ct, sealed_nonce = no, sealed_algorithm = al\<rparr>"
  unfolding decrypt_def open_sealed_def Cipher_decrypt_self [of _ "v_cipher v" "\<lparr>default_algorithm = Aes256Gcm\<rparr>"]
  by (auto split: option.splits sum.splits)

text \<open>
  The tables and settings of a vault, apart from its backends, environment and the
  record of traced events.
\<close>

definition same_tables :: "('k, 's, 'a) vault \<Rightarrow> ('k, 's, 'a) vault \<Rightarrow> bool" where
  "same_tables v w \<longleftrightarrow>
     v_leases w = v_leases v \<and> v_sessions w = v_sessions v \<and> v_policy w = v_policy v \<and>
     v_cipher w = v_cipher v \<and> v_max_leases_per_agent w = v_max_leases_per_agent v"

definition same_settings :: "('k, 's, 'a) vault \<Rightarrow> ('k, 's, 'a) vault \<Rightarrow> bool" where
  "same_settings v w \<longleftrightarrow>
     v_policy w = v_policy v \<and> v_cipher w = v_cipher v \<and>
     v_max_leases_per_agent w = v_max_leases_per_agent v"

lemma same_tables_refl [simp, intro]: "same_tables v v"
  by (simp add: same_tables_def)

lemma same_tables_trans [trans]: "same_tables u v \<Longrightarrow> same_tables v w \<Longrightarrow> same_tables u w"
  by (simp add: same_tables_def)

lemma same_settings_refl [simp, intro]: "same_settings v v"
  by (simp add: same_settings_def)

lemma same_settings_trans [trans]: "same_settings u v \<Longrightarrow> same_settings v w \<Longrightarrow> same_settings u w"
  by (simp add: same_settings_def)

lemma same_tablesD:
  assumes "same_tables v w"
  shows "v_leases w = v_leases v" "v_sessions w = v_sessions v" "v_policy w = v_policy v"
    "v_cipher w = v_cipher v" "v_max_leases_per_agent w = v_max_leases_per_agent v" "same_settings v w"
  using assms by (simp_all add: same_tables_def same_settings_def)

lemma same_tables_backends [simp]:
  "same_tables v (v\<lparr>v_env := e\<rparr>)"
  "same_tables v (v\<lparr>v_store := s, v_env := e\<rparr>)"
  "same_tables v (v\<lparr>v_key_source := k, v_env := e\<rparr>)"
  "same_tables v (v\<lparr>v_dek := d\<rparr>)"
  "same_tables v (v\<lparr>v_audit := a, v_env := e, v_traced := t\<rparr>)"
  by (simp_all add: same_tables_def)

text \<open>An operation that touches no table, whatever it returns.\<close>

definition tableless :: "(('k, 's, 'a) vault, Error, 'x) op \<Rightarrow> bool" where
  "tableless m \<longleftrightarrow> (\<forall>v. same_tables v (snd (m v)))"

lemma tablelessD: "tableless m \<Longrightarrow> m v = (r, w) \<Longrightarrow> same_tables v w"
  by (metis snd_conv tableless_def)

lemma tableless_intros [intro, simp]:
  "tableless (ok x)" "tableless (fail e)" "tableless (of_result r)"
  "tableless (store_op m)" "tableless (key_op k)" "tableless (reads f)"
  "tableless (on_env g)" "tableless (audit_event B ev ag peer out)"
  "tableless (decrypt B c n al)" "tableless (encrypt B p)"
  by (auto simp: tableless_def op_defs store_op_def key_op_def reads_def on_env_def audit_event_def
      trace_and_record_def decrypt_def encrypt_def case_prod_beta AuditEntry_new_eq same_tables_def
      split: option.splits sum.splits)

lemma tableless_try_op [intro!]:
  "tableless m \<Longrightarrow> (\<And>x. tableless (k x)) \<Longrightarrow> tableless (try_op m k)"
  unfolding tableless_def try_op_def
  by (auto split: prod.splits sum.splits) (metis same_tables_trans snd_conv)+

lemma tableless_let_op [intro!]:
  "(\<And>v. same_tables v (snd (f v))) \<Longrightarrow> (\<And>x. tableless (k x)) \<Longrightarrow> tableless (let_op f k)"
  unfolding tableless_def let_op_eq by (metis same_tables_trans)

lemma tableless_modifies_dek [intro, simp]: "tableless (modifies (\<lambda>v. v\<lparr>v_dek := d\<rparr>))"
  by (simp add: tableless_def modifies_def)

lemma tableless_case_sum [intro]:
  "(\<And>e. tableless (m e)) \<Longrightarrow> (\<And>y. tableless (n y)) \<Longrightarrow> tableless (case x of Inl e \<Rightarrow> m e | Inr y \<Rightarrow> n y)"
  by (cases x) auto

lemma tableless_reencrypt_all: "tableless (reencrypt_all B old new ms)"
  by (induction ms) auto

text \<open>The operations that touch neither leases nor sessions.\<close>

lemma tableless_operations:
  "tableless (initialize B)"
  "tableless (store_secret B name p kind desc peer)"
  "tableless (list_secrets B)"
  "tableless (rotate_dek B peer)"
  by (auto simp: initialize_def store_secret_def list_secrets_def rotate_dek_def frame
      intro!: tableless_reencrypt_all)

lemma tableless_validate_session: "tableless (validate_session token)"
  by (auto simp: tableless_def validate_session_def op_defs frame on_env_def same_tables_def
      split: option.splits prod.splits)

section \<open>Effects on leases\<close>

text \<open>\<open>issued_as\<close>: the lease is as \<^verbatim>\<open>Lease::new\<close> makes it for a request and some terms.\<close>

definition issued_as :: "Lease \<Rightarrow> AgentId \<Rightarrow> SecretName \<Rightarrow> DomainScope \<Rightarrow> LeaseTerms \<Rightarrow> bool" where
  "issued_as l agent name d terms \<longleftrightarrow> (\<exists>e. l = fst (Lease_new agent name [d] terms e))"

lemma issued_asD:
  assumes "issued_as l agent name d terms"
  shows "l_agent l = agent" "l_secret_name l = name" "l_allowed_domains l = [d]"
    "\<not> l_revoked l" "l_use_count l = 0" "l_max_uses l = max_uses terms"
    "l_renewable l = renewable terms" "l_session_id l = None" "l_renewal_count l = 0"
    "l_expires_at l = l_issued_at l + ttl terms" "lease_inv l"
  using assms by (auto simp: issued_as_def Lease_new_eq lease_inv_def split: option.splits)

lemma request_lease_effect:
  assumes "request_lease B agent name d peer v = (r, w)"
  shows "same_settings v w \<and> v_sessions w = v_sessions v \<and> v_dek w = v_dek v \<and>
    (case r of
       Inl _ \<Rightarrow> v_leases w = v_leases v
     | Inr g \<Rightarrow> \<exists>l terms. issued_as l agent name d terms \<and>
         evaluate (v_policy v) agent name d = Inr terms \<and>
         active_count v agent < v_max_leases_per_agent v \<and>
         v_leases w = AList.update (l_id l) l (v_leases v) \<and> g = LeaseGrant_from l)"
proof (cases r)
  case (Inl er)
  then show ?thesis using assms
    by (fastforce simp: request_lease_def try_op_Inl let_op_eq frame audit_event_eq store_op_eq
        same_settings_def insert_lease_def split: sum.splits if_splits)
next
  case (Inr g)
  then show ?thesis using assms
    by (fastforce simp: request_lease_def try_op_Inr let_op_eq frame audit_event_eq store_op_eq
        same_settings_def insert_lease_def issued_as_def not_le split: sum.splits if_splits)
qed

lemma use_lease_effect:
  assumes "use_lease i host v = (r, w)"
  shows "same_settings v w \<and> v_sessions w = v_sessions v \<and> v_dek w = v_dek v \<and> v_store w = v_store v \<and>
    v_audit w = v_audit v \<and> v_traced w = v_traced v \<and>
    (case r of
       Inl _ \<Rightarrow> v_leases w = v_leases v
     | Inr (agent, name) \<Rightarrow> \<exists>l. map_of (v_leases v) i = Some l \<and> agent = l_agent l \<and> name = l_secret_name l \<and>
         valid_at l host (env_clock (v_env v) (env_pos (v_env v))) \<and>
         v_leases w = AList.update i (l\<lparr>l_use_count := l_use_count l + 1\<rparr>) (v_leases v))"
proof (cases "map_of (v_leases v) i")
  case None
  then show ?thesis using assms by (auto simp: use_lease_def)
next
  case (Some l)
  obtain x e where val: "validate l host (v_env v) = (x, e)" by fastforce
  show ?thesis
  proof (cases x)
    case (Inl er)
    then show ?thesis using assms Some val by (auto simp: use_lease_def on_env_def same_settings_def)
  next
    case (Inr u)
    then have valid: "valid_at l host (env_clock (v_env v) (env_pos (v_env v)))"
      using val by (simp add: validate_Inr)
    then have "record_use l = Inr (l\<lparr>l_use_count := l_use_count l + 1\<rparr>)"
      by (simp add: record_use_Inr valid_at_def)
    then show ?thesis using assms Some val Inr valid
      by (auto simp: use_lease_def on_env_def same_settings_def)
  qed
qed

lemma access_secret_effect:
  assumes "access_secret B i host peer v = (r, w)"
  shows "same_settings v w \<and> v_sessions w = v_sessions v \<and> v_dek w = v_dek v \<and>
    ((\<exists>er. r = Inl er) \<and> v_leases w = v_leases v \<or>
     (\<exists>l. map_of (v_leases v) i = Some l \<and>
         valid_at l host (env_clock (v_env v) (env_pos (v_env v))) \<and>
         v_leases w = AList.update i (l\<lparr>l_use_count := l_use_count l + 1\<rparr>) (v_leases v))) \<and>
    (\<forall>g. r = Inr g \<longrightarrow> guard_lease_id g = i)"
proof -
  obtain r1 v1 where use: "use_lease i host v = (r1, v1)" by fastforce
  note eff = use_lease_effect [OF use]
  show ?thesis
  proof (cases r1)
    case (Inl er)
    then show ?thesis using assms use eff by (auto simp: access_secret_def try_op_def)
  next
    case (Inr an)
    obtain agent name where an: "an = (agent, name)" by fastforce
    define rest where "rest =
      try_op (store_op (get (be_store B) name)) (\<lambda>stored.
      try_op (decrypt B (ss_ciphertext stored) (ss_nonce stored) (ss_algorithm stored)) (\<lambda>plaintext.
      try_op (audit_event B (Ev_SecretAccessed i name (DomainScope host)) agent peer Success) (\<lambda>_.
      ok (LeaseGuard_new i plaintext))))"
    have run: "rest v1 = (r, w)"
      using assms use Inr an by (simp add: access_secret_def try_op_def rest_def)
    have "v_dek w = v_dek v1"
      using run by (cases r) (auto simp: rest_def try_op_Inr try_op_Inl store_op_eq decrypt_eq audit_event_eq)
    moreover have "same_tables v1 w"
      by (rule tablelessD [of rest, OF _ run]) (auto simp: rest_def)
    moreover have "\<forall>g. r = Inr g \<longrightarrow> guard_lease_id g = i"
      using run by (auto simp: rest_def try_op_Inr LeaseGuard_new_def)
    ultimately show ?thesis using eff Inr an by (auto simp: same_tables_def same_settings_def)
  qed
qed

lemma revoke_lease_effect:
  assumes "revoke_lease B i reason peer v = (r, w)"
  shows "same_settings v w \<and> v_sessions w = v_sessions v \<and> v_dek w = v_dek v \<and>
    (case map_of (v_leases v) i of
       None \<Rightarrow> r = Inl (LeaseNotFound i) \<and> w = v
     | Some l \<Rightarrow> v_leases w = AList.update i (revoke l) (v_leases v))"
  using assms by (auto simp: revoke_lease_def audit_event_eq same_settings_def split: option.splits)

lemma renew_eq:
  "renew us l x e =
     (if l_revoked l then (Inl (LeaseRevoked (l_id l)), e)
      else if \<not> l_renewable l then
        (Inl (InvalidConfig (''lease '' @ show_LeaseId us (l_id l) @ '' is not renewable'')), e)
      else (Inr (l\<lparr>l_expires_at := env_clock e (env_pos e) + x,
        l_renewal_count := l_renewal_count l + 1\<rparr>), env_step e))"
  by (simp add: renew_def op_defs utc_now_def)

lemma renew_lease_effect:
  assumes "renew_lease B i secs peer v = (r, w)"
  shows "same_settings v w \<and> v_sessions w = v_sessions v \<and> v_dek w = v_dek v \<and>
    ((\<exists>er. r = Inl er) \<and> v_leases w = v_leases v \<or>
     (\<exists>l now. map_of (v_leases v) i = Some l \<and> \<not> l_revoked l \<and> l_renewable l \<and>
        env_clock (v_env v) (env_pos (v_env v)) \<le> l_expires_at l \<and>
        now = env_clock (v_env v) (Suc (env_pos (v_env v))) \<and>
        0 < secs \<and> secs \<le> MAX_EXTENSION_SECS \<and> renewal_capped v l = None \<and>
        v_leases w = AList.update i (l\<lparr>l_expires_at := now + seconds secs,
          l_renewal_count := l_renewal_count l + 1\<rparr>) (v_leases v)))"
proof (cases "map_of (v_leases v) i")
  case None
  then show ?thesis using assms by (auto simp: renew_lease_def)
next
  case (Some l)
  show ?thesis
  proof (cases r)
    case (Inl er)
    then show ?thesis using assms Some
      by (auto simp: renew_lease_def let_op_eq frame utc_now_def try_op_Inl on_env_eq audit_event_eq
          renew_eq same_settings_def not_less not_le split: if_splits option.splits)
  next
    case (Inr g)
    then show ?thesis using assms Some
      by (auto simp: renew_lease_def let_op_eq frame utc_now_def try_op_Inr on_env_eq audit_event_eq
          renew_eq same_settings_def not_less not_le split: if_splits option.splits)
  qed
qed

section \<open>Cascades\<close>

lemma update_as_map:
  "distinct (map fst al) \<Longrightarrow> map_of al k = Some x \<Longrightarrow>
    AList.update k y al = map (\<lambda>(k', z). (k', if k' = k then y else z)) al"
proof (induction al)
  case (Cons a al)
  have "map (\<lambda>(k', z). (k', if k' = fst a then y else z)) al = al"
    using Cons.prems by (intro map_idI) (auto simp: image_iff)
  then show ?case using Cons by (cases a) auto
qed simp

lemma revoke_revoked: "l_revoked l \<Longrightarrow> revoke l = l"
  by (simp add: revoke_def)

text \<open>What the loop does to the lease table: a map over the visited keys.\<close>

definition revoke_if :: "(Lease \<Rightarrow> bool) \<Rightarrow> LeaseId set \<Rightarrow> LeaseId \<times> Lease \<Rightarrow> LeaseId \<times> Lease" where
  "revoke_if cond K = (\<lambda>(k, l). (k, if k \<in> K \<and> cond l then revoke l else l))"

lemma fst_revoke_if [simp]: "fst (revoke_if cond K p) = fst p"
  by (simp add: revoke_if_def split: prod.splits)

lemma map_of_revoke_if:
  "map_of (map (revoke_if cond K) al) k =
     map_option (\<lambda>l. if k \<in> K \<and> cond l then revoke l else l) (map_of al k)"
  by (induction al) (auto simp: revoke_if_def)

lemma revoke_if_insert:
  assumes "distinct (map fst al)" and "map_of al k = Some l" and "cond l"
  shows "map (revoke_if cond K) (AList.update k (revoke l) al) = map (revoke_if cond (insert k K)) al"
proof -
  have "revoke_if cond K (case p of (k', z) \<Rightarrow> (k', if k' = k then revoke l else z)) =
      revoke_if cond (insert k K) p" if "p \<in> set al" for p
  proof -
    obtain a b where p: "p = (a, b)" by fastforce
    have "b = l" if "a = k"
      using map_of_is_SomeI [OF assms(1)] \<open>p \<in> set al\<close> p that assms(2) by fastforce
    then show ?thesis using assms(3) by (auto simp: p revoke_if_def revoke_revoked)
  qed
  then show ?thesis by (simp add: update_as_map [OF assms(1,2)])
qed

lemma revoke_if_skip:
  assumes "distinct (map fst al)" and "\<And>l. map_of al k = Some l \<Longrightarrow> cond l \<Longrightarrow> l_revoked l"
  shows "map (revoke_if cond (insert k K)) al = map (revoke_if cond K) al"
  using assms by (auto simp: revoke_if_def revoke_revoked)

text \<open>The rest of the state along the loop.\<close>

lemma revoke_loop_frame:
  "revoke_loop B cond reason peer ks v = (n, w) \<Longrightarrow>
    same_settings v w \<and> v_sessions w = v_sessions v \<and> v_dek w = v_dek v \<and> v_store w = v_store v \<and>
    v_key_source w = v_key_source v \<and>
    (\<exists>t. v_traced w = v_traced v @ t \<and> length t = n)"
proof (induction ks arbitrary: v n)
  case (Cons k ks)
  show ?case
  proof (cases "\<exists>l. map_of (v_leases v) k = Some l \<and> cond l \<and> \<not> l_revoked l")
    case True
    then obtain l where l: "map_of (v_leases v) k = Some l" "cond l" "\<not> l_revoked l" by blast
    define v0 where "v0 = v\<lparr>v_leases := AList.update k (revoke l) (v_leases v)\<rparr>"
    obtain u v1 where v1: "audit_best_effort B (Ev_LeaseRevoked (l_id l) reason) (l_agent l) peer Success v0 = (u, v1)"
      by (rule prod.exhaust)
    obtain m where m: "revoke_loop B cond reason peer ks v1 = (m, w)" "n = Suc m"
      using Cons.prems l v1 by (auto simp: v0_def split: prod.splits)
    show ?thesis using Cons.IH [OF m(1)] m(2) v1
      by (auto simp: audit_best_effort_eq audit_event_eq v0_def same_settings_def)
  next
    case False
    then have "revoke_loop B cond reason peer ks v = (n, w)"
      using Cons.prems by (auto split: option.splits if_splits)
    then show ?thesis by (rule Cons.IH)
  qed
qed auto

lemma revoke_loop_leases:
  "distinct (map fst (v_leases v)) \<Longrightarrow> revoke_loop B cond reason peer ks v = (n, w) \<Longrightarrow>
    v_leases w = map (revoke_if cond (set ks)) (v_leases v)"
proof (induction ks arbitrary: v n)
  case Nil
  then show ?case by (auto simp: revoke_if_def intro: map_idI [symmetric])
next
  case (Cons k ks)
  show ?case
  proof (cases "\<exists>l. map_of (v_leases v) k = Some l \<and> cond l \<and> \<not> l_revoked l")
    case True
    then obtain l where l: "map_of (v_leases v) k = Some l" "cond l" "\<not> l_revoked l" by blast
    define v0 where "v0 = v\<lparr>v_leases := AList.update k (revoke l) (v_leases v)\<rparr>"
    obtain u v1 where v1: "audit_best_effort B (Ev_LeaseRevoked (l_id l) reason) (l_agent l) peer Success v0 = (u, v1)"
      by (rule prod.exhaust)
    have leases1: "v_leases v1 = AList.update k (revoke l) (v_leases v)"
      using v1 by (auto simp: audit_best_effort_eq audit_event_eq v0_def)
    obtain m where m: "revoke_loop B cond reason peer ks v1 = (m, w)"
      using Cons.prems l v1 by (auto simp: v0_def split: prod.splits)
    have "v_leases w = map (revoke_if cond (set ks)) (v_leases v1)"
      by (rule Cons.IH [OF _ m]) (simp add: leases1 distinct_update Cons.prems(1))
    then show ?thesis
      using revoke_if_insert [of "v_leases v" k l cond "set ks"] Cons.prems(1) l by (simp add: leases1)
  next
    case False
    then have "revoke_loop B cond reason peer ks v = (n, w)"
      using Cons.prems by (auto split: option.splits if_splits)
    from Cons.IH [OF Cons.prems(1) this] show ?thesis
      using revoke_if_skip [OF Cons.prems(1), of k cond "set ks"] False by auto
  qed
qed

lemma revoke_where_effect:
  assumes "distinct (map fst (v_leases v))" and "revoke_where B cond reason peer v = (n, w)"
  shows "same_settings v w \<and> v_sessions w = v_sessions v \<and> v_dek w = v_dek v \<and> v_store w = v_store v \<and>
    v_key_source w = v_key_source v \<and>
    v_leases w = map (\<lambda>(k, l). (k, if cond l then revoke l else l)) (v_leases v)"
proof -
  have all: "map (revoke_if cond (set (map fst (v_leases v)))) (v_leases v) =
      map (\<lambda>(k, l). (k, if cond l then revoke l else l)) (v_leases v)"
    by (intro map_cong refl) (force simp: revoke_if_def)
  have run: "revoke_loop B cond reason peer (map fst (v_leases v)) v = (n, w)"
    using assms(2) by (simp add: revoke_where_def)
  show ?thesis using revoke_loop_frame [OF run] revoke_loop_leases [OF assms(1) run] all by simp
qed

section \<open>Collection and sessions\<close>

lemma retain_leases_subseq: "subseq (fst (retain_leases ls e)) ls"
proof (induction ls arbitrary: e)
  case (Cons a ls)
  show ?case using Cons.IH by (cases a) (simp add: case_prod_beta list_emb_Cons)
qed simp

lemma retain_leases_env: "env_le e (snd (retain_leases ls e))"
proof (induction ls e rule: retain_leases.induct)
  case (2 k l ls e)
  then show ?case
    by (auto simp: time_remaining_def utc_now_def case_prod_beta intro: env_le_trans [OF env_le_step])
qed simp

lemma retain_leases_kept:
  "(k, l) \<in> set (fst (retain_leases ls e)) \<Longrightarrow>
    \<not> l_revoked l \<and> (\<exists>j \<ge> env_pos e. env_clock e j + seconds 1 \<le> l_expires_at l)"
proof (induction ls e rule: retain_leases.induct)
  case (2 k' l' ls e)
  show ?case
  proof (cases "l_revoked l'")
    case True
    then show ?thesis using 2 by simp
  next
    case False
    then have "(k, l) = (k', l') \<and> 0 < num_seconds (l_expires_at l' - env_clock e (env_pos e)) \<or>
        (k, l) \<in> set (fst (retain_leases ls (env_step e)))"
      using 2(3) by (auto simp: time_remaining_def utc_now_def case_prod_beta split: if_splits)
    then show ?thesis
    proof
      assume "(k, l) \<in> set (fst (retain_leases ls (env_step e)))"
      then have "\<not> l_revoked l \<and> (\<exists>j \<ge> Suc (env_pos e). env_clock e j + seconds 1 \<le> l_expires_at l)"
        using 2(2) [OF False] by (simp add: time_remaining_def utc_now_def)
      then show ?thesis using Suc_leD by blast
    qed (use False in \<open>auto simp: num_seconds_pos\<close>)
  qed
qed simp

lemma retain_leases_dropped:
  "(k, l) \<in> set ls \<Longrightarrow> (k, l) \<notin> set (fst (retain_leases ls e)) \<Longrightarrow>
    l_revoked l \<or> (\<exists>j \<ge> env_pos e. l_expires_at l < env_clock e j + seconds 1)"
proof (induction ls e rule: retain_leases.induct)
  case (2 k' l' ls e)
  show ?case
  proof (cases "l_revoked l'")
    case True
    then show ?thesis using 2 by auto
  next
    case False
    show ?thesis
    proof (cases "(k, l) \<in> set ls")
      case True
      have "(k, l) \<notin> set (fst (retain_leases ls (env_step e)))"
        using 2(4) False by (auto simp: time_remaining_def utc_now_def case_prod_beta split: if_splits)
      then have "l_revoked l \<or> (\<exists>j \<ge> Suc (env_pos e). l_expires_at l < env_clock e j + seconds 1)"
        using 2(2) [OF False] True by (simp add: time_remaining_def utc_now_def)
      then show ?thesis using Suc_leD by blast
    next
      case False
      then have "l = l'" using 2(3) by simp
      moreover have "\<not> 0 < num_seconds (l_expires_at l' - env_clock e (env_pos e))"
        using 2(3,4) False \<open>\<not> l_revoked l'\<close>
        by (auto simp: time_remaining_def utc_now_def case_prod_beta split: if_splits)
      ultimately show ?thesis by (auto simp: num_seconds_pos)
    qed
  qed
qed simp

lemma gc_leases_effect:
  assumes "gc_leases v = (n, w)"
  shows "same_settings v w" "v_sessions w = v_sessions v" "v_dek w = v_dek v" "v_traced w = v_traced v"
    "v_store w = v_store v"
    "subseq (v_leases w) (v_leases v)" "n = length (v_leases v) - length (v_leases w)"
    "\<And>k l. (k, l) \<in> set (v_leases w) \<Longrightarrow> \<not> l_revoked l"
  using assms retain_leases_subseq [of "v_leases v" "v_env v"]
    retain_leases_kept [of _ _ "v_leases v" "v_env v"]
  by (auto simp: gc_leases_def same_settings_def split: prod.splits)

lemma retain_sessions_subseq: "subseq (fst (retain_sessions ss e)) ss"
proof (induction ss arbitrary: e)
  case (Cons a ss)
  show ?case using Cons.IH by (cases a) (simp add: case_prod_beta list_emb_Cons)
qed simp

lemma retain_sessions_env: "env_le e (snd (retain_sessions ss e))"
proof (induction ss arbitrary: e)
  case (Cons a ss)
  then show ?case by (cases a) (auto simp: case_prod_beta intro: env_le_trans [OF is_active_env])
qed simp

lemma gc_sessions_effect:
  assumes "gc_sessions v = (n, w)"
  shows "same_settings v w" "v_leases w = v_leases v" "v_dek w = v_dek v" "v_store w = v_store v"
    "v_traced w = v_traced v" "subseq (v_sessions w) (v_sessions v)"
  using assms retain_sessions_subseq [of "v_sessions v" "v_env v"]
  by (auto simp: gc_sessions_def same_settings_def split: prod.splits)

lemma create_session_effect:
  assumes "create_session B user ch p peer v = (r, w)"
  shows "same_settings v w \<and> v_leases w = v_leases v \<and> v_dek w = v_dek v \<and>
    (\<exists>token s. v_sessions w = AList.update token s (v_sessions v) \<and>
       \<not> s_revoked s \<and> s_policy s = p \<and> s_active_lease_count s = 0 \<and> s_user s = user \<and>
       (\<forall>x. r = Inr x \<longrightarrow> x = (token, s_id s)))"
proof -
  let ?t = "SessionToken (fst (fill_bytes 16 (env_step (env_step (env_step (v_env v))))))"
  let ?s = "fst (Session_new user ch p (v_env v))"
  have "same_settings v w \<and> v_leases w = v_leases v \<and> v_dek w = v_dek v \<and>
      v_sessions w = AList.update ?t ?s (v_sessions v) \<and> (\<forall>x. r = Inr x \<longrightarrow> x = (?t, s_id ?s))"
    using assms
    by (cases r) (auto simp: create_session_def let_op_eq frame try_op_Inr try_op_Inl Session_new_eq
        Session_time_remaining_def utc_now_def audit_event_eq same_settings_def)
  moreover have "\<not> s_revoked ?s \<and> s_policy ?s = p \<and> s_active_lease_count ?s = 0 \<and> s_user ?s = user"
    by (simp add: Session_new_eq)
  ultimately show ?thesis by blast
qed

lemma validate_session_effect:
  assumes "validate_session token v = (r, w)"
  shows "same_tables v w \<and> v_dek w = v_dek v \<and>
    (\<forall>s. r = Inr s \<longrightarrow> map_of (v_sessions v) token = Some s \<and> \<not> s_revoked s \<and>
       env_clock (v_env v) (env_pos (v_env v)) \<le> s_expires_at s)"
  using assms
  by (auto simp: validate_session_def let_op_eq frame is_expired_eq same_tables_def not_less
      split: option.splits if_splits)

lemma revoke_session_effect:
  assumes "distinct (map fst (v_leases v))" and "revoke_session B token peer v = (r, w)"
  shows "case map_of (v_sessions v) token of
     None \<Rightarrow> r = Inl SessionNotFound \<and> w = v
   | Some s \<Rightarrow> same_settings v w \<and> v_dek w = v_dek v \<and> v_store w = v_store v \<and>
       v_sessions w = AList.update token (Session_revoke s) (v_sessions v) \<and>
       v_leases w = map (\<lambda>(k, l). (k, if l_session_id l = Some (s_id s) then revoke l else l)) (v_leases v)"
proof (cases "map_of (v_sessions v) token")
  case None
  then show ?thesis using assms by (simp add: revoke_session_def)
next
  case (Some s)
  define v0 where "v0 = v\<lparr>v_sessions := AList.update token (Session_revoke s) (v_sessions v)\<rparr>"
  obtain n v1 where v1: "revoke_where B (\<lambda>l. l_session_id l = Some (s_id s)) SessionRevoked peer v0 = (n, v1)"
    by (rule prod.exhaust)
  have "v_leases v0 = v_leases v" by (simp add: v0_def)
  then have eff: "same_settings v0 v1 \<and> v_sessions v1 = v_sessions v0 \<and> v_dek v1 = v_dek v0 \<and>
      v_store v1 = v_store v0 \<and> v_leases v1 =
        map (\<lambda>(k, l). (k, if l_session_id l = Some (s_id s) then revoke l else l)) (v_leases v)"
    using revoke_where_effect [OF _ v1] assms(1) by simp
  have "try_op (audit_event B (Ev_SessionRevoked (s_id s) ''explicit revocation'' (word_of_nat n))
      (AgentId ''session'') peer Success) (\<lambda>_. ok ()) v1 = (r, w)"
    using assms(2) Some v1 by (simp add: revoke_session_def let_op_def v0_def)
  then have "same_tables v1 w \<and> v_dek w = v_dek v1 \<and> v_store w = v_store v1"
    by (cases r) (auto simp: try_op_Inr try_op_Inl audit_event_eq same_tables_def)
  then show ?thesis using Some eff by (auto simp: v0_def same_tables_def same_settings_def)
qed

lemma delete_secret_effect:
  assumes "distinct (map fst (v_leases v))" and "delete_secret B name peer v = (r, w)"
  shows "same_settings v w \<and> v_sessions w = v_sessions v \<and> v_dek w = v_dek v \<and>
    v_leases w = map (\<lambda>(k, l). (k, if l_secret_name l = name then revoke l else l)) (v_leases v)"
proof -
  obtain n v1 where v1: "revoke_where B (\<lambda>l. l_secret_name l = name) SecretDeleted peer v = (n, v1)"
    by (rule prod.exhaust)
  have "try_op (store_op (delete (be_store B) name)) (\<lambda>_.
      try_op (audit_event B (Ev_SecretDeleted name) admin_agent peer Success) (\<lambda>_. ok ())) v1 = (r, w)"
    using assms(2) v1 by (simp add: delete_secret_def let_op_def)
  then have "same_tables v1 w \<and> v_dek w = v_dek v1"
    by (cases r) (auto simp: try_op_Inr try_op_Inl audit_event_eq store_op_eq same_tables_def)
  then show ?thesis using revoke_where_effect [OF assms(1) v1] by (auto simp: same_tables_def same_settings_def)
qed

lemma revoke_all_for_agent_effect:
  assumes "distinct (map fst (v_leases v))" and "revoke_all_for_agent B agent peer v = (r, w)"
  shows "same_settings v w \<and> v_sessions w = v_sessions v \<and> v_dek w = v_dek v \<and> (\<exists>n. r = Inr n) \<and>
    v_leases w = map (\<lambda>(k, l). (k, if l_agent l = agent then revoke l else l)) (v_leases v)"
  using revoke_where_effect [OF assms(1)] assms(2)
  by (auto simp: revoke_all_for_agent_def let_op_def split: prod.splits)

lemma update_update: "AList.update k x (AList.update k y al) = AList.update k x al"
  by (induction al) auto

lemma request_lease_scoped_effect:
  assumes "request_lease_scoped B agent name d peer token tool v = (r, w)"
  shows "same_settings v w \<and> v_dek w = v_dek v \<and>
    (case r of
       Inl _ \<Rightarrow> v_leases w = v_leases v \<and> v_sessions w = v_sessions v
     | Inr g \<Rightarrow> \<exists>s l terms. map_of (v_sessions v) token = Some s \<and> \<not> s_revoked s \<and>
         env_clock (v_env v) (env_pos (v_env v)) \<le> s_expires_at s \<and>
         check_tool_binding s tool name d = Inr () \<and>
         s_active_lease_count s < max_concurrent_leases (s_policy s) \<and>
         issued_as l agent name d terms \<and> evaluate (v_policy v) agent name d = Inr terms \<and>
         active_count v agent < v_max_leases_per_agent v \<and> g = LeaseGrant_from l \<and>
         v_leases w = AList.update (l_id l) (l\<lparr>l_session_id := Some (s_id s)\<rparr>) (v_leases v) \<and>
         v_sessions w = AList.update token
           (s\<lparr>s_active_lease_count := s_active_lease_count s + 1\<rparr>) (v_sessions v))"
proof (cases "map_of (v_sessions v) token")
  case None
  then show ?thesis using assms by (auto simp: request_lease_scoped_def)
next
  case (Some s)
  define v0 where "v0 = v\<lparr>v_env := env_step (v_env v)\<rparr>"
  have v0: "same_tables v v0" "v_dek v0 = v_dek v" by (simp_all add: v0_def)
  note st = same_tablesD [OF v0(1)]
  consider (rev) "s_revoked s" | (exp) "\<not> s_revoked s" "s_expires_at s < env_clock (v_env v) (env_pos (v_env v))"
    | (deny) er where "\<not> s_revoked s" "env_clock (v_env v) (env_pos (v_env v)) \<le> s_expires_at s"
        "check_tool_binding s tool name d = Inl er"
    | (full) "\<not> s_revoked s" "env_clock (v_env v) (env_pos (v_env v)) \<le> s_expires_at s"
        "check_tool_binding s tool name d = Inr ()" "max_concurrent_leases (s_policy s) \<le> s_active_lease_count s"
    | (go) "\<not> s_revoked s" "env_clock (v_env v) (env_pos (v_env v)) \<le> s_expires_at s"
        "check_tool_binding s tool name d = Inr ()" "s_active_lease_count s < max_concurrent_leases (s_policy s)"
    by (metis (full_types) old.unit.exhaust linorder_not_less obj_sumE)
  then show ?thesis
  proof cases
    case go
    have act: "active_count v0 agent = active_count v agent" by (simp add: v0_def active_count_def)
    have "try_op (request_lease B agent name d peer) (\<lambda>grant.
        try_op (modifies (link_lease (grant_lease_id grant) (s_id s))) (\<lambda>_.
        try_op (modifies (count_lease token)) (\<lambda>_. ok grant))) v0 = (r, w)"
      using assms Some go
      by (simp add: request_lease_scoped_def let_op_eq frame is_expired_eq v0_def not_less [symmetric])
    then consider (no) er where "r = Inl er" "request_lease B agent name d peer v0 = (Inl er, w)"
      | (yes) g v1 where "r = Inr g" "request_lease B agent name d peer v0 = (Inr g, v1)"
          "w = count_lease token (link_lease (grant_lease_id g) (s_id s) v1)"
      by (cases r) (auto simp: try_op_Inr try_op_Inl)
    then show ?thesis
    proof cases
      case no
      then show ?thesis using request_lease_effect [OF no(2)] st v0(2) by (auto simp: same_settings_def)
    next
      case yes
      from request_lease_effect [OF yes(2)] obtain l terms where l: "issued_as l agent name d terms"
        "evaluate (v_policy v) agent name d = Inr terms" "active_count v agent < v_max_leases_per_agent v"
        "v_leases v1 = AList.update (l_id l) l (v_leases v)" "g = LeaseGrant_from l"
        and v1: "same_settings v v1" "v_sessions v1 = v_sessions v" "v_dek v1 = v_dek v"
        using st v0(2) act by (auto simp: same_settings_def)
      have link: "link_lease (grant_lease_id g) (s_id s) v1 =
          v1\<lparr>v_leases := AList.update (l_id l) (l\<lparr>l_session_id := Some (s_id s)\<rparr>) (v_leases v)\<rparr>"
        using l(4,5) by (simp add: link_lease_def LeaseGrant_from_def update_conv update_update)
      have "w = v1\<lparr>v_leases := AList.update (l_id l) (l\<lparr>l_session_id := Some (s_id s)\<rparr>) (v_leases v),
          v_sessions := AList.update token
            (s\<lparr>s_active_lease_count := s_active_lease_count s + 1\<rparr>) (v_sessions v)\<rparr>"
        using yes(3) Some v1(2) by (simp add: link count_lease_def)
      then show ?thesis using yes(1) go Some l v1 by (auto simp: same_settings_def)
    qed
  qed (use assms Some in \<open>auto simp: request_lease_scoped_def let_op_eq frame is_expired_eq same_settings_def
      not_less [symmetric]\<close>)
qed

end
