(* ===== verification/Vault_Traces.thy ===== *)
theory Vault_Traces
  imports Vault_Frames
begin

text \<open>
  Executions of the vault: every public operation as a call, the reply it gives, and runs
  as sequences of calls in any order and with any arguments. The invariant of the lease
  and session tables holds along every run; from it follow the guarantees that span calls
  (use limits, finality of revocation, lease caps, authorisation of every access).
\<close>

section \<open>Calls and runs\<close>

datatype call =
    C_initialize
  | C_request_lease AgentId SecretName DomainScope PeerIdentity
  | C_access_secret LeaseId string PeerIdentity
  | C_revoke_lease LeaseId RevocationReason PeerIdentity
  | C_revoke_all_for_agent AgentId PeerIdentity
  | C_store_secret SecretName bytes SecretKind "string option" PeerIdentity
  | C_list_secrets
  | C_renew_lease LeaseId int PeerIdentity
  | C_delete_secret SecretName PeerIdentity
  | C_rotate_dek PeerIdentity
  | C_gc_leases
  | C_create_session string string SessionPolicy PeerIdentity
  | C_validate_session SessionToken
  | C_revoke_session SessionToken PeerIdentity
  | C_request_lease_scoped AgentId SecretName DomainScope PeerIdentity SessionToken string
  | C_gc_sessions

datatype reply =
    R_error Error
  | R_unit
  | R_granted LeaseGrant
  | R_guard LeaseGuard
  | R_renewed LeaseGrant
  | R_count nat
  | R_metadata SecretMetadata
  | R_list "SecretMetadata list"
  | R_session SessionToken SessionId
  | R_valid Session

definition reply_with :: "('x \<Rightarrow> reply) \<Rightarrow> 'x result \<times> 'v \<Rightarrow> reply \<times> 'v" where
  "reply_with f = (\<lambda>(r, v). (case r of Inl e \<Rightarrow> R_error e | Inr x \<Rightarrow> f x, v))"

fun exec :: "('k, 's, 'a) backends \<Rightarrow> call \<Rightarrow> ('k, 's, 'a) vault \<Rightarrow> reply \<times> ('k, 's, 'a) vault" where
  "exec B C_initialize v = reply_with (\<lambda>_. R_unit) (initialize B v)"
| "exec B (C_request_lease a n d p) v = reply_with R_granted (request_lease B a n d p v)"
| "exec B (C_access_secret i h p) v = reply_with R_guard (access_secret B i h p v)"
| "exec B (C_revoke_lease i rs p) v = reply_with (\<lambda>_. R_unit) (revoke_lease B i rs p v)"
| "exec B (C_revoke_all_for_agent a p) v = reply_with R_count (revoke_all_for_agent B a p v)"
| "exec B (C_store_secret n t k ds p) v = reply_with R_metadata (store_secret B n t k ds p v)"
| "exec B C_list_secrets v = reply_with R_list (list_secrets B v)"
| "exec B (C_renew_lease i s p) v = reply_with R_renewed (renew_lease B i s p v)"
| "exec B (C_delete_secret n p) v = reply_with (\<lambda>_. R_unit) (delete_secret B n p v)"
| "exec B (C_rotate_dek p) v = reply_with (\<lambda>_. R_unit) (rotate_dek B p v)"
| "exec B C_gc_leases v = (case gc_leases v of (n, w) \<Rightarrow> (R_count n, w))"
| "exec B (C_create_session u c sp p) v = reply_with (\<lambda>(t, i). R_session t i) (create_session B u c sp p v)"
| "exec B (C_validate_session t) v = reply_with R_valid (validate_session t v)"
| "exec B (C_revoke_session t p) v = reply_with (\<lambda>_. R_unit) (revoke_session B t p v)"
| "exec B (C_request_lease_scoped a n d p t tn) v =
     reply_with R_granted (request_lease_scoped B a n d p t tn v)"
| "exec B C_gc_sessions v = (case gc_sessions v of (n, w) \<Rightarrow> (R_count n, w))"

text \<open>A run: the calls made and the replies they got, oldest first.\<close>

inductive run ::
  "('k, 's, 'a) backends \<Rightarrow> ('k, 's, 'a) vault \<Rightarrow> (call \<times> reply) list \<Rightarrow> ('k, 's, 'a) vault \<Rightarrow> bool"
  for B v where
  run_nil: "run B v [] v"
| run_snoc: "run B v tr w \<Longrightarrow> exec B c w = (r, w') \<Longrightarrow> run B v (tr @ [(c, r)]) w'"

inductive_cases run_nilE: "run B v [] w"

definition granted :: "LeaseId \<Rightarrow> call \<times> reply \<Rightarrow> bool" where
  "granted i = (\<lambda>(c, r). case r of R_granted g \<Rightarrow> grant_lease_id g = i | _ \<Rightarrow> False)"

definition accessed :: "LeaseId \<Rightarrow> call \<times> reply \<Rightarrow> bool" where
  "accessed i = (\<lambda>(c, r). case r of R_guard g \<Rightarrow> guard_lease_id g = i | _ \<Rightarrow> False)"

section \<open>The invariant\<close>

text \<open>The policy admitted the lease's agent, secret and domain, and fixed its terms.\<close>

definition authorised :: "PolicyEngine \<Rightarrow> Lease \<Rightarrow> bool" where
  "authorised p l \<longleftrightarrow>
     (\<exists>d terms. l_allowed_domains l = [d] \<and> evaluate p (l_agent l) (l_secret_name l) d = Inr terms \<and>
        l_max_uses l = max_uses terms \<and> l_renewable l = renewable terms)"

definition entry_ok :: "PolicyEngine \<Rightarrow> LeaseId \<times> Lease \<Rightarrow> bool" where
  "entry_ok p = (\<lambda>(k, l). l_id l = k \<and> lease_inv l \<and> authorised p l)"

definition vault_inv :: "('k, 's, 'a) vault \<Rightarrow> bool" where
  "vault_inv v \<longleftrightarrow>
     distinct (map fst (v_leases v)) \<and> distinct (map fst (v_sessions v)) \<and>
     (\<forall>p\<in>set (v_leases v). entry_ok (v_policy v) p) \<and>
     (\<forall>a. active_count v a \<le> v_max_leases_per_agent v)"

lemma vault_inv_init: "vault_inv (with_max_leases_per_agent m (Vault_new k s a p alg e))"
  by (simp add: vault_inv_def with_max_leases_per_agent_def Vault_new_def active_count_def)

text \<open>Counting active leases in an association list.\<close>

definition active_of :: "AgentId \<Rightarrow> (LeaseId \<times> Lease) list \<Rightarrow> nat" where
  "active_of a ls = length (filter (\<lambda>l. l_agent l = a \<and> \<not> l_revoked l) (map snd ls))"

lemma active_count_of: "active_count v a = active_of a (v_leases v)"
  by (simp add: active_count_def active_of_def)

lemma active_of_update_present:
  "map_of ls k = Some l \<Longrightarrow>
    active_of a (AList.update k l' ls) + (if l_agent l = a \<and> \<not> l_revoked l then 1 else 0) =
    active_of a ls + (if l_agent l' = a \<and> \<not> l_revoked l' then 1 else 0)"
  by (induction ls) (auto simp: active_of_def split: if_splits)

lemma active_of_update_le:
  "active_of a (AList.update k l ls) \<le> active_of a ls + (if l_agent l = a \<and> \<not> l_revoked l then 1 else 0)"
  by (induction ls) (auto simp: active_of_def)

lemma active_of_revoke: "active_of a (map (\<lambda>(k, l). (k, if c l then revoke l else l)) ls) \<le> active_of a ls"
proof (induction ls)
  case (Cons x ls)
  then show ?case by (cases x; cases "c (snd x)") (auto simp: active_of_def)
qed simp

lemma active_of_subseq: "subseq ls ls' \<Longrightarrow> active_of a ls \<le> active_of a ls'"
  unfolding active_of_def by (intro list_emb_length) (auto intro: subseq_filter subseq_map)

lemma set_update_subset: "set (AList.update k x al) \<subseteq> insert (k, x) (set al)"
  by (induction al) auto

text \<open>How a lease table may change: entries stay well-formed and the caps hold.\<close>

definition leases_ok :: "PolicyEngine \<Rightarrow> nat \<Rightarrow> (LeaseId \<times> Lease) list \<Rightarrow> bool" where
  "leases_ok p m ls \<longleftrightarrow>
     distinct (map fst ls) \<and> (\<forall>x\<in>set ls. entry_ok p x) \<and> (\<forall>a. active_of a ls \<le> m)"

lemma vault_inv_alt:
  "vault_inv v \<longleftrightarrow>
     leases_ok (v_policy v) (v_max_leases_per_agent v) (v_leases v) \<and> distinct (map fst (v_sessions v))"
  by (auto simp: vault_inv_def leases_ok_def active_count_of)

lemma leases_ok_entry: "leases_ok p m ls \<Longrightarrow> map_of ls k = Some l \<Longrightarrow> entry_ok p (k, l)"
  unfolding leases_ok_def by (meson map_of_SomeD)

text \<open>Replacing a lease by one that is well-formed and no more active.\<close>

lemma leases_ok_replace:
  assumes "leases_ok p m ls" and "map_of ls k = Some l" and "entry_ok p (k, l')"
    and "l_agent l' = l_agent l" and "l_revoked l \<Longrightarrow> l_revoked l'"
  shows "leases_ok p m (AList.update k l' ls)"
proof -
  have "active_of a (AList.update k l' ls) \<le> active_of a ls" for a
    using active_of_update_present [OF assms(2), of a l'] assms(4,5) by (auto split: if_splits)
  moreover have "\<forall>a. active_of a ls \<le> m" "distinct (map fst ls)" "\<forall>x\<in>set ls. entry_ok p x"
    using assms(1) by (simp_all add: leases_ok_def)
  ultimately show ?thesis
    using set_update_subset [of k l' ls] assms(3)
    unfolding leases_ok_def by (metis distinct_update insertE order_trans subsetD)
qed

lemma leases_ok_add:
  assumes "leases_ok p m ls" and "entry_ok p (k, l)" and "active_of (l_agent l) ls < m"
  shows "leases_ok p m (AList.update k l ls)"
proof -
  have "active_of a (AList.update k l ls) \<le> m" for a
    using active_of_update_le [of a k l ls] assms(1,3) unfolding leases_ok_def
    by (cases "l_agent l = a") (auto split: if_splits intro: order_trans)
  then show ?thesis
    using set_update_subset [of k l ls] assms(1,2)
    unfolding leases_ok_def by (auto simp: distinct_update)
qed

lemma entry_ok_same:
  assumes "entry_ok p (k, l)" and "l_id l' = l_id l" "l_agent l' = l_agent l"
    "l_secret_name l' = l_secret_name l" "l_allowed_domains l' = l_allowed_domains l"
    "l_max_uses l' = l_max_uses l" "l_renewable l' = l_renewable l" "lease_inv l'"
  shows "entry_ok p (k, l')"
  using assms by (simp add: entry_ok_def authorised_def)

lemma leases_ok_revoke:
  assumes "leases_ok p m ls"
  shows "leases_ok p m (map (\<lambda>(k, l). (k, if c l then revoke l else l)) ls)"
proof -
  have "entry_ok p (k, if c l then revoke l else l)" if "(k, l) \<in> set ls" for k l
    using that assms by (auto simp: leases_ok_def lease_inv_revoke entry_ok_def intro: entry_ok_same [of p k l]
        split: if_splits) (auto simp: authorised_def)
  moreover have "active_of a (map (\<lambda>(k, l). (k, if c l then revoke l else l)) ls) \<le> m" for a
    using active_of_revoke [of a c ls] assms unfolding leases_ok_def by (meson order_trans)
  moreover have "map fst (map (\<lambda>(k, l). (k, if c l then revoke l else l)) ls) = map fst ls"
    by (induction ls) auto
  ultimately show ?thesis using assms by (auto simp: leases_ok_def simp del: map_map)
qed

lemma subseq_set: "subseq xs ys \<Longrightarrow> set xs \<subseteq> set ys"
  using list_emb_set [of "(=)" xs ys] by blast

lemma distinct_subseq: "subseq xs ys \<Longrightarrow> distinct ys \<Longrightarrow> distinct xs"
  by (induction rule: list_emb.induct) (auto dest: subseq_set)

lemma leases_ok_subseq:
  assumes "leases_ok p m ls" and "subseq ls' ls"
  shows "leases_ok p m ls'"
proof -
  have "distinct (map fst ls')"
    using assms distinct_subseq [OF subseq_map [OF assms(2)]] by (auto simp: leases_ok_def)
  moreover have "set ls' \<subseteq> set ls" using assms(2) by (rule subseq_set)
  moreover have "active_of a ls' \<le> m" for a
    using active_of_subseq [OF assms(2), of a] assms(1) unfolding leases_ok_def by (meson order_trans)
  ultimately show ?thesis using assms(1) by (auto simp: leases_ok_def)
qed

lemma entry_ok_issued:
  assumes "issued_as l a n d t" and "evaluate p a n d = Inr t"
  shows "entry_ok p (l_id l, l)" "entry_ok p (l_id l, l\<lparr>l_session_id := s\<rparr>)"
  using assms issued_asD [OF assms(1)]
  by (auto simp: entry_ok_def authorised_def lease_inv_def split: option.splits)

lemma lease_inv_use:
  "lease_inv l \<Longrightarrow> \<not> use_limit_reached l \<Longrightarrow> lease_inv (l\<lparr>l_use_count := l_use_count l + 1\<rparr>)"
  by (rule lease_inv_record_use) (auto simp: record_use_Inr)

section \<open>Every call preserves the invariant\<close>

lemma snd_reply_with [simp]: "snd (reply_with f x) = snd x"
  by (simp add: reply_with_def case_prod_beta)

lemma reply_with_eq:
  "reply_with f x = (rep, w) \<longleftrightarrow>
     (\<exists>e. x = (Inl e, w) \<and> rep = R_error e) \<or> (\<exists>y. x = (Inr y, w) \<and> rep = f y)"
  by (cases x; cases "fst x") (auto simp: reply_with_def)

lemma reply_with_state: "reply_with f x = (rep, w) \<Longrightarrow> \<exists>r. x = (r, w)"
  by (auto simp: reply_with_eq)

lemma inv_same_tables: "vault_inv v \<Longrightarrow> same_tables v w \<Longrightarrow> vault_inv w"
  by (simp add: vault_inv_def same_tables_def active_count_def)

lemma vault_invD:
  assumes "vault_inv v"
  shows "distinct (map fst (v_leases v))" "distinct (map fst (v_sessions v))"
    "leases_ok (v_policy v) (v_max_leases_per_agent v) (v_leases v)"
    "\<And>i l. map_of (v_leases v) i = Some l \<Longrightarrow> entry_ok (v_policy v) (i, l)"
  using assms by (auto simp: vault_inv_alt leases_ok_def dest: map_of_SomeD)

lemma inv_lease_change:
  assumes "vault_inv v" and "same_settings v w"
    and "leases_ok (v_policy v) (v_max_leases_per_agent v) (v_leases w)"
    and "distinct (map fst (v_sessions w))"
  shows "vault_inv w"
  using assms by (simp add: vault_inv_alt same_settings_def)

lemma inv_request_lease:
  assumes "vault_inv v" and "request_lease B a n d p v = (r, w)"
  shows "vault_inv w"
  using request_lease_effect [OF assms(2)] vault_invD [OF assms(1)] assms(1)
  by (cases r) (auto intro!: inv_lease_change [OF assms(1)] leases_ok_add
      simp: active_count_of entry_ok_issued dest: issued_asD)

lemma inv_access_secret:
  assumes "vault_inv v" and "access_secret B i h p v = (r, w)"
  shows "vault_inv w"
proof -
  note inv = vault_invD [OF assms(1)]
  have "leases_ok (v_policy v) (v_max_leases_per_agent v)
      (AList.update i (l\<lparr>l_use_count := l_use_count l + 1\<rparr>) (v_leases v))"
    if "map_of (v_leases v) i = Some l" "valid_at l h now" for l now
  proof (rule leases_ok_replace [OF inv(3) that(1)])
    have "entry_ok (v_policy v) (i, l)" by (rule inv(4) [OF that(1)])
    then show "entry_ok (v_policy v) (i, l\<lparr>l_use_count := l_use_count l + 1\<rparr>)"
      using that(2) by (auto simp: entry_ok_def authorised_def valid_at_def lease_inv_use)
  qed auto
  then show ?thesis
    using access_secret_effect [OF assms(2)] inv by (auto intro!: inv_lease_change [OF assms(1)])
qed

lemma inv_revoke_lease:
  assumes "vault_inv v" and "revoke_lease B i rs p v = (r, w)"
  shows "vault_inv w"
proof (cases "map_of (v_leases v) i")
  case None
  then show ?thesis using revoke_lease_effect [OF assms(2)] assms(1) by simp
next
  case (Some l)
  note inv = vault_invD [OF assms(1)]
  have "entry_ok (v_policy v) (i, revoke l)"
    using inv(4) [OF Some] by (auto simp: entry_ok_def authorised_def lease_inv_revoke)
  then have "leases_ok (v_policy v) (v_max_leases_per_agent v) (AList.update i (revoke l) (v_leases v))"
    by (intro leases_ok_replace [OF inv(3) Some]) auto
  then show ?thesis
    using revoke_lease_effect [OF assms(2)] Some inv(2) by (auto intro!: inv_lease_change [OF assms(1)])
qed

lemma inv_renew_lease:
  assumes "vault_inv v" and "renew_lease B i secs p v = (r, w)"
  shows "vault_inv w"
proof -
  note inv = vault_invD [OF assms(1)]
  have "leases_ok (v_policy v) (v_max_leases_per_agent v)
      (AList.update i (l\<lparr>l_expires_at := x, l_renewal_count := y\<rparr>) (v_leases v))"
    if "map_of (v_leases v) i = Some l" for l x y
    using inv(4) [OF that]
    by (intro leases_ok_replace [OF inv(3) that])
      (auto simp: entry_ok_def authorised_def lease_inv_def split: option.splits)
  then show ?thesis
    using renew_lease_effect [OF assms(2)] inv by (auto intro!: inv_lease_change [OF assms(1)])
qed

lemma inv_cascades:
  assumes "vault_inv v"
  shows "revoke_all_for_agent B a p v = (r, w) \<Longrightarrow> vault_inv w"
    and "delete_secret B n p v = (r', w) \<Longrightarrow> vault_inv w"
    and "revoke_session B t p v = (r', w) \<Longrightarrow> vault_inv w"
proof -
  note inv = vault_invD [OF assms]
  show "revoke_all_for_agent B a p v = (r, w) \<Longrightarrow> vault_inv w"
    using revoke_all_for_agent_effect [OF inv(1)] inv
    by (auto intro!: inv_lease_change [OF assms] leases_ok_revoke)
  show "delete_secret B n p v = (r', w) \<Longrightarrow> vault_inv w"
    using delete_secret_effect [OF inv(1)] inv
    by (auto intro!: inv_lease_change [OF assms] leases_ok_revoke)
  show "revoke_session B t p v = (r', w) \<Longrightarrow> vault_inv w"
    using revoke_session_effect [OF inv(1), of B t p r' w] inv assms
    by (auto intro!: inv_lease_change [OF assms] leases_ok_revoke simp: distinct_update split: option.splits)
qed

lemma inv_request_lease_scoped:
  assumes "vault_inv v" and "request_lease_scoped B a n d p t tn v = (r, w)"
  shows "vault_inv w"
  using request_lease_scoped_effect [OF assms(2)] vault_invD [OF assms(1)]
  by (cases r) (auto intro!: inv_lease_change [OF assms(1)] leases_ok_add
      simp: active_count_of entry_ok_issued distinct_update issued_asD(1))

lemma inv_gc:
  assumes "vault_inv v"
  shows "gc_leases v = (n, w) \<Longrightarrow> vault_inv w" and "gc_sessions v = (n, w) \<Longrightarrow> vault_inv w"
proof -
  note inv = vault_invD [OF assms]
  show "gc_leases v = (n, w) \<Longrightarrow> vault_inv w"
    using gc_leases_effect [of v n w] inv
    by (auto intro!: inv_lease_change [OF assms] intro: leases_ok_subseq)
  show "gc_sessions v = (n, w) \<Longrightarrow> vault_inv w"
    using gc_sessions_effect [of v n w] inv distinct_subseq [OF subseq_map, of "v_sessions w" "v_sessions v" fst]
    by (auto intro!: inv_lease_change [OF assms])
qed

lemma inv_create_session:
  "vault_inv v \<Longrightarrow> create_session B u c sp p v = (r, w) \<Longrightarrow> vault_inv w"
  using create_session_effect [of B u c sp p v r w] vault_invD [of v]
  by (auto intro!: inv_lease_change [of v w] simp: distinct_update)

lemmas inv_operations = inv_request_lease inv_access_secret inv_revoke_lease inv_renew_lease
  inv_cascades inv_request_lease_scoped inv_gc inv_create_session

lemma exec_inv:
  assumes "vault_inv v" and "exec B c v = (rep, w)"
  shows "vault_inv w"
  using assms
  by (cases c) (auto split: prod.splits dest!: reply_with_state
      intro: inv_operations inv_same_tables [OF assms(1)]
        tablelessD [OF tableless_operations(1)] tablelessD [OF tableless_operations(2)]
        tablelessD [OF tableless_operations(3)] tablelessD [OF tableless_operations(4)]
        tablelessD [OF tableless_validate_session])

lemma run_inv: "run B v tr w \<Longrightarrow> vault_inv v \<Longrightarrow> vault_inv w"
  by (induction rule: run.induct) (auto intro: exec_inv)

section \<open>The life of one lease\<close>

definition same_lease :: "Lease \<Rightarrow> Lease \<Rightarrow> bool" where
  "same_lease l l' \<longleftrightarrow>
     l_id l' = l_id l \<and> l_agent l' = l_agent l \<and> l_secret_name l' = l_secret_name l \<and>
     l_allowed_domains l' = l_allowed_domains l \<and> l_max_uses l' = l_max_uses l \<and>
     l_renewable l' = l_renewable l \<and> (l_revoked l \<longrightarrow> l_revoked l')"

text \<open>
  One call as one lease sees it, when the call does not issue a lease of the same id:
  it may be collected, it may change in ways that keep its identity, and a call that
  hands out the secret counts one use of a live lease below its limit.
\<close>

definition lease_next :: "Lease option \<Rightarrow> bool \<Rightarrow> Lease option \<Rightarrow> bool" where
  "lease_next x acc y \<longleftrightarrow>
     (case x of
        None \<Rightarrow> y = None \<and> \<not> acc
      | Some l \<Rightarrow>
          y = None \<and> \<not> acc \<or>
          (\<exists>l'. y = Some l' \<and> same_lease l l' \<and>
             (l_use_count l' = l_use_count l \<and> \<not> acc \<or>
              \<not> use_limit_reached l \<and> \<not> l_revoked l \<and> l_use_count l' = l_use_count l + 1)))"

lemma lease_next_refl [simp]: "lease_next x False x"
  by (cases x) (auto simp: lease_next_def same_lease_def)

lemma lease_next_revoke: "lease_next x False (map_option (\<lambda>l. if c l then revoke l else l) x)"
  by (cases x) (auto simp: lease_next_def same_lease_def)

lemma lease_next_cascade:
  "lease_next (map_of ls i) False (map_of (map (\<lambda>(k, l). (k, if c l then revoke l else l)) ls) i)"
  unfolding map_of_map_values [of "\<lambda>l. if c l then revoke l else l"] by (rule lease_next_revoke)

lemma lease_next_subseq:
  assumes "distinct (map fst ls)" and "subseq ls' ls"
  shows "lease_next (map_of ls i) False (map_of ls' i)"
proof (cases "map_of ls' i")
  case None
  then show ?thesis by (cases "map_of ls i") (auto simp: lease_next_def)
next
  case (Some l)
  then have "(i, l) \<in> set ls" using subseq_set [OF assms(2)] map_of_SomeD by fastforce
  then have "map_of ls i = Some l" using assms(1) by (rule map_of_is_SomeI [rotated])
  then show ?thesis using Some by simp
qed

lemma lease_next_update:
  assumes "map_of ls k = Some l" and "k = i \<Longrightarrow> lease_next (Some l) acc (Some l')" and "k \<noteq> i \<Longrightarrow> \<not> acc"
  shows "lease_next (map_of ls i) acc (map_of (AList.update k l' ls) i)"
  using assms by (cases "k = i") (auto simp: update_conv')

lemma accessed_simps [simp]:
  "accessed i (c, R_error e) = False" "accessed i (c, R_unit) = False"
  "accessed i (c, R_granted g) = False" "accessed i (c, R_renewed g) = False"
  "accessed i (c, R_count n) = False" "accessed i (c, R_metadata md) = False"
  "accessed i (c, R_list ms) = False" "accessed i (c, R_session t sid) = False"
  "accessed i (c, R_valid s) = False" "accessed i (c, R_guard gd) = (guard_lease_id gd = i)"
  by (simp_all add: accessed_def)

lemma granted_simps [simp]:
  "granted i (c, R_granted g) = (grant_lease_id g = i)" "granted i (c, R_error e) = False"
  by (simp_all add: granted_def)

lemma next_access:
  assumes "access_secret B k h p v = (r, w)"
  shows "lease_next (map_of (v_leases v) i) (is_ok r \<and> k = i) (map_of (v_leases w) i)"
proof -
  have "lease_next (map_of (v_leases v) i) (is_ok r \<and> k = i)
      (map_of (AList.update k (l\<lparr>l_use_count := l_use_count l + 1\<rparr>) (v_leases v)) i)"
    if "map_of (v_leases v) k = Some l" "valid_at l h now" for l now
    using that by (intro lease_next_update) (auto simp: lease_next_def same_lease_def valid_at_def)
  then show ?thesis using access_secret_effect [OF assms] by auto
qed

lemma next_renew:
  assumes "renew_lease B k secs p v = (r, w)"
  shows "lease_next (map_of (v_leases v) i) False (map_of (v_leases w) i)"
proof -
  have "lease_next (map_of (v_leases v) i) False
      (map_of (AList.update k (l\<lparr>l_expires_at := x, l_renewal_count := y\<rparr>) (v_leases v)) i)"
    if "map_of (v_leases v) k = Some l" for l x y
    using that by (intro lease_next_update) (auto simp: lease_next_def same_lease_def)
  then show ?thesis using renew_lease_effect [OF assms] by auto
qed

lemma next_revoke:
  assumes "revoke_lease B k rs p v = (r, w)"
  shows "lease_next (map_of (v_leases v) i) False (map_of (v_leases w) i)"
proof (cases "map_of (v_leases v) k")
  case (Some l)
  have "lease_next (map_of (v_leases v) i) False (map_of (AList.update k (revoke l) (v_leases v)) i)"
    by (rule lease_next_update [OF Some]) (auto simp: lease_next_def same_lease_def)
  then show ?thesis using revoke_lease_effect [OF assms] Some by simp
qed (use revoke_lease_effect [OF assms] in simp)

lemma next_request:
  assumes "request_lease B a n d p v = (r, w)" and "\<And>g. r = Inr g \<Longrightarrow> grant_lease_id g \<noteq> i"
  shows "map_of (v_leases w) i = map_of (v_leases v) i"
  using request_lease_effect [OF assms(1)] assms(2)
  by (cases r) (auto simp: update_conv' LeaseGrant_from_def)

lemma next_request_scoped:
  assumes "request_lease_scoped B a n d p t tn v = (r, w)" and "\<And>g. r = Inr g \<Longrightarrow> grant_lease_id g \<noteq> i"
  shows "map_of (v_leases w) i = map_of (v_leases v) i"
  using request_lease_scoped_effect [OF assms(1)] assms(2)
  by (cases r) (auto simp: update_conv' LeaseGrant_from_def)

lemma next_tableless: "tableless m \<Longrightarrow> m v = (r, w) \<Longrightarrow> v_leases w = v_leases v"
  by (blast dest: tablelessD same_tablesD)

lemma exec_lease_next:
  assumes "vault_inv v" and "exec B c v = (rep, w)" and "\<not> granted i (c, rep)"
  shows "lease_next (map_of (v_leases v) i) (accessed i (c, rep)) (map_of (v_leases w) i)"
proof -
  note d = vault_invD(1) [OF assms(1)]
  note t = tableless_operations [THEN next_tableless] tableless_validate_session [THEN next_tableless]
  show ?thesis
  proof (cases c)
    case (C_access_secret k h p)
    then obtain r where r: "access_secret B k h p v = (r, w)"
      "rep = (case r of Inl e \<Rightarrow> R_error e | Inr g \<Rightarrow> R_guard g)"
      using assms(2) by (auto simp: reply_with_eq)
    have "accessed i (c, rep) = (is_ok r \<and> k = i)"
      using access_secret_effect [OF r(1)] r(2) by (cases r) auto
    then show ?thesis using next_access [OF r(1), of i] by simp
  next
    case (C_request_lease a n dm p)
    then show ?thesis using assms next_request [of B a n dm p v _ w i] by (auto simp: reply_with_eq)
  next
    case (C_request_lease_scoped a n dm p tk tn)
    then show ?thesis using assms next_request_scoped [of B a n dm p tk tn v _ w i]
      by (auto simp: reply_with_eq)
  next
    case (C_revoke_session tk p)
    then obtain r where "revoke_session B tk p v = (r, w)" "\<not> accessed i (c, rep)"
      using assms(2) by (auto simp: reply_with_eq)
    with revoke_session_effect [OF d this(1)] show ?thesis
      by (auto simp: lease_next_cascade split: option.splits)
  next
    case (C_delete_secret n p)
    then show ?thesis using assms(2) delete_secret_effect [OF d, of B n p]
      by (auto simp: reply_with_eq lease_next_cascade)
  next
    case (C_revoke_all_for_agent a p)
    then show ?thesis using assms(2) revoke_all_for_agent_effect [OF d, of B a p]
      by (auto simp: reply_with_eq lease_next_cascade)
  next
    case C_gc_leases
    then show ?thesis using assms(2) gc_leases_effect(6) [of v] lease_next_subseq [OF d]
      by (auto split: prod.splits)
  next
    case C_gc_sessions
    then show ?thesis using assms(2) gc_sessions_effect(2) [of v] by (auto split: prod.splits)
  next
    case (C_create_session u ch sp p)
    then show ?thesis using assms(2) create_session_effect [of B u ch sp p v] by (auto simp: reply_with_eq)
  next
    case (C_renew_lease k s p)
    then show ?thesis using assms(2) next_renew [of B k s p v] by (auto simp: reply_with_eq)
  next
    case (C_revoke_lease k rs p)
    then show ?thesis using assms(2) next_revoke [of B k rs p v] by (auto simp: reply_with_eq)
  qed (use assms(2) in \<open>auto simp: reply_with_eq dest: t\<close>)
qed

text \<open>The same along a run.\<close>

lemma run_lease_count:
  assumes "run B v tr w" and "vault_inv v" and "map_of (v_leases v) i = Some l"
    and "l_max_uses l = Some m" and "\<forall>x\<in>set tr. \<not> granted i x"
  shows "case map_of (v_leases w) i of
      None \<Rightarrow> length (filter (accessed i) tr) + unat (l_use_count l) \<le> unat m
    | Some l' \<Rightarrow> same_lease l l' \<and> length (filter (accessed i) tr) + unat (l_use_count l) \<le> unat (l_use_count l')"
  using assms(1,5)
proof (induction rule: run.induct)
  case run_nil
  then show ?case using assms(3) by (simp add: same_lease_def)
next
  case (run_snoc tr w c r w')
  have inv: "vault_inv w" by (rule run_inv [OF run_snoc(1) assms(2)])
  have nxt: "lease_next (map_of (v_leases w) i) (accessed i (c, r)) (map_of (v_leases w') i)"
    using exec_lease_next [OF inv run_snoc(2)] run_snoc(4) by simp
  show ?case
  proof (cases "map_of (v_leases w) i")
    case None
    then show ?thesis using nxt run_snoc by (auto simp: lease_next_def)
  next
    case (Some l1)
    have IH: "same_lease l l1" "length (filter (accessed i) tr) + unat (l_use_count l) \<le> unat (l_use_count l1)"
      using run_snoc Some by auto
    then have m: "l_max_uses l1 = Some m" using assms(4) by (simp add: same_lease_def)
    have le: "unat (l_use_count l1) \<le> unat m"
      using vault_invD(4) [OF inv Some] m by (simp add: entry_ok_def lease_inv_def word_le_nat_alt)
    have "unat (l_use_count l1 + 1) = Suc (unat (l_use_count l1))" if "\<not> use_limit_reached l1"
      using record_use_counts [of l1 "l1\<lparr>l_use_count := l_use_count l1 + 1\<rparr>" m] that m
      by (simp add: record_use_Inr)
    then show ?thesis using nxt Some IH le by (auto simp: lease_next_def same_lease_def split: if_splits)
  qed
qed

lemma run_lease_gone:
  assumes "run B v tr w" and "vault_inv v"
    and "\<And>l. map_of (v_leases v) i = Some l \<Longrightarrow> l_revoked l" and "\<forall>x\<in>set tr. \<not> granted i x"
  shows "(\<forall>l. map_of (v_leases w) i = Some l \<longrightarrow> l_revoked l) \<and> (\<forall>x\<in>set tr. \<not> accessed i x)"
  using assms(1,4)
proof (induction rule: run.induct)
  case run_nil
  then show ?case using assms(3) by simp
next
  case (run_snoc tr w c r w')
  have inv: "vault_inv w" by (rule run_inv [OF run_snoc(1) assms(2)])
  have "lease_next (map_of (v_leases w) i) (accessed i (c, r)) (map_of (v_leases w') i)"
    using exec_lease_next [OF inv run_snoc(2)] run_snoc(4) by simp
  then show ?case using run_snoc
    by (cases "map_of (v_leases w) i") (auto simp: lease_next_def same_lease_def)
qed

end
