(* ===== verification/Server.thy ===== *)
theory Server
  imports Protocol Auth Vault_Traces
begin

text \<open>
  The server (\<^verbatim>\<open>src/server.rs\<close>): dispatch of one request to the vault, the life of one
  connection (handshake, authentication, request loop) and the accept loop. A connection
  runs without interleaving with others; its state is the reader, the writer and the vault.
\<close>

section \<open>Dispatch\<close>

text \<open>The macros \<^verbatim>\<open>parse_params!\<close> and \<^verbatim>\<open>json_response!\<close>.\<close>

definition parse_params ::
  "('j \<Rightarrow> string + 'p) \<Rightarrow> 'j Request \<Rightarrow> ('p \<Rightarrow> 'v \<Rightarrow> 'j Response \<times> 'v) \<Rightarrow> 'v \<Rightarrow> 'j Response \<times> 'v" where
  "parse_params parse request k v =
     (case parse (rq_params request) of
        Inr r \<Rightarrow> k r v
      | Inl m \<Rightarrow> (protocol_error (rq_id request) CODE_INVALID_REQUEST (''invalid params: '' @ m), v))"

definition json_response ::
  "(uuid \<Rightarrow> string) \<Rightarrow> uuid \<Rightarrow> ('x \<Rightarrow> string + 'j) \<Rightarrow> 'x result \<Rightarrow> 'j Response" where
  "json_response us i to_value result =
     (case result of
        Inr value \<Rightarrow>
          (case to_value value of
             Inr j \<Rightarrow> success i j
           | Inl m \<Rightarrow> protocol_error i CODE_INVALID_REQUEST (''serialization failed: '' @ m))
      | Inl e \<Rightarrow> from_error us i e)"

definition unit_response :: "(uuid \<Rightarrow> string) \<Rightarrow> 'j serde \<Rightarrow> uuid \<Rightarrow> unit result \<Rightarrow> 'j Response" where
  "unit_response us J i result =
     (case result of Inr _ \<Rightarrow> success i (j_empty J) | Inl e \<Rightarrow> from_error us i e)"

definition ADMIN_METHODS :: "string list" where
  "ADMIN_METHODS = [STORE_SECRET, DELETE_SECRET, LIST_SECRETS]"

definition resolve_agent :: "ConnectionIdentity \<Rightarrow> string \<Rightarrow> AgentId" where
  "resolve_agent identity requested =
     (case ci_role identity of
        Agent \<Rightarrow> (case ci_agent_id identity of Some a \<Rightarrow> a | None \<Rightarrow> AgentId requested)
      | _ \<Rightarrow> AgentId requested)"

text \<open>\<^verbatim>\<open>m.await\<close> followed by a pure function of its result.\<close>

definition answer :: "('x result \<Rightarrow> 'j Response) \<Rightarrow> 'x result \<times> 'v \<Rightarrow> 'j Response \<times> 'v" where
  "answer f = (\<lambda>(r, v). (f r, v))"

definition dispatch_store ::
  "('k, 's, 'a) backends \<Rightarrow> 'j serde \<Rightarrow> 'j Request \<Rightarrow> PeerIdentity \<Rightarrow> 'j StoreSecretRequest \<Rightarrow>
    ('k, 's, 'a) vault \<Rightarrow> 'j Response \<times> ('k, 's, 'a) vault" where
  "dispatch_store B J request peer req v =
     (case b64_decode J (ssr_plaintext req) of
        Inl m \<Rightarrow> (protocol_error (rq_id request) CODE_INVALID_REQUEST (''invalid base64: '' @ m), v)
      | Inr plaintext \<Rightarrow>
         (case dec (j_kind J) (ssr_kind req) of
            Inl m \<Rightarrow> (protocol_error (rq_id request) CODE_INVALID_REQUEST (''invalid kind: '' @ m), v)
          | Inr kind \<Rightarrow>
              answer (json_response (be_us B) (rq_id request) (enc (j_metadata J)))
                (store_secret B (SecretName (ssr_name req)) plaintext kind (ssr_description req) peer v)))"

definition dispatch_revoke ::
  "('k, 's, 'a) backends \<Rightarrow> 'j serde \<Rightarrow> 'j Request \<Rightarrow> PeerIdentity \<Rightarrow> 'j RevokeLeaseRequest \<Rightarrow>
    ('k, 's, 'a) vault \<Rightarrow> 'j Response \<times> ('k, 's, 'a) vault" where
  "dispatch_revoke B J request peer req v =
     (case dec (j_reason J) (rvr_reason req) of
        Inl m \<Rightarrow> (protocol_error (rq_id request) CODE_INVALID_REQUEST (''invalid reason: '' @ m), v)
      | Inr reason \<Rightarrow>
          answer (unit_response (be_us B) J (rq_id request))
            (revoke_lease B (LeaseId (rvr_lease_id req)) reason peer v))"

text \<open>The secret of a guard, base64-encoded, as the result of \<^verbatim>\<open>access_secret\<close>.\<close>

definition access_response ::
  "(uuid \<Rightarrow> string) \<Rightarrow> 'j serde \<Rightarrow> uuid \<Rightarrow> LeaseGuard result \<Rightarrow> 'j Response" where
  "access_response us J i result =
     (case result of
        Inr guard \<Rightarrow>
          json_response us i (enc (j_access_result J))
            (Inr \<lparr>asr_secret = expose guard (\<lambda>s. b64_encode J (as_bytes s))\<rparr>)
      | Inl e \<Rightarrow> from_error us i e)"

text \<open>The listed metadata; an entry that does not serialize is left out.\<close>

definition list_response ::
  "(uuid \<Rightarrow> string) \<Rightarrow> 'j serde \<Rightarrow> uuid \<Rightarrow> SecretMetadata list result \<Rightarrow> 'j Response" where
  "list_response us J i result =
     json_response us i (enc (j_list_result J))
       (case result of
          Inl e \<Rightarrow> Inl e
        | Inr secrets \<Rightarrow>
            Inr \<lparr>lsr_secrets = List.map_filter
              (\<lambda>s. case enc (j_metadata J) s of Inr j \<Rightarrow> Some j | Inl _ \<Rightarrow> None) secrets\<rparr>)"

definition dispatch ::
  "('k, 's, 'a) backends \<Rightarrow> 'j serde \<Rightarrow> 'j Request \<Rightarrow> PeerIdentity \<Rightarrow> ConnectionIdentity \<Rightarrow>
    ('k, 's, 'a) vault \<Rightarrow> 'j Response \<times> ('k, 's, 'a) vault" where
  "dispatch B J request peer identity v =
     (let i = rq_id request; m = rq_method request; us = be_us B in
      if m \<in> set ADMIN_METHODS \<and> ci_role identity \<noteq> Admin then
        (from_error us i
           (AccessDenied
              (case ci_agent_id identity of Some a \<Rightarrow> a | None \<Rightarrow> AgentId (ci_label identity))
              (SecretName m) (DomainScope ''admin'')), v)
      else if m = STORE_SECRET then
        parse_params (dec (j_store J)) request (dispatch_store B J request peer) v
      else if m = REQUEST_LEASE then
        parse_params (dec (j_request_lease J)) request (\<lambda>req v.
          answer (json_response us i (enc (j_grant J)))
            (request_lease B (resolve_agent identity (rlr_agent req)) (SecretName (rlr_secret_name req))
              (DomainScope (rlr_domain req)) peer v)) v
      else if m = ACCESS_SECRET then
        parse_params (dec (j_access J)) request (\<lambda>req v.
          answer (access_response us J i)
            (access_secret B (LeaseId (asr_lease_id req)) (asr_target_domain req) peer v)) v
      else if m = REVOKE_LEASE then
        parse_params (dec (j_revoke J)) request (dispatch_revoke B J request peer) v
      else if m = REVOKE_ALL_FOR_AGENT then
        parse_params (dec (j_revoke_all J)) request (\<lambda>req v.
          answer (\<lambda>r. json_response us i (enc (j_revoke_all_result J))
              (case r of Inl e \<Rightarrow> Inl e | Inr n \<Rightarrow> Inr \<lparr>rar_revoked_count = n\<rparr>))
            (revoke_all_for_agent B (resolve_agent identity (rar_agent req)) peer v)) v
      else if m = LIST_SECRETS then
        answer (list_response us J i) (list_secrets B v)
      else if m = RENEW_LEASE then
        parse_params (dec (j_renew J)) request (\<lambda>req v.
          answer (json_response us i (enc (j_grant J)))
            (renew_lease B (LeaseId (rnr_lease_id req)) (rnr_extension_secs req) peer v)) v
      else if m = DELETE_SECRET then
        parse_params (dec (j_delete J)) request (\<lambda>req v.
          answer (unit_response us J i) (delete_secret B (SecretName (dsr_name req)) peer v)) v
      else (protocol_error i CODE_INVALID_REQUEST (''unknown method: '' @ m), v))"

section \<open>Connections\<close>

record ('k, 's, 'a) conn =
  cn_reader :: reader
  cn_writer :: writer
  cn_vault :: "('k, 's, 'a) vault"

definition on_reader :: "(reader, Error, 'x) op \<Rightarrow> (('k, 's, 'a) conn, Error, 'x) op" where
  "on_reader m c = (case m (cn_reader c) of (r, x) \<Rightarrow> (r, c\<lparr>cn_reader := x\<rparr>))"

definition on_writer :: "(writer, Error, 'x) op \<Rightarrow> (('k, 's, 'a) conn, Error, 'x) op" where
  "on_writer m c = (case m (cn_writer c) of (r, x) \<Rightarrow> (r, c\<lparr>cn_writer := x\<rparr>))"

text \<open>\<^verbatim>\<open>str::contains\<close>.\<close>

definition contains :: "string \<Rightarrow> string \<Rightarrow> bool" where
  "contains s t \<longleftrightarrow> list_ex (\<lambda>i. starts_with (drop i s) t) [0..<Suc (length s)]"

text \<open>\<^verbatim>\<open>serde_json::to_vec(&resp).unwrap_or_default()\<close>, written with errors ignored.\<close>

definition send_protocol_error :: "'j serde \<Rightarrow> string \<Rightarrow> ('k, 's, 'a) conn \<Rightarrow> ('k, 's, 'a) conn" where
  "send_protocol_error J message c =
     snd (on_writer (write_frame
       (case enc (j_response J) (protocol_error 0 CODE_INVALID_REQUEST message) of Inr b \<Rightarrow> b | Inl _ \<Rightarrow> [])) c)"

definition send_hello :: "'j serde \<Rightarrow> ServerHello \<Rightarrow> (('k, 's, 'a) conn, Error, unit) op" where
  "send_hello J hello =
     try_op (of_result (case enc (j_server_hello J) hello of
         Inl m \<Rightarrow> Inl (Transport (''failed to serialize ServerHello: '' @ m)) | Inr b \<Rightarrow> Inr b)) (\<lambda>b.
     on_writer (write_frame b))"

lemma length_frame_of [simp]: "length (frame_of d) = 4 + length d"
  by (simp add: frame_of_def)

lemma on_reader_frame_less:
  "on_reader read_frame c = (Inr frame, c1) \<Longrightarrow>
    length (rd_bytes (cn_reader c1)) < length (rd_bytes (cn_reader c))"
  by (auto simp: on_reader_def split: prod.splits dest!: read_frame_Inr)

lemma on_writer_reader [simp]: "cn_reader (snd (on_writer m c)) = cn_reader c"
  by (simp add: on_writer_def case_prod_beta)

lemma on_writer_keeps_reader: "on_writer m c = (r, c') \<Longrightarrow> cn_reader c' = cn_reader c"
  by (metis on_writer_reader snd_conv)

lemma send_protocol_error_reader [simp]: "cn_reader (send_protocol_error J m c) = cn_reader c"
  by (simp add: send_protocol_error_def)

text \<open>The request loop. Each round takes a frame off the stream, so the loop ends.\<close>

function request_loop ::
  "('k, 's, 'a) backends \<Rightarrow> 'j serde \<Rightarrow> PeerIdentity \<Rightarrow> ConnectionIdentity \<Rightarrow>
    ('k, 's, 'a) conn \<Rightarrow> unit result \<times> ('k, 's, 'a) conn" where
  "request_loop B J peer identity c =
     (case on_reader read_frame c of
        (Inl e, c1) \<Rightarrow>
          if contains (show_Error (be_us B) e) ''unexpected EOF'' then (Inr (), c1)
          else (Inr (), send_protocol_error J (''frame error: '' @ show_Error (be_us B) e) c1)
      | (Inr frame, c1) \<Rightarrow>
         (case dec (j_request J) frame of
            Inl m \<Rightarrow> request_loop B J peer identity (send_protocol_error J (''invalid request: '' @ m) c1)
          | Inr request \<Rightarrow>
             (case dispatch B J request peer identity (cn_vault c1) of
                (response, v) \<Rightarrow>
                  (case enc (j_response J) response of
                     Inl m \<Rightarrow>
                       (Inl (Transport (''failed to serialize response: '' @ m)), c1\<lparr>cn_vault := v\<rparr>)
                   | Inr b \<Rightarrow>
                      (case on_writer (write_frame b) (c1\<lparr>cn_vault := v\<rparr>) of
                         (Inl e, c2) \<Rightarrow> (Inl e, c2)
                       | (Inr _, c2) \<Rightarrow> request_loop B J peer identity c2)))))"
  by pat_completeness auto

termination
  by (relation "measure (\<lambda>(B, J, peer, identity, c). length (rd_bytes (cn_reader c)))")
    (auto dest!: on_reader_frame_less [OF sym] on_writer_keeps_reader [OF sym])

declare request_loop.simps [simp del]

definition handle_connection ::
  "('k, 's, 'a) backends \<Rightarrow> 'j serde \<Rightarrow> (bytes \<Rightarrow> bytes) \<Rightarrow> Authenticator \<Rightarrow> PeerIdentity \<Rightarrow>
    ('k, 's, 'a) conn \<Rightarrow> unit result \<times> ('k, 's, 'a) conn" where
  "handle_connection B J sha256 authenticator peer =
     try_op (on_reader read_frame) (\<lambda>hello_bytes.
     try_op (of_result (case dec (j_hello J) hello_bytes of
         Inl m \<Rightarrow> Inl (Transport (''invalid ClientHello: '' @ m)) | Inr h \<Rightarrow> Inr h)) (\<lambda>hello.
     if ch_protocol hello \<noteq> PROTOCOL_NAME then
       send_hello J (reject (''unknown protocol: '' @ ch_protocol hello @ ''; expected '' @ PROTOCOL_NAME))
     else if ch_version hello > CURRENT_VERSION then
       send_hello J (reject (''unsupported version '' @ show_nat (unat (ch_version hello)) @
         ''; server supports up to '' @ show_nat (unat CURRENT_VERSION)))
     else
       try_op (send_hello J (accept (ch_version hello))) (\<lambda>_.
       let peer' = (case ch_token hello of
           None \<Rightarrow> peer | Some t \<Rightarrow> set_token_hash peer (hash_token sha256 t)) in
       case authenticator peer' (ch_token hello) of
         None \<Rightarrow> ok ()
       | Some identity \<Rightarrow> request_loop B J peer' identity)))"

section \<open>Accepting\<close>

text \<open>
  The accept loop over the results the listener gives: a connection, or an error that ends
  the loop. \<open>None\<close> is a server that still waits. The tasks are run one after the other.
\<close>

fun serve ::
  "('k, 's, 'a) backends \<Rightarrow> 'j serde \<Rightarrow> (bytes \<Rightarrow> bytes) \<Rightarrow> Authenticator \<Rightarrow>
    (Error + reader \<times> writer \<times> PeerIdentity) list \<Rightarrow> ('k, 's, 'a) vault \<Rightarrow>
    unit result option \<times> ('k, 's, 'a) vault" where
  "serve B J sha256 auth [] v = (None, v)"
| "serve B J sha256 auth (Inl e # accepts) v = (Some (Inl e), v)"
| "serve B J sha256 auth (Inr (r, w, peer) # accepts) v =
     (case handle_connection B J sha256 auth peer \<lparr>cn_reader = r, cn_writer = w, cn_vault = v\<rparr> of
        (_, c) \<Rightarrow> serve B J sha256 auth accepts (cn_vault c))"

datatype serve_event = Accepted "Error + reader \<times> writer \<times> PeerIdentity" | Shutdown

fun serve_with_shutdown ::
  "('k, 's, 'a) backends \<Rightarrow> 'j serde \<Rightarrow> (bytes \<Rightarrow> bytes) \<Rightarrow> Authenticator \<Rightarrow>
    serve_event list \<Rightarrow> ('k, 's, 'a) vault \<Rightarrow> unit result option \<times> ('k, 's, 'a) vault" where
  "serve_with_shutdown B J sha256 auth [] v = (None, v)"
| "serve_with_shutdown B J sha256 auth (Shutdown # es) v = (Some (Inr ()), v)"
| "serve_with_shutdown B J sha256 auth (Accepted (Inl e) # es) v = (Some (Inl e), v)"
| "serve_with_shutdown B J sha256 auth (Accepted (Inr (r, w, peer)) # es) v =
     (case handle_connection B J sha256 auth peer \<lparr>cn_reader = r, cn_writer = w, cn_vault = v\<rparr> of
        (_, c) \<Rightarrow> serve_with_shutdown B J sha256 auth es (cn_vault c))"

end
