(* ===== verification/Vault_Safety.thy ===== *)
theory Vault_Safety
  imports Vault_Traces
begin

text \<open>
  The guarantees of the vault over whole runs: which accesses can succeed, how often, and
  what revocation ends. They hold for arbitrary backends, so they depend on neither the
  store nor the audit log nor the key source behaving well.
\<close>

section \<open>What a grant puts in the table\<close>

lemma exec_granted:
  assumes "exec B c v = (R_granted g, w)"
  shows "\<exists>l. map_of (v_leases w) (grant_lease_id g) = Some l \<and> l_use_count l = 0 \<and> \<not> l_revoked l \<and>
    l_max_uses l = grant_remaining_uses g \<and> l_allowed_domains l = grant_allowed_domains g \<and>
    l_secret_name l = grant_secret_name g"
proof -
  have from_issued: "grant_remaining_uses (LeaseGrant_from l) = l_max_uses l" if "issued_as l a n d t" for l a n d t
    using issued_asD [OF that] by (simp add: LeaseGrant_from_def saturating_sub_def option.map_ident)
  show ?thesis
  proof (cases c)
    case (C_request_lease a n d p)
    then have run: "request_lease B a n d p v = (Inr g, w)" using assms by (auto simp: reply_with_eq)
    from request_lease_effect [OF run] obtain l t where
      "issued_as l a n d t" "v_leases w = AList.update (l_id l) l (v_leases v)" "g = LeaseGrant_from l"
      by auto
    then show ?thesis using from_issued issued_asD by (auto simp: LeaseGrant_from_def update_conv')
  next
    case (C_request_lease_scoped a n d p tk tn)
    then have run: "request_lease_scoped B a n d p tk tn v = (Inr g, w)" using assms by (auto simp: reply_with_eq)
    from request_lease_scoped_effect [OF run] obtain l t and s :: Session where
      "issued_as l a n d t" "v_leases w = AList.update (l_id l) (l\<lparr>l_session_id := Some (s_id s)\<rparr>) (v_leases v)"
      "g = LeaseGrant_from l" by auto
    then show ?thesis using from_issued issued_asD by (auto simp: LeaseGrant_from_def update_conv')
  qed (use assms in \<open>auto simp: reply_with_eq split: prod.splits\<close>)
qed

text \<open>The calls that end a lease, and that they do.\<close>

fun ends_lease :: "('k, 's, 'a) vault \<Rightarrow> LeaseId \<Rightarrow> Lease \<Rightarrow> call \<Rightarrow> bool" where
  "ends_lease v i l (C_revoke_lease j rs p) = (j = i)"
| "ends_lease v i l (C_revoke_all_for_agent a p) = (l_agent l = a)"
| "ends_lease v i l (C_delete_secret n p) = (l_secret_name l = n)"
| "ends_lease v i l (C_revoke_session t p) =
     (\<exists>s. map_of (v_sessions v) t = Some s \<and> l_session_id l = Some (s_id s))"
| "ends_lease v i l _ = False"

lemma exec_ends_lease:
  assumes "vault_inv v" and "exec B c v = (r, w)" and "map_of (v_leases v) i = Some l" and "ends_lease v i l c"
  shows "map_of (v_leases w) i = Some (revoke l)"
proof -
  note d = vault_invD(1) [OF assms(1)]
  show ?thesis
  proof (cases c)
    case (C_revoke_lease j rs p)
    then show ?thesis using assms revoke_lease_effect [of B j rs p v _ w]
      by (auto simp: update_conv' dest!: reply_with_state)
  next
    case (C_revoke_all_for_agent a p)
    then obtain r' where "revoke_all_for_agent B a p v = (r', w)" using assms(2) by (auto dest: reply_with_state)
    from revoke_all_for_agent_effect [OF d this] C_revoke_all_for_agent assms show ?thesis
      by (simp add: map_of_map_values [of "\<lambda>l. if l_agent l = a then revoke l else l"])
  next
    case (C_delete_secret n p)
    then obtain r' where "delete_secret B n p v = (r', w)" using assms(2) by (auto dest: reply_with_state)
    from delete_secret_effect [OF d this] C_delete_secret assms show ?thesis
      by (simp add: map_of_map_values [of "\<lambda>l. if l_secret_name l = n then revoke l else l"])
  next
    case (C_revoke_session t p)
    then obtain r' where run: "revoke_session B t p v = (r', w)" using assms(2) by (auto dest: reply_with_state)
    from assms(4) C_revoke_session obtain s where s: "map_of (v_sessions v) t = Some s"
      "l_session_id l = Some (s_id s)" by auto
    from revoke_session_effect [OF d run] s assms(3) show ?thesis
      by (simp add: map_of_map_values [of "\<lambda>l. if l_session_id l = Some (s_id s) then revoke l else l"])
  qed (use assms in auto)
qed

lemma run_append: "run B v tr w \<Longrightarrow> exec B c w = (r, w') \<Longrightarrow> run B v (tr @ [(c, r)]) w'"
  by (rule run_snoc)

abbreviation fresh_vault ::
  "nat \<Rightarrow> 'k \<Rightarrow> 's \<Rightarrow> 'a \<Rightarrow> PolicyEngine \<Rightarrow> CipherAlgorithm \<Rightarrow> env \<Rightarrow> ('k, 's, 'a) vault" where
  "fresh_vault m k s a p alg e \<equiv> with_max_leases_per_agent m (Vault_new k s a p alg e)"

lemma exec_settings:
  assumes "vault_inv v" and "exec B c v = (r, w)"
  shows "same_settings v w"
proof -
  note d = vault_invD(1) [OF assms(1)]
  note t = tableless_operations [THEN tablelessD, THEN same_tablesD(6)]
    tableless_validate_session [THEN tablelessD, THEN same_tablesD(6)]
  note e = request_lease_effect [THEN conjunct1] request_lease_scoped_effect [THEN conjunct1]
    access_secret_effect [THEN conjunct1] revoke_lease_effect [THEN conjunct1]
    renew_lease_effect [THEN conjunct1] create_session_effect [THEN conjunct1]
    delete_secret_effect [OF d, THEN conjunct1] revoke_all_for_agent_effect [OF d, THEN conjunct1]
  show ?thesis
  proof (cases c)
    case (C_revoke_session tk p)
    then obtain x where "revoke_session B tk p v = (x, w)" using assms(2) by (auto dest: reply_with_state)
    from revoke_session_effect [OF d this] show ?thesis by (auto split: option.splits)
  qed (use assms(2) in \<open>auto split: prod.splits dest!: reply_with_state
      dest: t e gc_leases_effect(1) gc_sessions_effect(1)\<close>)
qed

lemma run_settings: "run B v tr w \<Longrightarrow> vault_inv v \<Longrightarrow> same_settings v w"
  by (induction rule: run.induct) (auto intro: same_settings_trans exec_settings run_inv)

section \<open>A small concrete vault\<close>

text \<open>
  Backends for closed examples: a key source with a constant key, a store that answers
  every read with one sealed value, an audit log that accepts everything, and a cipher
  that leaves the text as it is.
\<close>

definition demo_key :: DataEncryptionKey where
  "demo_key = DEK (replicate 32 0)"

definition demo_secret :: "SecretName \<Rightarrow> StoredSecret" where
  "demo_secret n = \<lparr>ss_id = SecretId 0, ss_name = n, ss_ciphertext = [112, 119], ss_nonce = replicate 12 0,
     ss_algorithm = Aes256Gcm, ss_kind = Pat, ss_description = None, ss_created_at = 0,
     ss_updated_at = 0, ss_version = 1\<rparr>"

definition demo_backends :: "(unit, unit, unit) backends" where
  "demo_backends =
     \<lparr>be_keys = \<lparr>load_or_create_dek = ok demo_key, rotate_key = (\<lambda>_. fail no_dek), ks_description = ''demo''\<rparr>,
      be_store = \<lparr>put = (\<lambda>p. ok (demo_secret (sp_name p))), get = (\<lambda>n. ok (demo_secret n)),
        update = (\<lambda>n _ _ _. ok (demo_secret n)), batch_update = (\<lambda>_. ok ()), delete = (\<lambda>_. ok ()),
        list_all_md = ok []\<rparr>,
      be_audit = \<lparr>record_entry = (\<lambda>_. ok ()), query_by_agent = (\<lambda>_ _. ok []),
        query_by_secret = (\<lambda>_ _. ok []), query_by_lease = (\<lambda>_. ok [])\<rparr>,
      be_aead = \<lparr>aes_encrypt = (\<lambda>_ _ p. Some p), aes_decrypt = (\<lambda>_ _ c. Some c),
        xchacha_encrypt = (\<lambda>_ _ p. Some p), xchacha_decrypt = (\<lambda>_ _ c. Some c)\<rparr>,
      be_us = (\<lambda>_. ''id'')\<rparr>"

definition demo_policy :: PolicyEngine where
  "demo_policy = \<lparr>config = \<lparr>default_lease_terms = single_use,
     grants = [\<lparr>pg_agent = AgentPrefix ''ci'', pg_secret = SecretAny,
       pg_allowed_domains = [DomainScope ''*.net''], pg_lease_terms = None\<rparr>]\<rparr>\<rparr>"

definition demo0 :: "(unit, unit, unit) vault" where
  "demo0 = with_max_leases_per_agent 3 (Vault_new () () () demo_policy Aes256Gcm sample_env)"

abbreviation "demo_agent \<equiv> AgentId ''ci''"
abbreviation "demo_name \<equiv> SecretName ''t''"
abbreviation "demo_request \<equiv> C_request_lease demo_agent demo_name (DomainScope ''*.a.net'') Anonymous"
abbreviation "demo_access i \<equiv> C_access_secret (LeaseId i) ''x.a.net'' Anonymous"

lemma demo_backends_sel [simp]:
  "load_or_create_dek (be_keys demo_backends) = ok demo_key"
  "get (be_store demo_backends) n = ok (demo_secret n)"
  "record_entry (be_audit demo_backends) x = ok ()"
  "aes_decrypt (be_aead demo_backends) k no c = Some c"
  by (simp_all add: demo_backends_def)

lemma demo0_sel [simp]:
  "v_policy demo0 = demo_policy" "v_leases demo0 = []" "v_sessions demo0 = []"
  "v_env demo0 = sample_env" "v_max_leases_per_agent demo0 = 3"
  "v_cipher demo0 = \<lparr>default_algorithm = Aes256Gcm\<rparr>"
  by (simp_all add: demo0_def with_max_leases_per_agent_def Vault_new_def)

lemma sample_env_sel [simp]:
  "env_pos sample_env = 0" "env_clock sample_env i = int i" "env_uuid sample_env i = word_of_nat i"
  "env_fault sample_env i = None"
  by (simp_all add: sample_env_def)

definition "demo1 = snd (exec demo_backends C_initialize demo0)"
definition "demo2 = snd (exec demo_backends demo_request demo1)"
definition "demo3 = snd (exec demo_backends (demo_access 1) demo2)"

lemmas demo_run = reply_with_def op_defs reads_def modifies_def store_op_def key_op_def on_env_def
  audit_event_def trace_and_record_def AuditEntry_new_eq

lemma demo1_eq: "exec demo_backends C_initialize demo0 = (R_unit, demo1)"
  and demo1_val: "demo1 = demo0\<lparr>v_key_source := (), v_dek := Some demo_key\<rparr>"
  by (simp_all add: demo1_def initialize_def demo_run)

definition demo_lease :: Lease where
  "demo_lease = \<lparr>l_id = LeaseId 1, l_agent = demo_agent, l_secret_name = demo_name,
     l_allowed_domains = [DomainScope ''*.a.net''], l_issued_at = 0, l_expires_at = 300000000000,
     l_renewable = False, l_max_uses = Some 1, l_use_count = 0, l_revoked = False,
     l_session_id = None, l_renewal_count = 0\<rparr>"

lemma demo_evaluate: "evaluate demo_policy demo_agent demo_name (DomainScope ''*.a.net'') = Inr single_use"
  by (simp add: evaluate_def demo_policy_def starts_with_def matches_def strip_prefix_def strip_suffix_def ends_with_def)

lemma demo_lease_new: "fst (Lease_new demo_agent demo_name [DomainScope ''*.a.net''] single_use sample_env) = demo_lease"
  by (simp add: Lease_new_eq demo_lease_def single_use_def seconds_def)

lemma demo2_eq: "exec demo_backends demo_request demo1 = (R_granted (LeaseGrant_from demo_lease), demo2)"
  and demo2_sel: "v_leases demo2 = [(LeaseId 1, demo_lease)]" "v_dek demo2 = Some demo_key"
    "v_env demo2 = sample_env\<lparr>env_pos := 4\<rparr>"
  unfolding demo2_def
  using demo_lease_new
  by (simp_all add: demo1_val request_lease_def demo_run demo_evaluate active_count_def insert_lease_def
      case_prod_beta) (simp_all add: Lease_new_eq env_step_def demo_lease_def)

lemma demo_valid: "valid_at demo_lease ''x.a.net'' 4"
  by (simp add: valid_at_def demo_lease_def use_limit_reached_def matches_def strip_prefix_def strip_suffix_def
      ends_with_def starts_with_def)

lemma demo3_eq: "exec demo_backends (demo_access 1) demo2 = (R_guard (LeaseGuard_new (LeaseId 1) ''pw''), demo3)"
proof -
  have val: "validate demo_lease ''x.a.net'' (sample_env\<lparr>env_pos := 4\<rparr>) = (Inr (), env_step (sample_env\<lparr>env_pos := 4\<rparr>))"
    using demo_valid by (simp add: validate_Inr)
  have use: "record_use demo_lease = Inr (demo_lease\<lparr>l_use_count := 1\<rparr>)"
    by (simp add: record_use_def use_limit_reached_def demo_lease_def)
  have utf: "from_utf8 [112, 119] = Some ''pw''"
    by (simp add: from_utf8_def of_bytes_def char_of_def bit_0)
  show ?thesis unfolding demo3_def
    by (simp add: access_secret_def use_lease_def demo_run demo2_sel val use decrypt_def demo_secret_def
        demo_key_def Cipher_decrypt_def decrypt_aes_gcm_def utf)
qed

lemma demo_runs:
  "run demo_backends demo0 [(C_initialize, R_unit)] demo1"
  "run demo_backends demo0 [(C_initialize, R_unit), (demo_request, R_granted (LeaseGrant_from demo_lease))] demo2"
  "run demo_backends demo2 [(demo_access 1, R_guard (LeaseGuard_new (LeaseId 1) ''pw''))] demo3"
  using run_snoc [OF run_nil demo1_eq] run_snoc [OF run_nil demo3_eq]
    run_snoc [OF run_snoc [OF run_nil demo1_eq] demo2_eq] by simp_all

section \<open>Properties\<close>

text \<open>
  C1: in every run from a fresh vault, an access that hands out a secret is through a
  lease that is in the table, not revoked, not expired and not used up, and some policy
  grant matches the lease's agent and secret and has a domain pattern that matches the
  very host accessed.
\<close>

theorem access_authorised:
  assumes "run B (with_max_leases_per_agent m (Vault_new k s a p alg e)) tr v"
    and "access_secret B i host peer v = (Inr g, w)"
  shows "\<exists>l grant d. map_of (v_leases v) i = Some l \<and>
    valid_at l host (env_clock (v_env v) (env_pos (v_env v))) \<and>
    grant \<in> set (grants (config p)) \<and> AgentPattern_matches (pg_agent grant) (l_agent l) \<and>
    SecretPattern_matches (pg_secret grant) (l_secret_name l) \<and>
    d \<in> set (pg_allowed_domains grant) \<and> matches d host"
proof -
  let ?v0 = "with_max_leases_per_agent m (Vault_new k s a p alg e)"
  have inv: "vault_inv v" by (rule run_inv [OF assms(1) vault_inv_init])
  have pol: "v_policy v = p"
    using run_settings [OF assms(1) vault_inv_init]
    by (simp add: same_settings_def with_max_leases_per_agent_def Vault_new_def)
  obtain l where l: "map_of (v_leases v) i = Some l"
    "valid_at l host (env_clock (v_env v) (env_pos (v_env v)))"
    using access_secret_effect [OF assms(2)] by auto
  obtain d t where d: "l_allowed_domains l = [d]" "evaluate p (l_agent l) (l_secret_name l) d = Inr t"
    using vault_invD(4) [OF inv l(1)] pol by (auto simp: entry_ok_def authorised_def)
  obtain grant where grant: "grant \<in> set (grants (config p))" "grant_covers grant (l_agent l) (l_secret_name l) d"
    using evaluate_Inr_covers [OF d(2)] by blast
  obtain dp where "dp \<in> set (pg_allowed_domains grant)" "matches dp (domain_str d)"
    using grant(2) by (auto simp: grant_covers_def)
  moreover have "matches d host" using l(2) d(1) by (simp add: valid_at_def)
  ultimately have "dp \<in> set (pg_allowed_domains grant) \<and> matches dp host"
    using matches_trans [of "domain_str dp" "domain_str d" host] by simp
  then show ?thesis using l grant by (auto simp: grant_covers_def)
qed

theorem access_authorised_witness:
  "\<exists>l grant d. map_of (v_leases demo2) (LeaseId 1) = Some l \<and>
    valid_at l ''x.a.net'' (env_clock (v_env demo2) (env_pos (v_env demo2))) \<and>
    grant \<in> set (grants (config demo_policy)) \<and> AgentPattern_matches (pg_agent grant) (l_agent l) \<and>
    SecretPattern_matches (pg_secret grant) (l_secret_name l) \<and>
    d \<in> set (pg_allowed_domains grant) \<and> matches d ''x.a.net''"
proof -
  have "access_secret demo_backends (LeaseId 1) ''x.a.net'' Anonymous demo2 =
      (Inr (LeaseGuard_new (LeaseId 1) ''pw''), demo3)"
    using demo3_eq by (simp add: reply_with_eq)
  from access_authorised [OF demo_runs(2) [unfolded demo0_def] this] show ?thesis .
qed

text \<open>
  C4: a lease granted with a limit of \<open>n\<close> uses hands out the secret at most \<open>n\<close> times in
  any continuation of the run, whatever calls are interleaved, as long as no later grant
  carries the same lease id.
\<close>

theorem use_limit_holds:
  assumes "run B (with_max_leases_per_agent m (Vault_new k s a p alg e)) tr0 v0"
    and "exec B c v0 = (R_granted g, v)" and "run B v tr w"
    and "grant_remaining_uses g = Some n" and "\<forall>x\<in>set tr. \<not> granted (grant_lease_id g) x"
  shows "length (filter (accessed (grant_lease_id g)) tr) \<le> unat n"
proof -
  have inv: "vault_inv v" by (rule exec_inv [OF run_inv [OF assms(1) vault_inv_init] assms(2)])
  obtain l where l: "map_of (v_leases v) (grant_lease_id g) = Some l" "l_use_count l = 0" "l_max_uses l = Some n"
    using exec_granted [OF assms(2)] assms(4) by auto
  have invw: "vault_inv w" by (rule run_inv [OF assms(3) inv])
  show ?thesis
  proof (cases "map_of (v_leases w) (grant_lease_id g)")
    case None
    then show ?thesis using run_lease_count [OF assms(3) inv l(1,3) assms(5)] l(2) by simp
  next
    case (Some l')
    have "unat (l_use_count l') \<le> unat n"
      using vault_invD(4) [OF invw Some] run_lease_count [OF assms(3) inv l(1,3) assms(5)] Some l(3)
      by (simp add: entry_ok_def lease_inv_def same_lease_def word_le_nat_alt)
    then show ?thesis using run_lease_count [OF assms(3) inv l(1,3) assms(5)] l(2) Some by simp
  qed
qed

theorem use_limit_holds_witness:
  "length (filter (accessed (LeaseId 1)) [(demo_access 1, R_guard (LeaseGuard_new (LeaseId 1) ''pw''))]) \<le> unat (1::u32)"
proof -
  have g: "grant_lease_id (LeaseGrant_from demo_lease) = LeaseId 1"
    "grant_remaining_uses (LeaseGrant_from demo_lease) = Some 1"
    by (simp_all add: LeaseGrant_from_def demo_lease_def saturating_sub_def)
  show ?thesis
    using use_limit_holds [OF demo_runs(1) [unfolded demo0_def] demo2_eq demo_runs(3) g(2)] g(1)
    by (simp add: granted_def)
qed

text \<open>
  C3: revocation is final. Once a call revokes a lease (directly, for its agent, with its
  secret or with its session), and whatever that call returns, no later access through
  the lease succeeds, as long as no later grant carries the same lease id.
\<close>

theorem revocation_is_final:
  assumes "run B (with_max_leases_per_agent m (Vault_new k s a p alg e)) tr0 v0"
    and "map_of (v_leases v0) i = Some l" and "ends_lease v0 i l c"
    and "exec B c v0 = (r, v)" and "run B v tr w" and "\<forall>x\<in>set tr. \<not> granted i x"
  shows "\<forall>x\<in>set tr. \<not> accessed i x"
proof -
  have inv0: "vault_inv v0" by (rule run_inv [OF assms(1) vault_inv_init])
  have inv: "vault_inv v" by (rule exec_inv [OF inv0 assms(4)])
  have "map_of (v_leases v) i = Some (revoke l)"
    by (rule exec_ends_lease [OF inv0 assms(4,2,3)])
  then show ?thesis using run_lease_gone [OF assms(5) inv _ assms(6)] by simp
qed

theorem revocation_is_final_witness:
  "\<not> accessed (LeaseId 1) (demo_access 1, fst (exec demo_backends (demo_access 1)
      (snd (exec demo_backends (C_delete_secret demo_name Anonymous) demo2))))"
proof -
  obtain r v where d: "exec demo_backends (C_delete_secret demo_name Anonymous) demo2 = (r, v)"
    by (rule prod.exhaust)
  obtain r' w where a: "exec demo_backends (demo_access 1) v = (r', w)" by (rule prod.exhaust)
  have "ends_lease demo2 (LeaseId 1) demo_lease (C_delete_secret demo_name Anonymous)"
    by (simp add: demo_lease_def)
  moreover have "\<forall>x\<in>set [(demo_access 1, r')]. \<not> granted (LeaseId 1) x"
    using a by (auto simp: reply_with_eq granted_def)
  ultimately show ?thesis
    using revocation_is_final [OF demo_runs(2) [unfolded demo0_def] _ _ d run_snoc [OF run_nil a], of "LeaseId 1" demo_lease]
    by (simp add: demo2_sel d a del: exec.simps)
qed



end
