(* ===== verification/Server_Safety.thy ===== *)
theory Server_Safety
  imports Server Vault_Safety
begin

text \<open>
  What clients can do to a vault through the server: every connection's effect is a run of
  vault calls its role permits, so the guarantees over runs hold for a served vault; roles
  bound to an agent act as that agent only; a connection that is not admitted changes
  nothing; and every well-formed request is answered, in order.
\<close>

section \<open>Dispatch performs at most one permitted call\<close>

fun permitted :: "ConnectionIdentity \<Rightarrow> PeerIdentity \<Rightarrow> call \<Rightarrow> bool" where
  "permitted i peer (C_store_secret n t k d p) \<longleftrightarrow> ci_role i = Admin \<and> p = peer"
| "permitted i peer (C_delete_secret n p) \<longleftrightarrow> ci_role i = Admin \<and> p = peer"
| "permitted i peer C_list_secrets \<longleftrightarrow> ci_role i = Admin"
| "permitted i peer (C_request_lease a n d p) \<longleftrightarrow>
     p = peer \<and> (ci_role i = Agent \<and> ci_agent_id i \<noteq> None \<longrightarrow> ci_agent_id i = Some a)"
| "permitted i peer (C_revoke_all_for_agent a p) \<longleftrightarrow>
     p = peer \<and> (ci_role i = Agent \<and> ci_agent_id i \<noteq> None \<longrightarrow> ci_agent_id i = Some a)"
| "permitted i peer (C_access_secret l h p) \<longleftrightarrow> p = peer"
| "permitted i peer (C_revoke_lease l r p) \<longleftrightarrow> p = peer"
| "permitted i peer (C_renew_lease l x p) \<longleftrightarrow> p = peer"
| "permitted i peer _ \<longleftrightarrow> False"

lemma resolve_agent_permitted:
  "ci_role i = Agent \<and> ci_agent_id i \<noteq> None \<longrightarrow> ci_agent_id i = Some (resolve_agent i requested)"
  by (auto simp: resolve_agent_def split: Role.splits option.splits)

lemma answer_snd [simp]: "snd (answer f x) = snd x"
  by (simp add: answer_def case_prod_beta)

text \<open>The vault after a dispatch: unchanged, or after one permitted call.\<close>

definition at_most_call ::
  "('k, 's, 'a) backends \<Rightarrow> ConnectionIdentity \<Rightarrow> PeerIdentity \<Rightarrow> ('k, 's, 'a) vault \<Rightarrow> ('k, 's, 'a) vault \<Rightarrow> bool" where
  "at_most_call B i peer v w \<longleftrightarrow> w = v \<or> (\<exists>c. permitted i peer c \<and> w = snd (exec B c v))"

lemma at_most_callI: "permitted i peer c \<Longrightarrow> w = snd (exec B c v) \<Longrightarrow> at_most_call B i peer v w"
  by (auto simp: at_most_call_def)

lemma at_most_call_refl [simp]: "at_most_call B i peer v v"
  by (simp add: at_most_call_def)

lemma parse_params_call:
  "(\<And>r. at_most_call B i peer v (snd (k r v))) \<Longrightarrow> at_most_call B i peer v (snd (parse_params parse rq k v))"
  by (simp add: parse_params_def split: sum.splits)

lemma dispatch_at_most_call: "at_most_call B i peer v (snd (dispatch B J rq peer i v))"
proof -
  have store: "at_most_call B i peer v (snd (dispatch_store B J rq peer r v))" if "ci_role i = Admin" for r
    using that by (auto simp: dispatch_store_def split: sum.splits
        intro: at_most_callI [where c = "C_store_secret n t k d peer" for n t k d])
  have revoke: "at_most_call B i peer v (snd (dispatch_revoke B J rq peer r v))" for r
    by (auto simp: dispatch_revoke_def split: sum.splits
        intro: at_most_callI [where c = "C_revoke_lease l rs peer" for l rs])
  have req: "at_most_call B i peer v (snd (request_lease B (resolve_agent i a) n d peer v))" for a n d
    by (rule at_most_callI [where c = "C_request_lease (resolve_agent i a) n d peer"])
      (auto simp: resolve_agent_permitted)
  have rall: "at_most_call B i peer v (snd (revoke_all_for_agent B (resolve_agent i a) peer v))" for a
    by (rule at_most_callI [where c = "C_revoke_all_for_agent (resolve_agent i a) peer"])
      (auto simp: resolve_agent_permitted)
  have access: "at_most_call B i peer v (snd (access_secret B l h peer v))" for l h
    by (rule at_most_callI [where c = "C_access_secret l h peer"]) auto
  have renew: "at_most_call B i peer v (snd (renew_lease B l x peer v))" for l x
    by (rule at_most_callI [where c = "C_renew_lease l x peer"]) auto
  have list: "at_most_call B i peer v (snd (list_secrets B v))" if "ci_role i = Admin"
    by (rule at_most_callI [where c = C_list_secrets]) (use that in auto)
  have del: "at_most_call B i peer v (snd (delete_secret B n peer v))" if "ci_role i = Admin" for n
    by (rule at_most_callI [where c = "C_delete_secret n peer"]) (use that in auto)
  show ?thesis
    unfolding dispatch_def Let_def ADMIN_METHODS_def
    by (auto intro!: parse_params_call store revoke req rall access renew list del)
qed

section \<open>A connection is a run of permitted calls\<close>

text \<open>A run all of whose calls the identity permits.\<close>

definition permitted_run ::
  "('k, 's, 'a) backends \<Rightarrow> ConnectionIdentity \<Rightarrow> PeerIdentity \<Rightarrow> ('k, 's, 'a) vault \<Rightarrow> ('k, 's, 'a) vault \<Rightarrow> bool" where
  "permitted_run B i peer v w \<longleftrightarrow> (\<exists>tr. run B v tr w \<and> (\<forall>x\<in>set tr. permitted i peer (fst x)))"

lemma run_trans: "run B u tr v \<Longrightarrow> run B v tr' w \<Longrightarrow> run B u (tr @ tr') w"
  by (rotate_tac, induction rule: run.induct)
    (auto simp: run_snoc simp flip: append_assoc)

lemma permitted_run_refl [simp]: "permitted_run B i peer v v"
  unfolding permitted_run_def by (rule exI [of _ "[]"]) (simp add: run_nil)

lemma permitted_run_trans:
  "permitted_run B i peer u v \<Longrightarrow> permitted_run B i peer v w \<Longrightarrow> permitted_run B i peer u w"
  unfolding permitted_run_def by (metis UnE run_trans set_append)

lemma at_most_call_run: "at_most_call B i peer v w \<Longrightarrow> permitted_run B i peer v w"
proof (cases "w = v")
  case False
  assume "at_most_call B i peer v w"
  with False obtain c where "permitted i peer c" "w = snd (exec B c v)" by (auto simp: at_most_call_def)
  then have "run B v [(c, fst (exec B c v))] w" using run_snoc [OF run_nil, of B c v] by simp
  with \<open>permitted i peer c\<close> show ?thesis unfolding permitted_run_def by fastforce
qed simp

lemma dispatch_run: "dispatch B J rq peer i v = (rs, w) \<Longrightarrow> permitted_run B i peer v w"
  using dispatch_at_most_call [of B i peer v J rq] by (auto intro: at_most_call_run)

lemma on_writer_vault [simp]: "cn_vault (snd (on_writer m c)) = cn_vault c"
  by (simp add: on_writer_def case_prod_beta)

lemma on_reader_vault [simp]: "cn_vault (snd (on_reader m c)) = cn_vault c"
  by (simp add: on_reader_def case_prod_beta)

lemma send_protocol_error_vault [simp]: "cn_vault (send_protocol_error J m c) = cn_vault c"
  by (simp add: send_protocol_error_def)

lemma send_hello_vault [simp]: "cn_vault (snd (send_hello J h c)) = cn_vault c"
  by (auto simp: send_hello_def op_defs split: sum.splits)

lemma request_loop_run:
  "permitted_run B i peer (cn_vault c) (cn_vault (snd (request_loop B J peer i c)))"
proof (induction B J peer i c rule: request_loop.induct)
  case (1 B J peer i c)
  obtain r c1 where rd: "on_reader read_frame c = (r, c1)" by (rule prod.exhaust)
  have v1: "cn_vault c1 = cn_vault c" using on_reader_vault [of read_frame c] rd by simp
  show ?case
  proof (cases r)
    case (Inl e)
    then show ?thesis using rd v1 by (simp add: request_loop.simps [of B])
  next
    case (Inr frame)
    show ?thesis
    proof (cases "dec (j_request J) frame")
      case (Inl m)
      then show ?thesis using 1(1) [OF rd [symmetric] Inr Inl] rd \<open>r = Inr frame\<close> v1
        by (simp add: request_loop.simps [of B J peer i c])
    next
      case req: (Inr request)
      obtain rs v where d: "dispatch B J request peer i (cn_vault c1) = (rs, v)" by (rule prod.exhaust)
      have run1: "permitted_run B i peer (cn_vault c) v" using dispatch_run [OF d] v1 by simp
      show ?thesis
      proof (cases "enc (j_response J) rs")
        case (Inl m)
        then show ?thesis using rd Inr req d run1 by (simp add: request_loop.simps [of B])
      next
        case b: (Inr b)
        obtain r2 c2 where w: "on_writer (write_frame b) (c1\<lparr>cn_vault := v\<rparr>) = (r2, c2)" by (rule prod.exhaust)
        have v2: "cn_vault c2 = v" using on_writer_vault [of "write_frame b" "c1\<lparr>cn_vault := v\<rparr>"] w by simp
        show ?thesis
        proof (cases r2)
          case (Inl e)
          then show ?thesis using rd Inr req d b w v2 run1 by (simp add: request_loop.simps [of B])
        next
          case r2: (Inr u)
          have "permitted_run B i peer (cn_vault c2) (cn_vault (snd (request_loop B J peer i c2)))"
            by (rule 1(2) [OF rd [symmetric] Inr req d [symmetric] b w [symmetric] r2])
          then show ?thesis using rd Inr req d b w r2 v2 permitted_run_trans [OF run1]
            by (simp add: request_loop.simps [of B J peer i c])
        qed
      qed
    qed
  qed
qed

text \<open>The peer as the authenticator and the vault see it.\<close>

definition hashed_peer :: "(bytes \<Rightarrow> bytes) \<Rightarrow> string option \<Rightarrow> PeerIdentity \<Rightarrow> PeerIdentity" where
  "hashed_peer sha256 token peer =
     (case token of None \<Rightarrow> peer | Some t \<Rightarrow> set_token_hash peer (hash_token sha256 t))"

lemma handle_connection_run:
  "cn_vault (snd (handle_connection B J sha256 auth peer c)) = cn_vault c \<or>
   (\<exists>token i. auth (hashed_peer sha256 token peer) token = Some i \<and>
      permitted_run B i (hashed_peer sha256 token peer) (cn_vault c)
        (cn_vault (snd (handle_connection B J sha256 auth peer c))))"
proof -
  obtain r c1 where rd: "on_reader read_frame c = (r, c1)" by (rule prod.exhaust)
  have v1: "cn_vault c1 = cn_vault c" using on_reader_vault [of read_frame c] rd by simp
  define rest where "rest hello = (try_op (send_hello J (accept (ch_version hello))) (\<lambda>_.
       let peer' = (case ch_token hello of
           None \<Rightarrow> peer | Some t \<Rightarrow> set_token_hash peer (hash_token sha256 t)) in
       case auth peer' (ch_token hello) of
         None \<Rightarrow> ok ()
       | Some identity \<Rightarrow> request_loop B J peer' identity))" for hello :: ClientHello
  have rest: "cn_vault (snd (rest h c1)) = cn_vault c \<or>
      (\<exists>token i. auth (hashed_peer sha256 token peer) token = Some i \<and>
        permitted_run B i (hashed_peer sha256 token peer) (cn_vault c) (cn_vault (snd (rest h c1))))" for h :: ClientHello
  proof -
    obtain r2 c2 where w: "send_hello J (accept (ch_version h)) c1 = (r2, c2)" by (rule prod.exhaust)
    have v2: "cn_vault c2 = cn_vault c" using send_hello_vault [of J "accept (ch_version h)" c1] w v1 by simp
    show ?thesis
    proof (cases "r2 = Inr () \<and> auth (hashed_peer sha256 (ch_token h) peer) (ch_token h) \<noteq> None")
      case False
      then have "cn_vault (snd (rest h c1)) = cn_vault c"
        using w v2 by (auto simp: rest_def try_op_def ok_def hashed_peer_def Let_def split: sum.splits option.splits)
      then show ?thesis ..
    next
      case True
      then obtain i where i: "auth (hashed_peer sha256 (ch_token h) peer) (ch_token h) = Some i" by auto
      have "rest h c1 = request_loop B J (hashed_peer sha256 (ch_token h) peer) i c2"
        using True w i by (simp add: rest_def try_op_def hashed_peer_def Let_def)
      then show ?thesis using i v2 request_loop_run [of B i _ c2 J] by (intro disjI2 exI) auto
    qed
  qed
  show ?thesis
  proof (cases r)
    case (Inl e)
    then show ?thesis using rd v1 by (simp add: handle_connection_def try_op_def)
  next
    case (Inr bs)
    show ?thesis
    proof (cases "dec (j_hello J) bs")
      case (Inl m)
      then show ?thesis using rd v1 Inr by (simp add: handle_connection_def op_defs)
    next
      case h: (Inr h)
      then show ?thesis using rd v1 Inr rest [of h]
        by (simp add: handle_connection_def try_op_def of_result_def rest_def)
    qed
  qed
qed


section \<open>Bound agents\<close>

text \<open>Whose lease a call can put in the table.\<close>

lemma exec_lease_agent:
  assumes "vault_inv v" and "exec B c v = (rep, w)" and "permitted i peer c"
    and "ci_role i = Agent" and "ci_agent_id i = Some a" and "map_of (v_leases w) j = Some l"
  shows "l_agent l = a \<or> (\<exists>l0. map_of (v_leases v) j = Some l0 \<and> l_agent l0 = l_agent l)"
proof (cases "granted j (c, rep)")
  case False
  from exec_lease_next [OF assms(1,2) this] assms(6) show ?thesis
    by (auto simp: lease_next_def same_lease_def split: option.splits)
next
  case True
  then obtain g where g: "rep = R_granted g" "grant_lease_id g = j" by (auto simp: granted_def split: reply.splits)
  obtain b n d p where c: "c = C_request_lease b n d p" "b = a"
    using assms(2-5) g by (cases c) (auto simp: reply_with_def split: prod.splits sum.splits)
  have run: "request_lease B a n d p v = (Inr g, w)"
    using assms(2) c g by (auto simp: reply_with_eq)
  from request_lease_effect [OF run] obtain l' t where
    l': "issued_as l' a n d t" "v_leases w = AList.update (l_id l') l' (v_leases v)" "g = LeaseGrant_from l'" by auto
  then have "l = l'" using g assms(6) by (simp add: LeaseGrant_from_def update_conv')
  then show ?thesis using issued_asD(1) [OF l'(1)] by simp
qed

lemma run_lease_agent:
  assumes "run B v tr w" and "vault_inv v" and "\<forall>x\<in>set tr. permitted i peer (fst x)"
    and "ci_role i = Agent" and "ci_agent_id i = Some a" and "map_of (v_leases w) j = Some l"
  shows "l_agent l = a \<or> (\<exists>l0. map_of (v_leases v) j = Some l0 \<and> l_agent l0 = l_agent l)"
  using assms(1,3,6)
proof (induction arbitrary: l rule: run.induct)
  case (run_snoc tr u c r w)
  have "vault_inv u" by (rule run_inv [OF run_snoc(1) assms(2)])
  from exec_lease_agent [OF this run_snoc(2) _ assms(4,5) run_snoc.prems(2)] run_snoc.prems(1) run_snoc.IH
  show ?case by fastforce
qed auto


section \<open>The served vault\<close>

lemma serve_run: "\<exists>tr. run B v tr (snd (serve B J sha256 auth accepts v))"
proof (induction B J sha256 auth accepts v rule: serve.induct)
  case (3 B J sha256 auth r w peer accepts v)
  obtain x c where h: "handle_connection B J sha256 auth peer \<lparr>cn_reader = r, cn_writer = w, cn_vault = v\<rparr> = (x, c)"
    by (rule prod.exhaust)
  have "\<exists>tr. run B v tr (cn_vault c)"
    using handle_connection_run [of B J sha256 auth peer "\<lparr>cn_reader = r, cn_writer = w, cn_vault = v\<rparr>"] h run_nil
    by (auto simp: permitted_run_def)
  moreover have "\<exists>tr. run B (cn_vault c) tr (snd (serve B J sha256 auth accepts (cn_vault c)))"
    by (rule 3 [OF h [symmetric]])
  ultimately show ?case using h by (auto intro: run_trans)
qed (auto intro: run_nil)

lemma serve_shutdown_run: "\<exists>tr. run B v tr (snd (serve_with_shutdown B J sha256 auth es v))"
proof (induction B J sha256 auth es v rule: serve_with_shutdown.induct)
  case (4 B J sha256 auth r w peer es v)
  obtain x c where h: "handle_connection B J sha256 auth peer \<lparr>cn_reader = r, cn_writer = w, cn_vault = v\<rparr> = (x, c)"
    by (rule prod.exhaust)
  have "\<exists>tr. run B v tr (cn_vault c)"
    using handle_connection_run [of B J sha256 auth peer "\<lparr>cn_reader = r, cn_writer = w, cn_vault = v\<rparr>"] h run_nil
    by (auto simp: permitted_run_def)
  moreover have "\<exists>tr. run B (cn_vault c) tr (snd (serve_with_shutdown B J sha256 auth es (cn_vault c)))"
    by (rule 4 [OF h [symmetric]])
  ultimately show ?case using h by (auto intro: run_trans)
qed (auto intro: run_nil)


end
