(* ===== verification/Server_Answers.thy ===== *)
theory Server_Answers
  imports Server_Safety
begin

text \<open>
  Progress of a connection: over a stream of complete frames the request loop answers every
  frame with exactly one response, in order, and ends in an orderly way; and what the
  response to each kind of request tells the client.
\<close>

section \<open>One response per frame\<close>

text \<open>The response to one frame and the vault after it.\<close>

definition respond ::
  "('k, 's, 'a) backends \<Rightarrow> 'j serde \<Rightarrow> PeerIdentity \<Rightarrow> ConnectionIdentity \<Rightarrow> bytes \<Rightarrow>
    ('k, 's, 'a) vault \<Rightarrow> 'j Response \<times> ('k, 's, 'a) vault" where
  "respond B J peer i frame v =
     (case dec (j_request J) frame of
        Inl m \<Rightarrow> (protocol_error 0 CODE_INVALID_REQUEST (''invalid request: '' @ m), v)
      | Inr request \<Rightarrow> dispatch B J request peer i v)"

fun answers ::
  "('k, 's, 'a) backends \<Rightarrow> 'j serde \<Rightarrow> PeerIdentity \<Rightarrow> ConnectionIdentity \<Rightarrow> bytes list \<Rightarrow>
    ('k, 's, 'a) vault \<Rightarrow> 'j Response list \<times> ('k, 's, 'a) vault" where
  "answers B J peer i [] v = ([], v)"
| "answers B J peer i (f # fs) v =
     (case respond B J peer i f v of (r, v1) \<Rightarrow>
      case answers B J peer i fs v1 of (rs, v2) \<Rightarrow> (r # rs, v2))"

definition sendable :: "'j serde \<Rightarrow> 'j Response \<Rightarrow> bool" where
  "sendable J r \<longleftrightarrow> (case enc (j_response J) r of Inl _ \<Rightarrow> False | Inr b \<Rightarrow> length b \<le> 1048576)"

definition encoded :: "'j serde \<Rightarrow> 'j Response \<Rightarrow> bytes" where
  "encoded J r = (case enc (j_response J) r of Inl _ \<Rightarrow> [] | Inr b \<Rightarrow> b)"

lemma sendableD: "sendable J r \<Longrightarrow> enc (j_response J) r = Inr (encoded J r) \<and> length (encoded J r) \<le> 1048576"
  by (auto simp: sendable_def encoded_def split: sum.splits)

text \<open>A writer that accepts everything.\<close>

definition healthy :: "writer \<Rightarrow> bool" where
  "healthy w \<longleftrightarrow> wr_room w = None \<and> wr_flush_error w = None"

lemma write_healthy:
  assumes "healthy w" and "length b \<le> 1048576"
  shows "write_frame b w = (Inr (), w\<lparr>wr_bytes := wr_bytes w @ frame_of b\<rparr>)"
  using assms by (simp add: healthy_def write_frame_unlimited)

lemma request_loop_step:
  assumes "rd_bytes (cn_reader c) = frame_of f @ rest" and "length f \<le> 1048576"
    and "healthy (cn_writer c)" and "respond B J peer i f (cn_vault c) = (r, v)" and "sendable J r"
  shows "request_loop B J peer i c = request_loop B J peer i
    \<lparr>cn_reader = (cn_reader c)\<lparr>rd_bytes := rest\<rparr>,
     cn_writer = (cn_writer c)\<lparr>wr_bytes := wr_bytes (cn_writer c) @ frame_of (encoded J r)\<rparr>, cn_vault = v\<rparr>"
proof -
  note rd = read_frame_of [OF assms(2,1)] and enc = sendableD [OF assms(5)]
  note wr = write_healthy [OF assms(3), of "encoded J r"]
  show ?thesis
  proof (cases "dec (j_request J) f")
    case (Inl m)
    then have r: "r = protocol_error 0 CODE_INVALID_REQUEST (''invalid request: '' @ m)" and v: "v = cn_vault c"
      using assms(4) by (auto simp: respond_def)
    let ?c1 = "c\<lparr>cn_reader := (cn_reader c)\<lparr>rd_bytes := rest\<rparr>\<rparr>"
    have "send_protocol_error J (''invalid request: '' @ m) ?c1 =
        ?c1\<lparr>cn_writer := (cn_writer c)\<lparr>wr_bytes := wr_bytes (cn_writer c) @ frame_of (encoded J r)\<rparr>\<rparr>"
      unfolding send_protocol_error_def r [symmetric] using enc wr by (simp add: on_writer_def)
    moreover have "request_loop B J peer i c =
        request_loop B J peer i (send_protocol_error J (''invalid request: '' @ m) ?c1)"
      by (subst request_loop.simps) (simp add: on_reader_def rd Inl)
    ultimately show ?thesis using v by (cases c) simp
  next
    case (Inr request)
    then have "dispatch B J request peer i (cn_vault c) = (r, v)" using assms(4) by (simp add: respond_def)
    then have "request_loop B J peer i c = request_loop B J peer i
        (c\<lparr>cn_reader := (cn_reader c)\<lparr>rd_bytes := rest\<rparr>, cn_vault := v,
           cn_writer := (cn_writer c)\<lparr>wr_bytes := wr_bytes (cn_writer c) @ frame_of (encoded J r)\<rparr>\<rparr>)"
      using enc wr by (subst request_loop.simps) (simp add: on_reader_def on_writer_def rd Inr)
    then show ?thesis by (cases c) simp
  qed
qed

lemma eof_is_clean:
  "contains (show_Error us (Transport ''unexpected EOF reading frame length'')) ''unexpected EOF''"
proof -
  have "contains ''transport error: unexpected EOF reading frame length'' ''unexpected EOF''" by code_simp
  then show ?thesis by simp
qed

lemma request_loop_eof:
  assumes "rd_bytes (cn_reader c) = []" and "rd_error (cn_reader c) = None"
  shows "request_loop B J peer i c = (Inr (), c)"
proof -
  have "read_frame (cn_reader c) = (Inl (Transport ''unexpected EOF reading frame length''), cn_reader c)"
    using assms by (simp add: read_frame_eq)
  then show ?thesis using eof_is_clean [of "be_us B"]
    by (simp add: request_loop.simps [of B J peer i c] on_reader_def)
qed

lemma request_loop_answers:
  assumes "rd_bytes (cn_reader c) = concat (map frame_of fs)" and "rd_error (cn_reader c) = None"
    and "\<forall>f\<in>set fs. length f \<le> 1048576" and "healthy (cn_writer c)"
    and "answers B J peer i fs (cn_vault c) = (rs, v)" and "\<forall>r\<in>set rs. sendable J r"
  shows "request_loop B J peer i c =
    (Inr (), \<lparr>cn_reader = (cn_reader c)\<lparr>rd_bytes := []\<rparr>,
       cn_writer = (cn_writer c)\<lparr>wr_bytes := wr_bytes (cn_writer c) @ concat (map (\<lambda>r. frame_of (encoded J r)) rs)\<rparr>,
       cn_vault = v\<rparr>)"
  using assms
proof (induction fs arbitrary: c rs)
  case Nil
  then show ?case using request_loop_eof [of c B J peer i] by simp
next
  case (Cons f fs)
  obtain r v1 where r: "respond B J peer i f (cn_vault c) = (r, v1)" by (rule prod.exhaust)
  obtain rs' v2 where rs': "answers B J peer i fs v1 = (rs', v2)" by (rule prod.exhaust)
  have rs: "rs = r # rs'" "v = v2" using Cons.prems(5) r rs' by auto
  let ?c = "\<lparr>cn_reader = (cn_reader c)\<lparr>rd_bytes := concat (map frame_of fs)\<rparr>,
     cn_writer = (cn_writer c)\<lparr>wr_bytes := wr_bytes (cn_writer c) @ frame_of (encoded J r)\<rparr>, cn_vault = v1\<rparr>"
  have "request_loop B J peer i c = request_loop B J peer i ?c"
    by (rule request_loop_step [OF _ _ Cons.prems(4) r]) (use Cons.prems rs in auto)
  also have "\<dots> = (Inr (), \<lparr>cn_reader = (cn_reader ?c)\<lparr>rd_bytes := []\<rparr>,
       cn_writer = (cn_writer ?c)\<lparr>wr_bytes := wr_bytes (cn_writer ?c) @ concat (map (\<lambda>r. frame_of (encoded J r)) rs')\<rparr>,
       cn_vault = v\<rparr>)"
    by (rule Cons.IH) (use Cons.prems rs rs' in \<open>auto simp: healthy_def\<close>)
  finally show ?case using rs by simp
qed

lemma length_answers: "length (fst (answers B J peer i fs v)) = length fs"
  by (induction fs arbitrary: v) (simp_all add: case_prod_beta)


section \<open>What a response says\<close>

text \<open>The vault call a request stands for, when its parameters parse and the role allows it.\<close>

definition request_call ::
  "'j serde \<Rightarrow> 'j Request \<Rightarrow> PeerIdentity \<Rightarrow> ConnectionIdentity \<Rightarrow> call option" where
  "request_call J rq peer i =
     (let m = rq_method rq; ps = rq_params rq in
      if m \<in> set ADMIN_METHODS \<and> ci_role i \<noteq> Admin then None
      else if m = STORE_SECRET then
        (case dec (j_store J) ps of Inl _ \<Rightarrow> None
         | Inr q \<Rightarrow> (case b64_decode J (ssr_plaintext q) of Inl _ \<Rightarrow> None
           | Inr t \<Rightarrow> (case dec (j_kind J) (ssr_kind q) of Inl _ \<Rightarrow> None
             | Inr k \<Rightarrow> Some (C_store_secret (SecretName (ssr_name q)) t k (ssr_description q) peer))))
      else if m = REQUEST_LEASE then
        (case dec (j_request_lease J) ps of Inl _ \<Rightarrow> None
         | Inr q \<Rightarrow> Some (C_request_lease (resolve_agent i (rlr_agent q)) (SecretName (rlr_secret_name q))
             (DomainScope (rlr_domain q)) peer))
      else if m = ACCESS_SECRET then
        (case dec (j_access J) ps of Inl _ \<Rightarrow> None
         | Inr q \<Rightarrow> Some (C_access_secret (LeaseId (asr_lease_id q)) (asr_target_domain q) peer))
      else if m = REVOKE_LEASE then
        (case dec (j_revoke J) ps of Inl _ \<Rightarrow> None
         | Inr q \<Rightarrow> (case dec (j_reason J) (rvr_reason q) of Inl _ \<Rightarrow> None
           | Inr rs \<Rightarrow> Some (C_revoke_lease (LeaseId (rvr_lease_id q)) rs peer)))
      else if m = REVOKE_ALL_FOR_AGENT then
        (case dec (j_revoke_all J) ps of Inl _ \<Rightarrow> None
         | Inr q \<Rightarrow> Some (C_revoke_all_for_agent (resolve_agent i (rar_agent q)) peer))
      else if m = LIST_SECRETS then Some C_list_secrets
      else if m = RENEW_LEASE then
        (case dec (j_renew J) ps of Inl _ \<Rightarrow> None
         | Inr q \<Rightarrow> Some (C_renew_lease (LeaseId (rnr_lease_id q)) (rnr_extension_secs q) peer))
      else if m = DELETE_SECRET then
        (case dec (j_delete J) ps of Inl _ \<Rightarrow> None
         | Inr q \<Rightarrow> Some (C_delete_secret (SecretName (dsr_name q)) peer))
      else None)"

text \<open>The result value of a reply, where the method has one.\<close>

fun reply_value :: "'j serde \<Rightarrow> reply \<Rightarrow> string + 'j" where
  "reply_value J R_unit = Inr (j_empty J)"
| "reply_value J (R_granted g) = enc (j_grant J) g"
| "reply_value J (R_renewed g) = enc (j_grant J) g"
| "reply_value J (R_guard g) = enc (j_access_result J) \<lparr>asr_secret = b64_encode J (as_bytes (guard_value g))\<rparr>"
| "reply_value J (R_count n) = enc (j_revoke_all_result J) \<lparr>rar_revoked_count = n\<rparr>"
| "reply_value J (R_metadata m) = enc (j_metadata J) m"
| "reply_value J (R_list ms) = enc (j_list_result J) \<lparr>lsr_secrets = List.map_filter
     (\<lambda>s. case enc (j_metadata J) s of Inr j \<Rightarrow> Some j | Inl _ \<Rightarrow> None) ms\<rparr>"
| "reply_value J _ = Inl []"

text \<open>The response a call's reply is turned into.\<close>

definition reply_response :: "(uuid \<Rightarrow> string) \<Rightarrow> 'j serde \<Rightarrow> uuid \<Rightarrow> reply \<Rightarrow> 'j Response" where
  "reply_response us J i rep =
     (case rep of
        R_error e \<Rightarrow> from_error us i e
      | _ \<Rightarrow> (case reply_value J rep of
          Inr j \<Rightarrow> success i j
        | Inl m \<Rightarrow> protocol_error i CODE_INVALID_REQUEST (''serialization failed: '' @ m)))"

lemma reply_responses:
  "reply_response us J i (fst (reply_with R_metadata x)) = json_response us i (enc (j_metadata J)) (fst x)"
  "reply_response us J i (fst (reply_with R_granted y)) = json_response us i (enc (j_grant J)) (fst y)"
  "reply_response us J i (fst (reply_with R_renewed y)) = json_response us i (enc (j_grant J)) (fst y)"
  "reply_response us J i (fst (reply_with R_guard g)) = access_response us J i (fst g)"
  "reply_response us J i (fst (reply_with (\<lambda>_. R_unit) u)) = unit_response us J i (fst u)"
  "reply_response us J i (fst (reply_with R_count n)) = json_response us i (enc (j_revoke_all_result J))
     (case fst n of Inl e \<Rightarrow> Inl e | Inr k \<Rightarrow> Inr \<lparr>rar_revoked_count = k\<rparr>)"
  "reply_response us J i (fst (reply_with R_list l)) = list_response us J i (fst l)"
  for u :: "unit result \<times> 'v"
  by (simp_all add: reply_response_def reply_with_def json_response_def access_response_def unit_response_def
      list_response_def expose_def split: prod.splits sum.splits)

lemma dispatch_request_call:
  "case request_call J rq peer i of
     None \<Rightarrow> (\<exists>rs. dispatch B J rq peer i v = (rs, v) \<and> \<not> rs_ok rs \<and> rs_id rs = rq_id rq)
   | Some c \<Rightarrow> dispatch B J rq peer i v =
       (reply_response (be_us B) J (rq_id rq) (fst (exec B c v)), snd (exec B c v))"
proof -
  note defs = dispatch_def request_call_def Let_def ADMIN_METHODS_def
  note parts = parse_params_def dispatch_store_def dispatch_revoke_def answer_def case_prod_beta reply_responses
  consider (denied) "rq_method rq \<in> set ADMIN_METHODS" "ci_role i \<noteq> Admin"
    | (store) "rq_method rq = STORE_SECRET" "ci_role i = Admin"
    | (list) "rq_method rq = LIST_SECRETS" "ci_role i = Admin"
    | (delete) "rq_method rq = DELETE_SECRET" "ci_role i = Admin"
    | (request) "rq_method rq = REQUEST_LEASE" | (access) "rq_method rq = ACCESS_SECRET"
    | (revoke) "rq_method rq = REVOKE_LEASE" | (revoke_all) "rq_method rq = REVOKE_ALL_FOR_AGENT"
    | (renew) "rq_method rq = RENEW_LEASE"
    | (other) "rq_method rq \<notin> set [STORE_SECRET, LIST_SECRETS, DELETE_SECRET, REQUEST_LEASE, ACCESS_SECRET,
        REVOKE_LEASE, REVOKE_ALL_FOR_AGENT, RENEW_LEASE]"
    unfolding ADMIN_METHODS_def list.set insert_iff empty_iff by blast
  then show ?thesis
  proof cases
    case denied
    then show ?thesis by (simp add: dispatch_def request_call_def Let_def)
  next
    case store
    then show ?thesis unfolding defs by (simp add: parts split: sum.splits)
  next
    case list
    then show ?thesis unfolding defs by (simp add: parts)
  next
    case delete
    then show ?thesis unfolding defs by (simp add: parts split: sum.splits)
  next
    case request
    then show ?thesis unfolding defs by (simp add: parts split: sum.splits)
  next
    case access
    then show ?thesis unfolding defs by (simp add: parts split: sum.splits)
  next
    case revoke
    then show ?thesis unfolding defs by (simp add: parts split: sum.splits)
  next
    case revoke_all
    then show ?thesis unfolding defs by (simp add: parts split: sum.splits)
  next
    case renew
    then show ?thesis unfolding defs by (simp add: parts split: sum.splits)
  next
    case other
    then show ?thesis by (simp add: defs)
  qed
qed


end
