(* ===== verification/Client.thy ===== *)
theory Client
  imports Server_Answers
begin

text \<open>
  The typed client (\<^verbatim>\<open>src/client.rs\<close>): handshake, the request envelope and one method per
  protocol operation, over the frame streams; and the composition of client, frames, server
  and vault, in which a client method returns what the vault returned.
\<close>

section \<open>Connecting\<close>

record client =
  cl_reader :: reader
  cl_writer :: writer
  cl_env :: env

type_synonym 'x client_op = "client \<Rightarrow> 'x result \<times> client"

definition client_read :: "(reader, Error, 'x) op \<Rightarrow> 'x client_op" where
  "client_read m c = (case m (cl_reader c) of (r, x) \<Rightarrow> (r, c\<lparr>cl_reader := x\<rparr>))"

definition client_write :: "(writer, Error, 'x) op \<Rightarrow> 'x client_op" where
  "client_write m c = (case m (cl_writer c) of (r, x) \<Rightarrow> (r, c\<lparr>cl_writer := x\<rparr>))"

text \<open>\<^verbatim>\<open>serde_json::...(x).map_err(|e| Error::Transport(format!("{what}: {e}")))\<close>.\<close>

definition transport_err :: "string \<Rightarrow> string + 'x \<Rightarrow> 'x result" where
  "transport_err what r = (case r of Inl m \<Rightarrow> Inl (Transport (what @ '': '' @ m)) | Inr x \<Rightarrow> Inr x)"

definition connect_with_hello ::
  "'j serde \<Rightarrow> (reader \<times> writer) result \<Rightarrow> env \<Rightarrow> ClientHello \<Rightarrow> client result" where
  "connect_with_hello J connected e hello =
     (case connected of
        Inl er \<Rightarrow> Inl er
      | Inr (r, w) \<Rightarrow>
         fst (try_op (of_result (transport_err ''failed to serialize hello'' (enc (j_hello J) hello))) (\<lambda>hello_bytes.
              try_op (client_write (write_frame hello_bytes)) (\<lambda>_.
              try_op (client_read read_frame) (\<lambda>resp_bytes.
              try_op (of_result (transport_err ''invalid server hello'' (dec (j_server_hello J) resp_bytes))) (\<lambda>server_hello.
              if \<not> sh_ok server_hello
              then fail (Transport (''handshake rejected: '' @
                (case sh_error server_hello of Some m \<Rightarrow> m | None \<Rightarrow> [])))
              else (\<lambda>c. (Inr c, c))))))
              \<lparr>cl_reader = r, cl_writer = w, cl_env = e\<rparr>))"

definition connect :: "'j serde \<Rightarrow> (reader \<times> writer) result \<Rightarrow> env \<Rightarrow> client result" where
  "connect J connected e = connect_with_hello J connected e ClientHello_new"

definition connect_with_token :: "'j serde \<Rightarrow> (reader \<times> writer) result \<Rightarrow> env \<Rightarrow> string \<Rightarrow> client result" where
  "connect_with_token J connected e token = connect_with_hello J connected e (with_token token)"

section \<open>Requests\<close>

definition response_result :: "'j serde \<Rightarrow> 'j Response \<Rightarrow> 'j result" where
  "response_result J response =
     (if rs_ok response
      then Inr (case rs_result response of Some j \<Rightarrow> j | None \<Rightarrow> j_empty J)
      else (let payload = (case rs_error response of
              Some p \<Rightarrow> p
            | None \<Rightarrow> \<lparr>ep_code = ''unknown'', ep_message = ''server returned an error with no payload''\<rparr>)
            in Inl (Remote (ep_code payload) (ep_message payload))))"

definition client_uuid :: "client \<Rightarrow> uuid \<times> client" where
  "client_uuid c = (case uuid_now_v7 (cl_env c) of (u, e) \<Rightarrow> (u, c\<lparr>cl_env := e\<rparr>))"

definition client_request :: "'j serde \<Rightarrow> string \<Rightarrow> 'j \<Rightarrow> 'j client_op" where
  "client_request J method params =
     let_op client_uuid (\<lambda>i.
     try_op (of_result (transport_err ''failed to serialize request''
       (enc (j_request J) \<lparr>rq_id = i, rq_method = method, rq_params = params\<rparr>))) (\<lambda>req_bytes.
     try_op (client_write (write_frame req_bytes)) (\<lambda>_.
     try_op (client_read read_frame) (\<lambda>resp_bytes.
     try_op (of_result (transport_err ''invalid response'' (dec (j_response J) resp_bytes))) (\<lambda>response.
     of_result (response_result J response))))))"

definition parse_result :: "('x, 'j) conv \<Rightarrow> 'j \<Rightarrow> 'x result" where
  "parse_result c value = transport_err ''failed to parse response'' (dec c value)"

text \<open>The common shape of the methods: serialize the parameters, call, convert the result.\<close>

definition call_method ::
  "'j serde \<Rightarrow> string \<Rightarrow> ('p, 'j) conv \<Rightarrow> 'p \<Rightarrow> ('j \<Rightarrow> 'x result) \<Rightarrow> 'x client_op" where
  "call_method J method c params result =
     try_op (of_result (transport_err ''failed to serialize params'' (enc c params))) (\<lambda>ps.
     try_op (client_request J method ps) (\<lambda>j.
     of_result (result j)))"

definition bind_result :: "'x result \<Rightarrow> ('x \<Rightarrow> 'y result) \<Rightarrow> 'y result" where
  "bind_result r f = (case r of Inl e \<Rightarrow> Inl e | Inr x \<Rightarrow> f x)"

definition client_store_secret ::
  "'j serde \<Rightarrow> string \<Rightarrow> bytes \<Rightarrow> SecretKind \<Rightarrow> string option \<Rightarrow> SecretMetadata client_op" where
  "client_store_secret J name plaintext kind description =
     try_op (of_result (transport_err ''failed to serialize kind'' (enc (j_kind J) kind))) (\<lambda>k.
     call_method J STORE_SECRET (j_store J)
       \<lparr>ssr_name = name, ssr_plaintext = b64_encode J plaintext, ssr_kind = k, ssr_description = description\<rparr>
       (parse_result (j_metadata J)))"

definition client_request_lease :: "'j serde \<Rightarrow> string \<Rightarrow> string \<Rightarrow> string \<Rightarrow> LeaseGrant client_op" where
  "client_request_lease J agent secret_name domain =
     call_method J REQUEST_LEASE (j_request_lease J)
       \<lparr>rlr_agent = agent, rlr_secret_name = secret_name, rlr_domain = domain\<rparr> (parse_result (j_grant J))"

definition client_access_secret :: "'j serde \<Rightarrow> uuid \<Rightarrow> string \<Rightarrow> bytes client_op" where
  "client_access_secret J lease_id target_domain =
     call_method J ACCESS_SECRET (j_access J)
       \<lparr>asr_lease_id = lease_id, asr_target_domain = target_domain\<rparr>
       (\<lambda>j. bind_result (parse_result (j_access_result J) j) (\<lambda>resp.
          transport_err ''invalid base64 in server response'' (b64_decode J (asr_secret resp))))"

definition client_revoke_lease :: "'j serde \<Rightarrow> uuid \<Rightarrow> RevocationReason \<Rightarrow> unit client_op" where
  "client_revoke_lease J lease_id reason =
     try_op (of_result (transport_err ''failed to serialize reason'' (enc (j_reason J) reason))) (\<lambda>r.
     call_method J REVOKE_LEASE (j_revoke J) \<lparr>rvr_lease_id = lease_id, rvr_reason = r\<rparr> (\<lambda>_. Inr ()))"

definition client_revoke_all_for_agent :: "'j serde \<Rightarrow> string \<Rightarrow> nat client_op" where
  "client_revoke_all_for_agent J agent =
     call_method J REVOKE_ALL_FOR_AGENT (j_revoke_all J) \<lparr>rar_agent = agent\<rparr>
       (\<lambda>j. bind_result (parse_result (j_revoke_all_result J) j) (\<lambda>resp. Inr (rar_revoked_count resp)))"

text \<open>\<^verbatim>\<open>collect::<Result<Vec<_>>>\<close>: the first error, or all the values.\<close>

fun collect_results :: "'x result list \<Rightarrow> 'x list result" where
  "collect_results [] = Inr []"
| "collect_results (r # rs) = bind_result r (\<lambda>x. bind_result (collect_results rs) (\<lambda>xs. Inr (x # xs)))"

definition client_list_secrets :: "'j serde \<Rightarrow> SecretMetadata list client_op" where
  "client_list_secrets J =
     try_op (client_request J LIST_SECRETS (j_empty J)) (\<lambda>j.
     of_result (bind_result (parse_result (j_list_result J) j) (\<lambda>resp.
       collect_results (map (\<lambda>v. transport_err ''failed to parse secret metadata'' (dec (j_metadata J) v))
         (lsr_secrets resp)))))"

definition client_renew_lease :: "'j serde \<Rightarrow> uuid \<Rightarrow> int \<Rightarrow> LeaseGrant client_op" where
  "client_renew_lease J lease_id extension_secs =
     call_method J RENEW_LEASE (j_renew J) \<lparr>rnr_lease_id = lease_id, rnr_extension_secs = extension_secs\<rparr>
       (parse_result (j_grant J))"

definition client_delete_secret :: "'j serde \<Rightarrow> string \<Rightarrow> unit client_op" where
  "client_delete_secret J name =
     call_method J DELETE_SECRET (j_delete J) \<lparr>dsr_name = name\<rparr> (\<lambda>_. Inr ())"

end
