(* ===== verification/Client_Server.thy ===== *)
theory Client_Server
  imports Client
begin

text \<open>
  Client and server together: one client method, its request through the frame streams to
  the request loop, the vault call, and the response back.
\<close>

section \<open>One exchange\<close>

definition from_wire :: "bytes \<Rightarrow> reader" where
  "from_wire bs = \<lparr>rd_bytes = bs, rd_error = None\<rparr>"

text \<open>
  The method is run against a server that reads what the method writes, and the method reads
  what the server wrote. A method writes before it reads, so what it writes does not depend
  on the reader it is given.
\<close>

definition exchange ::
  "('k, 's, 'a) backends \<Rightarrow> 'j serde \<Rightarrow> PeerIdentity \<Rightarrow> ConnectionIdentity \<Rightarrow> 'x client_op \<Rightarrow>
    env \<Rightarrow> ('k, 's, 'a) vault \<Rightarrow> 'x result \<times> ('k, 's, 'a) vault" where
  "exchange B J peer i m e v =
     (let client_with = (\<lambda>bs. \<lparr>cl_reader = from_wire bs, cl_writer = open_writer, cl_env = e\<rparr>);
          sent = wr_bytes (cl_writer (snd (m (client_with []))));
          c = snd (request_loop B J peer i
                \<lparr>cn_reader = from_wire sent, cn_writer = open_writer, cn_vault = v\<rparr>)
      in (fst (m (client_with (wr_bytes (cn_writer c)))), cn_vault c))"

lemma healthy_open [simp]: "healthy open_writer"
  by (simp add: healthy_def open_writer_def)

lemma open_writer_bytes [simp]: "wr_bytes open_writer = []"
  by (simp add: open_writer_def)

text \<open>The request a client makes of a method and its parameters.\<close>

definition request_of :: "env \<Rightarrow> string \<Rightarrow> 'j \<Rightarrow> 'j Request" where
  "request_of e mth ps = \<lparr>rq_id = fst (uuid_now_v7 e), rq_method = mth, rq_params = ps\<rparr>"

text \<open>Request and response serialize and fit into frames.\<close>

definition deliverable ::
  "('k, 's, 'a) backends \<Rightarrow> 'j serde \<Rightarrow> PeerIdentity \<Rightarrow> ConnectionIdentity \<Rightarrow> env \<Rightarrow> ('k, 's, 'a) vault \<Rightarrow> string \<Rightarrow> 'j \<Rightarrow> bool" where
  "deliverable B J peer i e v mth ps \<longleftrightarrow>
     (case enc (j_request J) (request_of e mth ps) of Inl _ \<Rightarrow> False | Inr b \<Rightarrow> length b \<le> 1048576) \<and>
     sendable J (fst (dispatch B J (request_of e mth ps) peer i v))"

lemma request_writes:
  assumes "enc (j_request J) (request_of (cl_env c) mth ps) = Inr b" and "length b \<le> 1048576"
    and "healthy (cl_writer c)"
  shows "wr_bytes (cl_writer (snd (client_request J mth ps c))) = wr_bytes (cl_writer c) @ frame_of b"
  using assms write_healthy [OF assms(3,2)]
  by (auto simp: client_request_def let_op_def client_uuid_def try_op_def of_result_def transport_err_def
      client_write_def client_read_def request_of_def uuid_now_v7_def
      split: prod.splits sum.splits)

lemma request_returns:
  assumes "enc (j_request J) (request_of (cl_env c) mth ps) = Inr b" and "length b \<le> 1048576"
    and "healthy (cl_writer c)" and "conv_ok (j_response J)" and "sendable J rs"
    and "rd_bytes (cl_reader c) = frame_of (encoded J rs)"
  shows "fst (client_request J mth ps c) = response_result J rs"
proof -
  have rd: "read_frame (cl_reader c) = (Inr (encoded J rs), (cl_reader c)\<lparr>rd_bytes := []\<rparr>)"
    by (rule read_frame_of) (use assms(6) sendableD [OF assms(5)] in auto)
  have "dec (j_response J) (encoded J rs) = Inr rs" using assms(4) sendableD [OF assms(5)] by (blast dest: conv_okD)
  then show ?thesis using assms(1,2) write_healthy [OF assms(3,2)] rd
    by (simp add: client_request_def let_op_def client_uuid_def try_op_def of_result_def transport_err_def
      client_write_def client_read_def request_of_def uuid_now_v7_def)
qed

lemma exchange_request:
  assumes "serde_ok J" and "deliverable B J peer i e v mth ps"
    and "dispatch B J (request_of e mth ps) peer i v = (rs, w)"
  shows "exchange B J peer i (client_request J mth ps) e v = (response_result J rs, w)"
proof -
  obtain b where b: "enc (j_request J) (request_of e mth ps) = Inr b" "length b \<le> 1048576"
    and rs: "sendable J rs"
    using assms(2,3) by (auto simp: deliverable_def split: sum.splits)
  have ok: "conv_ok (j_request J)" "conv_ok (j_response J)" using assms(1) by (simp_all add: serde_ok_def)
  define cw where "cw bs = \<lparr>cl_reader = from_wire bs, cl_writer = open_writer, cl_env = e\<rparr>" for bs
  have sent: "wr_bytes (cl_writer (snd (client_request J mth ps (cw [])))) = frame_of b"
    using request_writes [of J "cw []" mth ps b] b by (simp add: cw_def)
  have resp: "respond B J peer i b v = (rs, w)"
    using assms(3) conv_okD [OF ok(1) b(1)] by (simp add: respond_def)
  have loop: "request_loop B J peer i \<lparr>cn_reader = from_wire (frame_of b), cn_writer = open_writer, cn_vault = v\<rparr> =
     (Inr (), \<lparr>cn_reader = from_wire [], cn_writer = open_writer\<lparr>wr_bytes := frame_of (encoded J rs)\<rparr>, cn_vault = w\<rparr>)"
    using request_loop_answers [of "\<lparr>cn_reader = from_wire (frame_of b), cn_writer = open_writer, cn_vault = v\<rparr>" "[b]" B J peer i "[rs]" w]
      b rs resp by (simp add: from_wire_def)
  have "fst (client_request J mth ps (cw (frame_of (encoded J rs)))) = response_result J rs"
    using request_returns [of J "cw (frame_of (encoded J rs))" mth ps b rs] b rs ok by (simp add: cw_def from_wire_def)
  then show ?thesis
    unfolding exchange_def Let_def using sent loop by (simp add: cw_def open_writer_def)
qed

text \<open>What the client makes of a reply of the vault.\<close>

definition remote_result :: "(uuid \<Rightarrow> string) \<Rightarrow> 'j serde \<Rightarrow> ('j \<Rightarrow> 'x result) \<Rightarrow> reply \<Rightarrow> 'x result" where
  "remote_result us J result rep =
     (case rep of
        R_error e \<Rightarrow> Inl (Remote (error_to_code e) (show_Error us e))
      | _ \<Rightarrow> (case reply_value J rep of
          Inr j \<Rightarrow> result j
        | Inl m \<Rightarrow> Inl (Remote CODE_INVALID_REQUEST (''serialization failed: '' @ m))))"

lemma response_result_reply:
  "bind_result (response_result J (reply_response us J i rep)) result = remote_result us J result rep"
  by (cases "reply_value J rep"; cases rep)
    (auto simp: bind_result_def response_result_def reply_response_def remote_result_def error_to_payload_def)

lemma exchange_map:
  "exchange B J peer i (try_op m (\<lambda>j. of_result (f j))) e v =
     (bind_result (fst (exchange B J peer i m e v)) f, snd (exchange B J peer i m e v))"
  unfolding exchange_def Let_def
  by (simp add: try_op_def of_result_def bind_result_def case_prod_beta split: sum.splits)

lemma exchange_call:
  assumes "serde_ok J" and "enc cv params = Inr ps" and "deliverable B J peer i e v mth ps"
    and "request_call J (request_of e mth ps) peer i = Some c"
  shows "exchange B J peer i (call_method J mth cv params result) e v =
    (remote_result (be_us B) J result (fst (exec B c v)), snd (exec B c v))"
proof -
  have d: "dispatch B J (request_of e mth ps) peer i v =
      (reply_response (be_us B) J (fst (uuid_now_v7 e)) (fst (exec B c v)), snd (exec B c v))"
    using dispatch_request_call [where J = J and rq = "request_of e mth ps" and peer = peer and i = i and B = B and v = v]
      assms(4) by (simp add: request_of_def)
  have "call_method J mth cv params result = try_op (client_request J mth ps) (\<lambda>j. of_result (result j))"
    by (intro ext) (simp add: call_method_def assms(2) transport_err_def try_op_def of_result_def)
  then show ?thesis
    using exchange_request [OF assms(1,3) d] by (simp add: exchange_map response_result_reply)
qed

section \<open>Remote calls\<close>

lemma request_call_access:
  assumes "serde_ok J" and "enc (j_access J) q = Inr ps"
  shows "request_call J (request_of e ACCESS_SECRET ps) peer i =
    Some (C_access_secret (LeaseId (asr_lease_id q)) (asr_target_domain q) peer)"
  using assms conv_okD [of "j_access J" q ps]
  by (simp add: request_call_def request_of_def ADMIN_METHODS_def serde_ok_def)

lemma request_call_lease:
  assumes "serde_ok J" and "enc (j_request_lease J) q = Inr ps"
  shows "request_call J (request_of e REQUEST_LEASE ps) peer i =
    Some (C_request_lease (resolve_agent i (rlr_agent q)) (SecretName (rlr_secret_name q)) (DomainScope (rlr_domain q)) peer)"
  using assms conv_okD [of "j_request_lease J" q ps]
  by (simp add: request_call_def request_of_def ADMIN_METHODS_def serde_ok_def)

text \<open>
  C22: a remote access is a vault access. When the messages serialize and fit into frames,
  the client's \<^verbatim>\<open>access_secret\<close> against the server returns the bytes of the secret the vault
  handed out, or a remote error with the code and the text of the vault's error, and the
  vault behind the server is the one after that access by that peer.
\<close>

theorem remote_access:
  assumes "serde_ok J" and "enc (j_access J) \<lparr>asr_lease_id = l, asr_target_domain = host\<rparr> = Inr ps"
    and "deliverable B J peer i e v ACCESS_SECRET ps"
    and "access_secret B (LeaseId l) host peer v = (r, w)"
    and "\<forall>g. r = Inr g \<longrightarrow> is_ok (enc (j_access_result J) \<lparr>asr_secret = b64_encode J (as_bytes (guard_value g))\<rparr>)"
  shows "exchange B J peer i (client_access_secret J l host) e v =
    (case r of Inr g \<Rightarrow> Inr (as_bytes (guard_value g))
     | Inl er \<Rightarrow> Inl (Remote (error_to_code er) (show_Error (be_us B) er)), w)"
proof -
  have ok: "conv_ok (j_access_result J)" "b64_decode J (b64_encode J b) = Inr b" for b
    using assms(1) by (simp_all add: serde_ok_def)
  show ?thesis
    unfolding client_access_secret_def
      exchange_call [OF assms(1-3) request_call_access [OF assms(1,2)]]
    using assms(4,5) ok conv_okD [OF ok(1)]
    by (auto simp: reply_with_def remote_result_def bind_result_def parse_result_def transport_err_def is_ok_iff
        split: sum.splits)
qed

section \<open>A closed exchange\<close>

text \<open>Codecs that know one message each.\<close>

definition single :: "'x \<Rightarrow> 'y \<Rightarrow> ('x, 'y) conv" where
  "single x y = \<lparr>enc = (\<lambda>a. if a = x then Inr y else Inl ''unknown''),
     dec = (\<lambda>b. if b = y then Inr x else Inl ''unknown'')\<rparr>"

definition no_conv :: "('x, 'y) conv" where
  "no_conv = \<lparr>enc = (\<lambda>_. Inl ''unknown''), dec = (\<lambda>_. Inl ''unknown'')\<rparr>"

lemma single_ok [simp]: "conv_ok (single x y)"
  by (simp add: conv_ok_def single_def)

lemma no_conv_ok [simp]: "conv_ok no_conv"
  by (simp add: conv_ok_def no_conv_def)

definition access_serde :: "nat serde" where
  "access_serde =
     \<lparr>j_hello = single ClientHello_new [3], j_server_hello = single (accept 1) [4],
      j_request = single (request_of sample_env ACCESS_SECRET 7) [1],
      j_response = single (success (fst (uuid_now_v7 sample_env)) 9) [2],
      j_store = no_conv, j_request_lease = no_conv,
      j_access = single \<lparr>asr_lease_id = 1, asr_target_domain = ''x.a.net''\<rparr> 7,
      j_access_result = single \<lparr>asr_secret = ''pw''\<rparr> 9, j_revoke = no_conv, j_revoke_all = no_conv,
      j_revoke_all_result = no_conv, j_list_result = no_conv, j_renew = no_conv, j_delete = no_conv,
      j_kind = no_conv, j_reason = no_conv, j_metadata = no_conv, j_grant = no_conv, j_empty = 0,
      b64_encode = of_bytes, b64_decode = (\<lambda>s. Inr (as_bytes s))\<rparr>"

lemma access_serde_ok: "serde_ok access_serde"
  by (simp add: serde_ok_def access_serde_def)

abbreviation "demo_identity \<equiv> \<lparr>ci_role = Agent, ci_agent_id = Some demo_agent, ci_label = ''ci''\<rparr>"

lemma demo_access_params:
  "enc (j_access access_serde) \<lparr>asr_lease_id = 1, asr_target_domain = ''x.a.net''\<rparr> = Inr 7"
  by (simp add: access_serde_def single_def)

abbreviation "demo_response \<equiv> success (fst (uuid_now_v7 sample_env)) (9 :: nat)"

lemma demo_dispatch:
  "dispatch demo_backends access_serde (request_of sample_env ACCESS_SECRET 7) Anonymous demo_identity demo2 =
     (demo_response, demo3)"
proof -
  have "dispatch demo_backends access_serde (request_of sample_env ACCESS_SECRET 7) Anonymous demo_identity demo2 =
      (reply_response (be_us demo_backends) access_serde (fst (uuid_now_v7 sample_env))
         (fst (exec demo_backends (demo_access 1) demo2)), snd (exec demo_backends (demo_access 1) demo2))"
    using dispatch_request_call [where J = access_serde and rq = "request_of sample_env ACCESS_SECRET 7"
        and peer = Anonymous and i = demo_identity and B = demo_backends and v = demo2]
      request_call_access [OF access_serde_ok demo_access_params, of sample_env Anonymous demo_identity]
    by (simp add: request_of_def)
  then show ?thesis unfolding demo3_eq
    by (simp add: reply_response_def LeaseGuard_new_def access_serde_def single_def)
qed

lemma demo_sendable [simp]: "sendable access_serde demo_response" "encoded access_serde demo_response = [2]"
  by (simp_all add: sendable_def encoded_def access_serde_def single_def)

theorem remote_access_witness:
  "fst (exchange demo_backends access_serde Anonymous demo_identity
     (client_access_secret access_serde 1 ''x.a.net'') sample_env demo2) = Inr (as_bytes ''pw'')"
proof -
  have acc: "access_secret demo_backends (LeaseId 1) ''x.a.net'' Anonymous demo2 =
      (Inr (LeaseGuard_new (LeaseId 1) ''pw''), demo3)"
    using demo3_eq by (auto simp: reply_with_eq)
  have "deliverable demo_backends access_serde Anonymous demo_identity sample_env demo2 ACCESS_SECRET 7"
    using demo_dispatch by (simp add: deliverable_def) (simp add: access_serde_def single_def)
  from remote_access [OF access_serde_ok demo_access_params this acc] show ?thesis
    by (simp add: LeaseGuard_new_def access_serde_def single_def)
qed

text \<open>The same request on the server's side, behind a handshake.\<close>

definition demo_conn :: "(unit, unit, unit) conn" where
  "demo_conn = \<lparr>cn_reader = from_wire (frame_of [3] @ frame_of [1]), cn_writer = open_writer, cn_vault = demo2\<rparr>"

lemma demo_answers:
  "answers demo_backends access_serde Anonymous demo_identity [[1]] demo2 = ([demo_response], demo3)"
  using demo_dispatch by (simp add: respond_def) (simp add: access_serde_def single_def)


lemma demo_connection:
  "cn_vault (snd (handle_connection demo_backends access_serde (\<lambda>b. b) (\<lambda>_ _. Some demo_identity) Anonymous demo_conn)) = demo3"
proof -
  have rd: "read_frame (from_wire (frame_of [3] @ frame_of [1])) = (Inr [3], from_wire (frame_of [1]))"
    using read_frame_of [of "[3]" "from_wire (frame_of [3] @ frame_of [1])" "frame_of [1]"] by (simp add: from_wire_def)
  have wr: "write_frame [4] open_writer = (Inr (), open_writer\<lparr>wr_bytes := frame_of [4]\<rparr>)"
    using write_healthy [OF healthy_open, of "[4]"] by simp
  have hello: "dec (j_hello access_serde) [3] = Inr ClientHello_new" "enc (j_server_hello access_serde) (accept 1) = Inr [4]"
    by (simp_all add: access_serde_def single_def)
  have loop: "request_loop demo_backends access_serde Anonymous demo_identity
      \<lparr>cn_reader = from_wire (frame_of [1]), cn_writer = open_writer\<lparr>wr_bytes := frame_of [4]\<rparr>, cn_vault = demo2\<rparr> =
      (Inr (), \<lparr>cn_reader = from_wire [], cn_writer = open_writer\<lparr>wr_bytes := frame_of [4] @ frame_of [2]\<rparr>, cn_vault = demo3\<rparr>)"
    using request_loop_answers [of "\<lparr>cn_reader = from_wire (frame_of [1]),
        cn_writer = open_writer\<lparr>wr_bytes := frame_of [4]\<rparr>, cn_vault = demo2\<rparr>" "[[1]]"
      demo_backends access_serde Anonymous demo_identity "[demo_response]" demo3] demo_answers
    by (simp add: from_wire_def healthy_def open_writer_def)
  show ?thesis
    by (simp add: handle_connection_def demo_conn_def try_op_def on_reader_def rd of_result_def hello send_hello_def
        on_writer_def wr loop ClientHello_new_def CURRENT_VERSION_def)
qed

lemma demo3_leases: "\<exists>l. map_of (v_leases demo3) (LeaseId 1) = Some l"
proof -
  have "access_secret demo_backends (LeaseId 1) ''x.a.net'' Anonymous demo2 =
      (Inr (LeaseGuard_new (LeaseId 1) ''pw''), demo3)"
    using demo3_eq by (auto simp: reply_with_eq)
  from access_secret_effect [OF this] show ?thesis by (auto simp: demo2_sel update_conv')
qed


end
