(* ===== verification/Sqlite_Store.thy ===== *)
theory Sqlite_Store
  imports Store
begin

text \<open>
  The SQLite secret store (\<^verbatim>\<open>crates/zerolease-store-rusqlite/src/store.rs\<close>) over the table
  of \<^verbatim>\<open>sql/sqlite_secrets.sql\<close>: rows hold text columns, \<open>id\<close> and \<open>name\<close> are unique, a
  statement may fail with a message and then has no effect, and a transaction that is not
  committed is rolled back. Printing and parsing of UUIDs and RFC 3339 time stamps and
  the texts of conversion errors belong to other crates and are arguments. The blocking
  task is taken to run to its end. The theory interprets the store contract.
\<close>

record store_codec =
  sc_uuid_str :: "uuid \<Rightarrow> string"
  sc_uuid_parse :: "string \<Rightarrow> string + uuid"
  sc_time_str :: "date_time \<Rightarrow> string"
  sc_time_parse :: "string \<Rightarrow> string + date_time"
  sc_conv_text :: "string \<Rightarrow> string"
  sc_range_text :: "int \<Rightarrow> string"

record secret_row =
  r_id :: string
  r_name :: string
  r_ciphertext :: bytes
  r_nonce :: bytes
  r_algorithm :: string
  r_kind :: string
  r_description :: "string option"
  r_created_at :: string
  r_updated_at :: string
  r_version :: int

section \<open>Reading rows\<close>

definition parse_id :: "store_codec \<Rightarrow> secret_row \<Rightarrow> SecretId result" where
  "parse_id c row =
     (case sc_uuid_parse c (r_id row) of Inl m \<Rightarrow> Inl (Storage m) | Inr u \<Rightarrow> Inr (SecretId u))"

definition parse_timestamp :: "store_codec \<Rightarrow> string \<Rightarrow> string \<Rightarrow> date_time result" where
  "parse_timestamp c column s =
     (case sc_time_parse c s of
        Inl m \<Rightarrow> Inl (Storage (''invalid '' @ column @ '': '' @ m)) | Inr t \<Rightarrow> Inr t)"

text \<open>\<^verbatim>\<open>row.get::<_, i32>("version")? as u32\<close>: a value outside the range of \<^verbatim>\<open>i32\<close> is an error.\<close>

definition get_version :: "store_codec \<Rightarrow> secret_row \<Rightarrow> u32 result" where
  "get_version c row =
     (if - (2 ^ 31) \<le> r_version row \<and> r_version row < 2 ^ 31
      then Inr (word_of_int (r_version row)) else Inl (Storage (sc_range_text c (r_version row))))"

definition bind_res :: "'a result \<Rightarrow> ('a \<Rightarrow> 'b result) \<Rightarrow> 'b result" where
  "bind_res x f = (case x of Inl e \<Rightarrow> Inl e | Inr y \<Rightarrow> f y)"

definition row_to_stored_secret :: "store_codec \<Rightarrow> secret_row \<Rightarrow> StoredSecret result" where
  "row_to_stored_secret c row =
     bind_res (parse_id c row) (\<lambda>i.
     bind_res (parse_cipher_algorithm (r_algorithm row)) (\<lambda>alg.
     bind_res (parse_secret_kind (r_kind row)) (\<lambda>kind.
     bind_res (parse_timestamp c ''created_at'' (r_created_at row)) (\<lambda>created.
     bind_res (parse_timestamp c ''updated_at'' (r_updated_at row)) (\<lambda>updated.
     bind_res (get_version c row) (\<lambda>version.
     Inr \<lparr>ss_id = i, ss_name = SecretName (r_name row), ss_ciphertext = r_ciphertext row,
          ss_nonce = r_nonce row, ss_algorithm = alg, ss_kind = kind,
          ss_description = r_description row, ss_created_at = created,
          ss_updated_at = updated, ss_version = version\<rparr>))))))"

definition row_to_metadata :: "store_codec \<Rightarrow> secret_row \<Rightarrow> SecretMetadata result" where
  "row_to_metadata c row =
     bind_res (parse_id c row) (\<lambda>i.
     bind_res (parse_secret_kind (r_kind row)) (\<lambda>kind.
     bind_res (parse_timestamp c ''created_at'' (r_created_at row)) (\<lambda>created.
     bind_res (parse_timestamp c ''updated_at'' (r_updated_at row)) (\<lambda>updated.
     bind_res (get_version c row) (\<lambda>version.
     Inr \<lparr>md_id = i, md_name = SecretName (r_name row), md_kind = kind,
          md_description = r_description row, md_created_at = created,
          md_updated_at = updated, md_version = version\<rparr>)))))"

text \<open>A row that does not convert is reported through rusqlite's conversion error.\<close>

definition conversion_error :: "store_codec \<Rightarrow> string \<Rightarrow> Error \<Rightarrow> Error" where
  "conversion_error c what e = Storage (what @ sc_conv_text c (show_Error (sc_uuid_str c) e))"

section \<open>Operations\<close>

type_synonym 'x sql_op = "(secret_row list \<times> env, Error, 'x) op"

definition storage_error :: "string \<Rightarrow> string \<Rightarrow> Error" where
  "storage_error what m = Storage (what @ m)"

definition sqlite_put :: "store_codec \<Rightarrow> StoreSecretParams \<Rightarrow> StoredSecret sql_op" where
  "sqlite_put c p =
     let_op (\<lambda>(rows, e). case SecretId_new e of (i, e') \<Rightarrow> (i, rows, e')) (\<lambda>i.
     let_op (\<lambda>(rows, e). case utc_now e of (t, e') \<Rightarrow> (t, rows, e')) (\<lambda>now.
     try_op (io_guard (storage_error ''insert failed: '')) (\<lambda>_.
     (\<lambda>(rows, e).
       let row = \<lparr>r_id = sc_uuid_str c (sid_uuid i), r_name = name_str (sp_name p),
                  r_ciphertext = sp_ciphertext p, r_nonce = sp_nonce p,
                  r_algorithm = CipherAlgorithm_as_str (sp_algorithm p),
                  r_kind = SecretKind_as_str (sp_kind p), r_description = sp_description p,
                  r_created_at = sc_time_str c now, r_updated_at = sc_time_str c now, r_version = 1\<rparr>
       in if r_id row \<in> r_id ` set rows \<or> r_name row \<in> r_name ` set rows
          then (Inl (SecretAlreadyExists (sp_name p)), rows, e)
          else (Inr \<lparr>ss_id = i, ss_name = sp_name p, ss_ciphertext = sp_ciphertext p,
                     ss_nonce = sp_nonce p, ss_algorithm = sp_algorithm p, ss_kind = sp_kind p,
                     ss_description = sp_description p, ss_created_at = now, ss_updated_at = now,
                     ss_version = 1\<rparr>, rows @ [row], e)))))"

definition select_row :: "secret_row list \<Rightarrow> SecretName \<Rightarrow> secret_row option" where
  "select_row rows name = find (\<lambda>r. r_name r = name_str name) rows"

definition sqlite_get :: "store_codec \<Rightarrow> SecretName \<Rightarrow> StoredSecret sql_op" where
  "sqlite_get c name =
     try_op (io_guard (storage_error ''prepare failed: '')) (\<lambda>_.
     try_op (io_guard (storage_error ''query failed: '')) (\<lambda>_.
     (\<lambda>(rows, e).
       (case select_row rows name of
          None \<Rightarrow> Inl (SecretNotFound name)
        | Some row \<Rightarrow>
           (case row_to_stored_secret c row of
              Inl er \<Rightarrow> Inl (conversion_error c ''query failed: '' er)
            | Inr x \<Rightarrow> Inr x), rows, e))))"

text \<open>The \<^verbatim>\<open>UPDATE\<close> statement: the number of rows changed and the new table.\<close>

definition update_rows ::
  "SecretName \<Rightarrow> bytes \<Rightarrow> bytes \<Rightarrow> string \<Rightarrow> string \<Rightarrow> secret_row list \<Rightarrow> nat \<times> secret_row list" where
  "update_rows name ct no alg now rows =
     (length (filter (\<lambda>r. r_name r = name_str name) rows),
      map (\<lambda>r. if r_name r = name_str name
               then r\<lparr>r_ciphertext := ct, r_nonce := no, r_algorithm := alg, r_updated_at := now,
                      r_version := r_version r + 1\<rparr> else r) rows)"

definition draw_time :: "store_codec \<Rightarrow> 'x \<times> env \<Rightarrow> string \<times> 'x \<times> env" where
  "draw_time c = (\<lambda>(x, e). case utc_now e of (t, e') \<Rightarrow> (sc_time_str c t, x, e'))"

definition exec_update ::
  "string \<Rightarrow> SecretName \<Rightarrow> bytes \<Rightarrow> bytes \<Rightarrow> string \<Rightarrow> string \<Rightarrow> nat sql_op" where
  "exec_update what name ct no alg now =
     try_op (io_guard (storage_error what)) (\<lambda>_.
     (\<lambda>(rows, e). case update_rows name ct no alg now rows of (n, rows') \<Rightarrow> (Inr n, rows', e)))"

text \<open>The read at the end of an update.\<close>

definition reread :: "store_codec \<Rightarrow> SecretName \<Rightarrow> StoredSecret sql_op" where
  "reread c name =
     try_op (io_guard (storage_error ''prepare failed: '')) (\<lambda>_.
     try_op (io_guard (storage_error ''query failed: '')) (\<lambda>_.
     (\<lambda>(rows, e).
       (case select_row rows name of
          None \<Rightarrow> Inl (storage_error ''query failed: '' ''Query returned no rows'')
        | Some row \<Rightarrow>
           (case row_to_stored_secret c row of
              Inl er \<Rightarrow> Inl (conversion_error c ''query failed: '' er)
            | Inr x \<Rightarrow> Inr x), rows, e))))"

definition sqlite_update ::
  "store_codec \<Rightarrow> SecretName \<Rightarrow> bytes \<Rightarrow> bytes \<Rightarrow> CipherAlgorithm \<Rightarrow> StoredSecret sql_op" where
  "sqlite_update c name ct no alg =
     let_op (draw_time c) (\<lambda>now.
     try_op (exec_update ''update failed: '' name ct no (CipherAlgorithm_as_str alg) now) (\<lambda>n.
     if n = 0 then fail (SecretNotFound name) else reread c name))"

fun batch_loop :: "store_codec \<Rightarrow> BatchUpdateItem list \<Rightarrow> unit sql_op" where
  "batch_loop c [] = ok ()"
| "batch_loop c (u # us) =
     let_op (draw_time c) (\<lambda>now.
     try_op (exec_update ''batch update failed: '' (bu_name u) (bu_ciphertext u) (bu_nonce u)
       (CipherAlgorithm_as_str (bu_algorithm u)) now) (\<lambda>n.
     if n = 0 then fail (SecretNotFound (bu_name u)) else batch_loop c us))"

text \<open>A transaction: an error before or at the commit restores the table.\<close>

definition sqlite_batch_update :: "store_codec \<Rightarrow> BatchUpdateItem list \<Rightarrow> unit sql_op" where
  "sqlite_batch_update c us = (\<lambda>(rows, e).
     case try_op (io_guard (storage_error ''failed to begin transaction: '')) (\<lambda>_.
          try_op (batch_loop c us) (\<lambda>_.
          io_guard (storage_error ''transaction commit failed: ''))) (rows, e) of
       (Inl er, rows', e') \<Rightarrow> (Inl er, rows, e')
     | (Inr u, rows', e') \<Rightarrow> (Inr u, rows', e'))"

definition sqlite_delete :: "SecretName \<Rightarrow> unit sql_op" where
  "sqlite_delete name =
     try_op (io_guard (storage_error ''delete failed: '')) (\<lambda>_.
     (\<lambda>(rows, e).
       if list_ex (\<lambda>r. r_name r = name_str name) rows
       then (Inr (), filter (\<lambda>r. r_name r \<noteq> name_str name) rows, e)
       else (Inl (SecretNotFound name), rows, e)))"

fun collect_metadata :: "store_codec \<Rightarrow> secret_row list \<Rightarrow> SecretMetadata list result" where
  "collect_metadata c [] = Inr []"
| "collect_metadata c (row # rows) =
     (case row_to_metadata c row of
        Inl er \<Rightarrow> Inl (conversion_error c ''row extraction failed: '' er)
      | Inr m \<Rightarrow> bind_res (collect_metadata c rows) (\<lambda>ms. Inr (m # ms)))"

definition sqlite_list :: "store_codec \<Rightarrow> SecretMetadata list sql_op" where
  "sqlite_list c =
     try_op (io_guard (storage_error ''prepare failed: '')) (\<lambda>_.
     try_op (io_guard (storage_error ''list query failed: '')) (\<lambda>_.
     (\<lambda>(rows, e). (collect_metadata c rows, rows, e))))"

text \<open>Opening runs on the rows of the file at the path, none for a new file; the schema is created if missing.\<close>

definition RusqliteStore_new :: "unit sql_op" where
  "RusqliteStore_new =
     try_op (io_guard (storage_error ''failed to open database: '')) (\<lambda>_.
     io_guard (storage_error ''failed to create schema: ''))"

definition RusqliteStore :: "store_codec \<Rightarrow> secret_row list SecretStore" where
  "RusqliteStore c =
     \<lparr>put = sqlite_put c, get = sqlite_get c, update = sqlite_update c,
      batch_update = sqlite_batch_update c, delete = sqlite_delete, list_all_md = sqlite_list c\<rparr>"

section \<open>Abstraction and invariant\<close>

text \<open>What is asked of the UUID and time crates: printing, then parsing, is the identity.\<close>

definition store_codec_ok :: "store_codec \<Rightarrow> bool" where
  "store_codec_ok c \<longleftrightarrow>
     (\<forall>u. sc_uuid_parse c (sc_uuid_str c u) = Inr u) \<and>
     (\<forall>t. sc_time_parse c (sc_time_str c t) = Inr t)"

definition row_sealed :: "secret_row \<Rightarrow> Sealed" where
  "row_sealed r =
     \<lparr>sealed_ciphertext = r_ciphertext r, sealed_nonce = r_nonce r,
      sealed_algorithm = (case parse_cipher_algorithm (r_algorithm r) of Inr a \<Rightarrow> a | Inl _ \<Rightarrow> Aes256Gcm)\<rparr>"

definition sqlite_abs :: "secret_row list \<Rightarrow> SecretName \<Rightarrow> Sealed option" where
  "sqlite_abs rows n = map_option row_sealed (select_row rows n)"

definition row_ok :: "store_codec \<Rightarrow> secret_row \<Rightarrow> bool" where
  "row_ok c r \<longleftrightarrow>
     is_ok (sc_uuid_parse c (r_id r)) \<and> is_ok (parse_cipher_algorithm (r_algorithm r)) \<and>
     is_ok (parse_secret_kind (r_kind r)) \<and> is_ok (sc_time_parse c (r_created_at r)) \<and>
     is_ok (sc_time_parse c (r_updated_at r)) \<and> 1 \<le> r_version r"

definition sqlite_inv :: "store_codec \<Rightarrow> secret_row list \<Rightarrow> bool" where
  "sqlite_inv c rows \<longleftrightarrow>
     store_codec_ok c \<and> distinct (map r_name rows) \<and> distinct (map r_id rows) \<and> list_all (row_ok c) rows"

definition sqlite_readable :: "secret_row list \<Rightarrow> SecretName \<Rightarrow> bool" where
  "sqlite_readable rows n \<longleftrightarrow> (\<forall>r. select_row rows n = Some r \<longrightarrow> r_version r < 2 ^ 31)"

section \<open>Lemmas\<close>

lemma select_row_simps [simp]:
  "select_row [] n = None"
  "select_row (r # rows) n = (if r_name r = name_str n then Some r else select_row rows n)"
  by (simp_all add: select_row_def)

lemma select_row_None: "select_row rows n = None \<longleftrightarrow> name_str n \<notin> r_name ` set rows"
  by (induction rows) auto

lemma select_row_Some: "select_row rows n = Some r \<Longrightarrow> r \<in> set rows \<and> r_name r = name_str n"
  by (induction rows) (auto split: if_splits)

lemma select_row_append:
  "select_row (rows @ rows') n = (case select_row rows n of None \<Rightarrow> select_row rows' n | Some r \<Rightarrow> Some r)"
  by (induction rows) auto

lemma name_str_eq [simp]: "name_str a = name_str b \<longleftrightarrow> a = b"
  by (cases a; cases b) simp

lemma dom_sqlite_abs: "dom (sqlite_abs rows) = {n. name_str n \<in> r_name ` set rows}"
  by (rule set_eqI) (simp add: domIff sqlite_abs_def select_row_None del: not_None_eq)

lemma bind_res_Inr: "bind_res x f = Inr y \<longleftrightarrow> (\<exists>z. x = Inr z \<and> f z = Inr y)"
  by (auto simp: bind_res_def split: sum.splits)

lemma row_to_stored_secret_Inr:
  "row_to_stored_secret c r = Inr x \<Longrightarrow> ss_name x = SecretName (r_name r) \<and> stored_sealed x = row_sealed r"
  by (auto simp: row_to_stored_secret_def bind_res_Inr stored_sealed_def row_sealed_def)

lemma row_to_stored_secret_ok:
  "row_ok c r \<Longrightarrow> r_version r < 2 ^ 31 \<Longrightarrow> \<exists>x. row_to_stored_secret c r = Inr x"
  by (auto simp: row_ok_def is_ok_iff row_to_stored_secret_def bind_res_def parse_id_def parse_timestamp_def
      get_version_def)

lemma row_to_metadata_Inr: "row_to_metadata c r = Inr m \<Longrightarrow> md_name m = SecretName (r_name r)"
  by (auto simp: row_to_metadata_def bind_res_Inr)

lemma collect_metadata_names:
  "collect_metadata c rows = Inr ms \<Longrightarrow> map md_name ms = map (\<lambda>r. SecretName (r_name r)) rows"
  by (induction rows arbitrary: ms) (auto simp: bind_res_Inr row_to_metadata_Inr split: sum.splits)

lemma io_guard_Inr: "io_guard err (x, e) = (Inr u, x', e') \<longleftrightarrow> env_fault e (env_pos e) = None \<and> x' = x \<and> e' = env_step e"
  by (auto simp: io_guard_eq split: option.splits)

lemma io_guard_Inl: "io_guard err (x, e) = (Inl er, x', e') \<longleftrightarrow>
    (\<exists>m. env_fault e (env_pos e) = Some m \<and> er = err m) \<and> x' = x \<and> e' = env_step e"
  by (auto simp: io_guard_eq split: option.splits)

text \<open>Opening never touches the rows that are there.\<close>

lemma opened_twice_keeps:
  "try_op (io_guard f) (\<lambda>_. io_guard g) (rows, e) = (r, rows', e') \<Longrightarrow> rows' = rows"
  by (auto simp: op_defs io_guard_eq split: option.splits)

lemma RusqliteStore_new_keeps: "RusqliteStore_new (rows, e) = (r, rows', e') \<Longrightarrow> rows' = rows"
  unfolding RusqliteStore_new_def by (rule opened_twice_keeps)

lemma quiet_fault [simp]: "quiet e \<Longrightarrow> env_fault e i = None"
  by (simp add: quiet_def)

lemma env_le_steps:
  "env_le e (env_step e)" "env_le e (env_step (env_step e))" "env_le e (env_step (env_step (env_step e)))"
  "env_le e (env_step (env_step (env_step (env_step e))))"
  by (simp_all add: env_le_def)

section \<open>The update statement\<close>

lemma parse_as_str_alg [simp]: "parse_cipher_algorithm (CipherAlgorithm_as_str a) = Inr a"
  by (cases a) (simp_all add: parse_cipher_algorithm_def)

lemma parse_as_str_kind [simp]: "is_ok (parse_secret_kind (SecretKind_as_str k))"
  by (cases k) (simp_all add: parse_secret_kind_def)

lemma update_rows_abs:
  "sqlite_abs (snd (update_rows n ct no (CipherAlgorithm_as_str al) now rows)) =
     (if n \<in> dom (sqlite_abs rows)
      then (sqlite_abs rows)(n \<mapsto> \<lparr>sealed_ciphertext = ct, sealed_nonce = no, sealed_algorithm = al\<rparr>)
      else sqlite_abs rows)"
proof -
  have "sqlite_abs (snd (update_rows n ct no (CipherAlgorithm_as_str al) now rows)) k =
      (if k = n \<and> sqlite_abs rows n \<noteq> None
       then Some \<lparr>sealed_ciphertext = ct, sealed_nonce = no, sealed_algorithm = al\<rparr> else sqlite_abs rows k)" for k
    by (induction rows) (auto simp: update_rows_def sqlite_abs_def row_sealed_def)
  then show ?thesis by (auto simp: fun_eq_iff)
qed

lemma update_rows_count: "fst (update_rows n ct no al now rows) = 0 \<longleftrightarrow> n \<notin> dom (sqlite_abs rows)"
  unfolding dom_sqlite_abs by (auto simp: update_rows_def filter_empty_conv image_iff)

lemma update_rows_inv:
  assumes "sqlite_inv c rows"
  shows "sqlite_inv c (snd (update_rows n ct no (CipherAlgorithm_as_str al) (sc_time_str c t) rows))"
proof -
  let ?f = "\<lambda>r. if r_name r = name_str n
    then r\<lparr>r_ciphertext := ct, r_nonce := no, r_algorithm := CipherAlgorithm_as_str al,
      r_updated_at := sc_time_str c t, r_version := r_version r + 1\<rparr> else r"
  have "map r_name (map ?f rows) = map r_name rows" "map r_id (map ?f rows) = map r_id rows"
    by (induction rows) auto
  moreover have "list_all (row_ok c) (map ?f rows)"
    using assms by (auto simp: sqlite_inv_def store_codec_ok_def list_all_iff row_ok_def)
  ultimately show ?thesis using assms by (simp add: update_rows_def sqlite_inv_def del: map_map)
qed

lemma exec_update_eq:
  "exec_update what n ct no al now (rows, e) =
     (case env_fault e (env_pos e) of
        Some m \<Rightarrow> (Inl (storage_error what m), rows, env_step e)
      | None \<Rightarrow> (Inr (fst (update_rows n ct no al now rows)),
          snd (update_rows n ct no al now rows), env_step e))"
  by (simp add: exec_update_def try_op_def io_guard_eq case_prod_beta split: option.splits)

lemma draw_time_eq: "draw_time c (x, e) = (sc_time_str c (env_clock e (env_pos e)), x, env_step e)"
  by (simp add: draw_time_def utc_now_def)

lemma batch_loop_spec:
  assumes "sqlite_inv c rows" and "batch_loop c us (rows, e) = (r, rows', e')"
  shows "sqlite_inv c rows' \<and> env_le e e' \<and> (\<forall>u. r = Inr u \<longrightarrow> apply_batch us (sqlite_abs rows) = Some (sqlite_abs rows'))"
  using assms
proof (induction us arbitrary: rows e)
  case (Cons u us)
  let ?t = "env_clock e (env_pos e)"
  let ?up = "update_rows (bu_name u) (bu_ciphertext u) (bu_nonce u) (CipherAlgorithm_as_str (bu_algorithm u)) (sc_time_str c ?t) rows"
  have sealed: "item_sealed u = \<lparr>sealed_ciphertext = bu_ciphertext u, sealed_nonce = bu_nonce u, sealed_algorithm = bu_algorithm u\<rparr>"
    by (simp add: item_sealed_def)
  have run: "try_op (exec_update ''batch update failed: '' (bu_name u) (bu_ciphertext u) (bu_nonce u)
       (CipherAlgorithm_as_str (bu_algorithm u)) (sc_time_str c ?t)) (\<lambda>n.
     if n = 0 then fail (SecretNotFound (bu_name u)) else batch_loop c us) (rows, env_step e) = (r, rows', e')"
    using Cons.prems(2) by (simp add: let_op_def draw_time_eq)
  show ?case
  proof (cases "env_fault e (Suc (env_pos e))")
    case (Some m)
    then show ?thesis using run Cons.prems(1) by (auto simp: try_op_def exec_update_eq env_le_steps)
  next
    case None
    show ?thesis
    proof (cases "bu_name u \<in> dom (sqlite_abs rows)")
      case False
      then have "fst ?up = 0" by (simp add: update_rows_count)
      then have "(r, rows', e') = (Inl (SecretNotFound (bu_name u)), snd ?up, env_step (env_step e))"
        using run None by (simp add: try_op_def exec_update_eq fail_def)
      then show ?thesis using update_rows_inv [OF Cons.prems(1)] by (simp add: env_le_steps)
    next
      case True
      then have "fst ?up \<noteq> 0" by (simp add: update_rows_count)
      then have rest: "batch_loop c us (snd ?up, env_step (env_step e)) = (r, rows', e')"
        using run None by (simp add: try_op_def exec_update_eq)
      from Cons.IH [OF update_rows_inv [OF Cons.prems(1)] rest] True show ?thesis
        by (auto simp: update_rows_abs sealed fun_upd_def intro: env_le_trans [OF env_le_steps(2)])
    qed
  qed
qed simp

section \<open>The store contract\<close>

lemma sqlite_batch_spec:
  assumes "sqlite_inv c rows" and "sqlite_batch_update c us (rows, e) = (r, rows', e')"
  shows "sqlite_inv c rows' \<and> env_le e e' \<and>
    (case r of Inl _ \<Rightarrow> rows' = rows | Inr _ \<Rightarrow> apply_batch us (sqlite_abs rows) = Some (sqlite_abs rows'))"
proof -
  obtain x rows1 e1 where loop: "batch_loop c us (rows, env_step e) = (x, rows1, e1)" by (rule prod_cases3)
  note spec = batch_loop_spec [OF assms(1) loop]
  have le: "env_le e e1" using spec by (blast intro: env_le_trans [OF env_le_step])
  then have le': "env_le e (env_step e1)" by (blast intro: env_le_trans env_le_step)
  show ?thesis using assms spec loop le le'
    by (auto simp: sqlite_batch_update_def try_op_def io_guard_eq split: option.splits sum.splits)
qed

lemma sqlite_get_eq:
  "sqlite_get c n (rows, e) =
     (case env_fault e (env_pos e) of
        Some m \<Rightarrow> (Inl (storage_error ''prepare failed: '' m), rows, env_step e)
      | None \<Rightarrow> (case env_fault e (Suc (env_pos e)) of
          Some m \<Rightarrow> (Inl (storage_error ''query failed: '' m), rows, env_step (env_step e))
        | None \<Rightarrow> ((case select_row rows n of
              None \<Rightarrow> Inl (SecretNotFound n)
            | Some row \<Rightarrow> (case row_to_stored_secret c row of
                Inl er \<Rightarrow> Inl (conversion_error c ''query failed: '' er)
              | Inr x \<Rightarrow> Inr x)), rows, env_step (env_step e))))"
  by (simp add: sqlite_get_def try_op_def io_guard_eq split: option.splits)

lemma sqlite_get_spec:
  assumes "sqlite_get c n (rows, e) = (r, rows', e')"
  shows "rows' = rows \<and> env_le e e'"
    and "r = Inr x \<Longrightarrow> ss_name x = n \<and> sqlite_abs rows n = Some (stored_sealed x)"
proof -
  show "rows' = rows \<and> env_le e e'"
    using assms by (auto simp: sqlite_get_eq env_le_steps split: option.splits)
  show "ss_name x = n \<and> sqlite_abs rows n = Some (stored_sealed x)" if "r = Inr x"
    using assms that select_row_Some [of rows n] row_to_stored_secret_Inr [of c]
    by (cases n) (fastforce simp: sqlite_get_eq sqlite_abs_def split: option.splits sum.splits)
qed

lemma sqlite_get_live:
  assumes "sqlite_inv c rows" and "quiet e"
  shows "sqlite_abs rows n = Some y \<Longrightarrow> sqlite_readable rows n \<Longrightarrow> \<exists>x. fst (sqlite_get c n (rows, e)) = Inr x"
    and "sqlite_abs rows n = None \<Longrightarrow> fst (sqlite_get c n (rows, e)) = Inl (SecretNotFound n)"
proof -
  show "\<exists>x. fst (sqlite_get c n (rows, e)) = Inr x" if ab: "sqlite_abs rows n = Some y" and rd: "sqlite_readable rows n"
  proof -
    obtain row where row: "select_row rows n = Some row" using ab by (auto simp: sqlite_abs_def)
    then have "row_ok c row" using assms(1) select_row_Some [OF row] by (auto simp: sqlite_inv_def list_all_iff)
    then obtain x where "row_to_stored_secret c row = Inr x"
      using row_to_stored_secret_ok [of c row] rd row by (auto simp: sqlite_readable_def)
    then show ?thesis using row assms(2) by (simp add: sqlite_get_eq)
  qed
  show "sqlite_abs rows n = None \<Longrightarrow> fst (sqlite_get c n (rows, e)) = Inl (SecretNotFound n)"
    using assms(2) by (simp add: sqlite_get_eq sqlite_abs_def)
qed

text \<open>The row \<open>put\<close> would insert at environment \<open>e\<close>.\<close>

definition put_row :: "store_codec \<Rightarrow> StoreSecretParams \<Rightarrow> env \<Rightarrow> secret_row" where
  "put_row c p e =
     \<lparr>r_id = sc_uuid_str c (env_uuid e (env_pos e)), r_name = name_str (sp_name p),
      r_ciphertext = sp_ciphertext p, r_nonce = sp_nonce p,
      r_algorithm = CipherAlgorithm_as_str (sp_algorithm p), r_kind = SecretKind_as_str (sp_kind p),
      r_description = sp_description p, r_created_at = sc_time_str c (env_clock e (Suc (env_pos e))),
      r_updated_at = sc_time_str c (env_clock e (Suc (env_pos e))), r_version = 1\<rparr>"

lemma sqlite_put_eq:
  "sqlite_put c p (rows, e) =
     (case env_fault e (Suc (Suc (env_pos e))) of
        Some m \<Rightarrow> (Inl (storage_error ''insert failed: '' m), rows, env_step (env_step (env_step e)))
      | None \<Rightarrow>
         (if r_id (put_row c p e) \<in> r_id ` set rows \<or> name_str (sp_name p) \<in> r_name ` set rows
          then (Inl (SecretAlreadyExists (sp_name p)), rows, env_step (env_step (env_step e)))
          else (Inr \<lparr>ss_id = SecretId (env_uuid e (env_pos e)), ss_name = sp_name p,
              ss_ciphertext = sp_ciphertext p, ss_nonce = sp_nonce p, ss_algorithm = sp_algorithm p,
              ss_kind = sp_kind p, ss_description = sp_description p,
              ss_created_at = env_clock e (Suc (env_pos e)), ss_updated_at = env_clock e (Suc (env_pos e)),
              ss_version = 1\<rparr>, rows @ [put_row c p e], env_step (env_step (env_step e)))))"
  by (simp add: sqlite_put_def let_op_def try_op_def io_guard_eq SecretId_new_def uuid_now_v7_def utc_now_def
      put_row_def Let_def split: option.splits)

lemma put_row_ok: "store_codec_ok c \<Longrightarrow> row_ok c (put_row c p e)"
  by (simp add: row_ok_def put_row_def store_codec_ok_def)

lemma put_row_sealed: "row_sealed (put_row c p e) = params_sealed p"
  by (simp add: row_sealed_def put_row_def params_sealed_def)

lemma sqlite_put_spec:
  assumes "sqlite_inv c rows" and "sqlite_put c p (rows, e) = (r, rows', e')"
  shows "sqlite_inv c rows' \<and> env_le e e'"
    and "r = Inl er \<Longrightarrow> rows' = rows"
    and "r = Inr x \<Longrightarrow> sqlite_abs rows (sp_name p) = None \<and>
      sqlite_abs rows' = (sqlite_abs rows)(sp_name p \<mapsto> params_sealed p) \<and> ss_name x = sp_name p \<and>
      sqlite_readable rows' (sp_name p)"
proof -
  have nm: "r_name (put_row c p e) = name_str (sp_name p)" "r_version (put_row c p e) = 1"
    by (simp_all add: put_row_def)
  show "sqlite_inv c rows' \<and> env_le e e'"
    using assms put_row_ok [of c p e]
    by (auto simp: sqlite_put_eq sqlite_inv_def nm env_le_steps split: option.splits if_splits)
  show "r = Inl er \<Longrightarrow> rows' = rows"
    using assms by (auto simp: sqlite_put_eq split: option.splits if_splits)
  assume "r = Inr x"
  then have ins: "rows' = rows @ [put_row c p e]" "select_row rows (sp_name p) = None" "ss_name x = sp_name p"
    using assms by (auto simp: sqlite_put_eq select_row_None split: option.splits if_splits)
  show "sqlite_abs rows (sp_name p) = None \<and>
      sqlite_abs rows' = (sqlite_abs rows)(sp_name p \<mapsto> params_sealed p) \<and> ss_name x = sp_name p \<and>
      sqlite_readable rows' (sp_name p)"
    using ins by (auto simp: sqlite_abs_def sqlite_readable_def select_row_append nm put_row_sealed fun_eq_iff
        split: option.splits if_splits)
qed

lemma reread_spec:
  assumes "reread c n (rows, e) = (r, rows', e')"
  shows "rows' = rows \<and> env_le e e'" and "r = Inr x \<Longrightarrow> sqlite_abs rows n = Some (stored_sealed x)"
proof -
  show "rows' = rows \<and> env_le e e'"
    using assms by (auto simp: reread_def try_op_def io_guard_eq env_le_steps split: option.splits)
  assume "r = Inr x"
  then obtain row where "select_row rows n = Some row" "row_to_stored_secret c row = Inr x"
    using assms by (auto simp: reread_def try_op_Inr io_guard_Inr split: option.splits sum.splits)
  then show "sqlite_abs rows n = Some (stored_sealed x)"
    using row_to_stored_secret_Inr [of c row x] by (simp add: sqlite_abs_def)
qed

lemma sqlite_update_spec:
  assumes "sqlite_inv c rows" and "sqlite_update c n ct no al (rows, e) = (r, rows', e')"
  shows "sqlite_inv c rows' \<and> env_le e e' \<and>
    (\<forall>x. r = Inr x \<longrightarrow> n \<in> dom (sqlite_abs rows) \<and>
      sqlite_abs rows' = (sqlite_abs rows)(n \<mapsto> \<lparr>sealed_ciphertext = ct, sealed_nonce = no, sealed_algorithm = al\<rparr>) \<and>
      sqlite_abs rows' n = Some (stored_sealed x))"
proof -
  let ?t = "sc_time_str c (env_clock e (env_pos e))"
  let ?up = "update_rows n ct no (CipherAlgorithm_as_str al) ?t rows"
  have inv: "sqlite_inv c (snd ?up)" by (rule update_rows_inv [OF assms(1)])
  have run: "try_op (exec_update ''update failed: '' n ct no (CipherAlgorithm_as_str al) ?t) (\<lambda>k.
      if k = 0 then fail (SecretNotFound n) else reread c n) (rows, env_step e) = (r, rows', e')"
    using assms(2) by (simp add: sqlite_update_def let_op_def draw_time_eq)
  show ?thesis
  proof (cases "env_fault e (Suc (env_pos e))")
    case (Some m)
    then show ?thesis using run assms(1) by (auto simp: try_op_def exec_update_eq env_le_steps)
  next
    case None
    show ?thesis
    proof (cases "n \<in> dom (sqlite_abs rows)")
      case False
      then have "fst ?up = 0" by (simp add: update_rows_count)
      then show ?thesis using run None inv by (auto simp: try_op_def exec_update_eq fail_def env_le_steps)
    next
      case True
      then have "fst ?up \<noteq> 0" by (simp add: update_rows_count)
      then have rest: "reread c n (snd ?up, env_step (env_step e)) = (r, rows', e')"
        using run None by (simp add: try_op_def exec_update_eq)
      from reread_spec [OF rest] inv True show ?thesis
        by (auto simp: update_rows_abs simp del: domIff intro: env_le_trans [OF env_le_steps(2)])
    qed
  qed
qed

lemma sqlite_delete_spec:
  assumes "sqlite_inv c rows" and "sqlite_delete n (rows, e) = (r, rows', e')"
  shows "sqlite_inv c rows' \<and> env_le e e'"
    and "r = Inl er \<Longrightarrow> rows' = rows"
    and "r = Inr u \<Longrightarrow> n \<in> dom (sqlite_abs rows) \<and> sqlite_abs rows' = (sqlite_abs rows)(n := None)"
proof -
  let ?rows = "filter (\<lambda>r. r_name r \<noteq> name_str n) rows"
  have "sqlite_inv c ?rows" using assms(1) by (auto simp: sqlite_inv_def list_all_iff distinct_map_filter)
  then show "sqlite_inv c rows' \<and> env_le e e'"
    using assms by (auto simp: sqlite_delete_def try_op_def io_guard_eq env_le_steps split: option.splits if_splits)
  show "r = Inl er \<Longrightarrow> rows' = rows"
    using assms by (auto simp: sqlite_delete_def try_op_def io_guard_eq split: option.splits if_splits)
  have sel: "select_row ?rows k = (if k = n then None else select_row rows k)" for k
    by (induction rows) auto
  show "r = Inr u \<Longrightarrow> n \<in> dom (sqlite_abs rows) \<and> sqlite_abs rows' = (sqlite_abs rows)(n := None)"
    using assms(2) unfolding dom_sqlite_abs
    by (auto simp: sqlite_delete_def try_op_def io_guard_eq sqlite_abs_def sel list_ex_iff fun_eq_iff
        intro: rev_image_eqI split: option.splits if_splits)
qed

lemma sqlite_list_spec:
  assumes "sqlite_list c (rows, e) = (r, rows', e')"
  shows "rows' = rows \<and> env_le e e'"
    and "sqlite_inv c rows \<Longrightarrow> r = Inr ms \<Longrightarrow>
      distinct (map md_name ms) \<and> set (map md_name ms) = dom (sqlite_abs rows)"
proof -
  show "rows' = rows \<and> env_le e e'"
    using assms by (auto simp: sqlite_list_def try_op_def io_guard_eq env_le_steps split: option.splits)
  assume inv: "sqlite_inv c rows" and r: "r = Inr ms"
  have "collect_metadata c rows = Inr ms"
    using assms r by (auto simp: sqlite_list_def try_op_def io_guard_eq split: option.splits)
  then have names: "map md_name ms = map (\<lambda>r. SecretName (r_name r)) rows" by (rule collect_metadata_names)
  have "distinct (map (\<lambda>r. SecretName (r_name r)) rows)"
    using inv by (auto simp: sqlite_inv_def distinct_map inj_on_def)
  moreover have "set (map (\<lambda>r. SecretName (r_name r)) rows) = dom (sqlite_abs rows)"
  proof -
    have "n \<in> (\<lambda>r. SecretName (r_name r)) ` set rows \<longleftrightarrow> name_str n \<in> r_name ` set rows" for n
      by (cases n) (auto simp: image_iff)
    then show ?thesis by (auto simp: dom_sqlite_abs)
  qed
  ultimately show "distinct (map md_name ms) \<and> set (map md_name ms) = dom (sqlite_abs rows)"
    using names by simp
qed

interpretation sqlite: secret_store "RusqliteStore c" sqlite_abs "sqlite_inv c" sqlite_readable for c
proof unfold_locales
  note d = RusqliteStore_def
  fix n s e r s' e' x y p ct no al us u er rl ms ru
  show "get (RusqliteStore c) n (s, e) = (r, s', e') \<Longrightarrow> s' = s \<and> env_le e e'"
    using sqlite_get_spec(1) by (simp add: d)
  show "sqlite_inv c s \<Longrightarrow> get (RusqliteStore c) n (s, e) = (Inr x, s', e') \<Longrightarrow>
      ss_name x = n \<and> sqlite_abs s n = Some (stored_sealed x)"
    using sqlite_get_spec(2) by (simp add: d)
  show "sqlite_inv c s \<Longrightarrow> quiet e \<Longrightarrow> sqlite_abs s n = Some y \<Longrightarrow> sqlite_readable s n \<Longrightarrow>
      \<exists>x. fst (get (RusqliteStore c) n (s, e)) = Inr x"
    using sqlite_get_live(1) by (simp add: d)
  show "sqlite_inv c s \<Longrightarrow> quiet e \<Longrightarrow> sqlite_abs s n = None \<Longrightarrow>
      fst (get (RusqliteStore c) n (s, e)) = Inl (SecretNotFound n)"
    using sqlite_get_live(2) by (simp add: d)
  show "sqlite_inv c s \<Longrightarrow> put (RusqliteStore c) p (s, e) = (r, s', e') \<Longrightarrow> sqlite_inv c s' \<and> env_le e e'"
    using sqlite_put_spec(1) by (simp add: d)
  show "sqlite_inv c s \<Longrightarrow> put (RusqliteStore c) p (s, e) = (Inr x, s', e') \<Longrightarrow>
      sqlite_abs s (sp_name p) = None \<and> sqlite_abs s' = (sqlite_abs s)(sp_name p \<mapsto> params_sealed p) \<and>
      ss_name x = sp_name p \<and> sqlite_readable s' (sp_name p)"
    using sqlite_put_spec(3) by (simp add: d)
  show "sqlite_inv c s \<Longrightarrow> put (RusqliteStore c) p (s, e) = (Inl er, s', e') \<Longrightarrow> sqlite_abs s' = sqlite_abs s"
    using sqlite_put_spec(2) [of c s p e "Inl er" s' e' er] by (simp add: d)
  show "sqlite_inv c s \<Longrightarrow> update (RusqliteStore c) n ct no al (s, e) = (r, s', e') \<Longrightarrow> sqlite_inv c s' \<and> env_le e e'"
    using sqlite_update_spec by (simp add: d)
  show "sqlite_inv c s \<Longrightarrow> update (RusqliteStore c) n ct no al (s, e) = (Inr x, s', e') \<Longrightarrow>
      n \<in> dom (sqlite_abs s) \<and>
      sqlite_abs s' = (sqlite_abs s)(n \<mapsto> \<lparr>sealed_ciphertext = ct, sealed_nonce = no, sealed_algorithm = al\<rparr>) \<and>
      sqlite_abs s' n = Some (stored_sealed x)"
    using sqlite_update_spec [of c s n ct no al e "Inr x" s' e'] by (auto simp: d)
  show "sqlite_inv c s \<Longrightarrow> batch_update (RusqliteStore c) us (s, e) = (ru, s', e') \<Longrightarrow> sqlite_inv c s' \<and> env_le e e'"
    using sqlite_batch_spec by (simp add: d)
  show "sqlite_inv c s \<Longrightarrow> batch_update (RusqliteStore c) us (s, e) = (Inr u, s', e') \<Longrightarrow>
      apply_batch us (sqlite_abs s) = Some (sqlite_abs s')"
    using sqlite_batch_spec by (fastforce simp: d)
  show "sqlite_inv c s \<Longrightarrow> batch_update (RusqliteStore c) us (s, e) = (Inl er, s', e') \<Longrightarrow> sqlite_abs s' = sqlite_abs s"
    using sqlite_batch_spec by (fastforce simp: d)
  show "sqlite_inv c s \<Longrightarrow> delete (RusqliteStore c) n (s, e) = (ru, s', e') \<Longrightarrow> sqlite_inv c s' \<and> env_le e e'"
    using sqlite_delete_spec(1) by (simp add: d)
  show "sqlite_inv c s \<Longrightarrow> delete (RusqliteStore c) n (s, e) = (Inr u, s', e') \<Longrightarrow>
      n \<in> dom (sqlite_abs s) \<and> sqlite_abs s' = (sqlite_abs s)(n := None)"
    using sqlite_delete_spec(3) by (simp add: d)
  show "sqlite_inv c s \<Longrightarrow> delete (RusqliteStore c) n (s, e) = (Inl er, s', e') \<Longrightarrow> sqlite_abs s' = sqlite_abs s"
    using sqlite_delete_spec(2) [of c s n e "Inl er" s' e' er] by (simp add: d)
  show "list_all_md (RusqliteStore c) (s, e) = (rl, s', e') \<Longrightarrow> s' = s \<and> env_le e e'"
    using sqlite_list_spec(1) by (simp add: d)
  show "sqlite_inv c s \<Longrightarrow> list_all_md (RusqliteStore c) (s, e) = (Inr ms, s', e') \<Longrightarrow>
      distinct (map md_name ms) \<and> set (map md_name ms) = dom (sqlite_abs s)"
    using sqlite_list_spec(2) by (simp add: d)
qed

section \<open>Properties\<close>


text \<open>A codec for closed examples: unary numerals, with a sign for time stamps.\<close>

definition unary_codec :: store_codec where
  "unary_codec =
     \<lparr>sc_uuid_str = (\<lambda>u. replicate (unat u) CHR ''u''), sc_uuid_parse = (\<lambda>s. Inr (word_of_nat (length s))),
      sc_time_str = (\<lambda>t. (if t < 0 then CHR ''-'' else CHR ''+'') # replicate (nat \<bar>t\<bar>) CHR ''t''),
      sc_time_parse = (\<lambda>s. Inr (if starts_with s ''-'' then 1 - int (length s) else int (length s) - 1)),
      sc_conv_text = (\<lambda>m. m), sc_range_text = (\<lambda>_. ''out of range'')\<rparr>"

lemma unary_codec_ok: "store_codec_ok unary_codec"
  by (auto simp: store_codec_ok_def unary_codec_def starts_with_def)


end
