(* ===== verification/Sqlite_Audit.thy ===== *)
theory Sqlite_Audit
  imports Sqlite_Store Audit_Log "HOL-Library.List_Lexorder" "HOL-Library.Char_ord" "HOL-Library.Multiset"
begin

text \<open>
  The SQLite audit log (\<^verbatim>\<open>crates/zerolease-store-rusqlite/src/audit.rs\<close>): rows with a hash
  chain, recording, the chain verifier and the queries. SHA-256 and hex encoding are other
  crates and arguments; so are the two orders SQLite sorts rows in, of which only that they
  permute the rows and sort them by the text of the time stamp is used. The theory
  interprets the audit log contract.
\<close>

section \<open>Rows and hashes\<close>

record audit_row =
  ar_event_id :: string
  ar_timestamp :: string
  ar_event :: string
  ar_agent :: string
  ar_peer_identity :: string
  ar_outcome :: string
  ar_secret_name :: "string option"
  ar_lease_id :: "string option"
  ar_prev_hash :: "string option"
  ar_entry_hash :: "string option"

record audit_sql =
  q_sha256 :: "bytes \<Rightarrow> bytes"
  q_hex :: "bytes \<Rightarrow> string"
  q_asc :: "audit_row list \<Rightarrow> audit_row list"
  q_desc :: "audit_row list \<Rightarrow> audit_row list"
  q_unique_text :: string
  q_duplicate_text :: string

type_synonym 'x audit_op = "(audit_row list \<times> env, Error, 'x) op"

definition GENESIS_HASH :: string where
  "GENESIS_HASH = ''sha256:zerolease-audit-genesis''"

definition genesis_hash :: "audit_sql \<Rightarrow> string" where
  "genesis_hash q = q_hex q (q_sha256 q (as_bytes GENESIS_HASH))"

definition compute_entry_hash ::
  "audit_sql \<Rightarrow> string \<Rightarrow> string \<Rightarrow> string \<Rightarrow> string \<Rightarrow> string \<Rightarrow> string \<Rightarrow> string" where
  "compute_entry_hash q prev_hash event_id timestamp event_json agent outcome_json =
     q_hex q (q_sha256 q (as_bytes prev_hash @ as_bytes event_id @ as_bytes timestamp @
       as_bytes event_json @ as_bytes agent @ as_bytes outcome_json))"

section \<open>Recording\<close>

text \<open>The hash of the newest hashed row; any failure of the query counts as an empty chain.\<close>

definition fetch_prev_hash :: "audit_sql \<Rightarrow> audit_row list \<times> env \<Rightarrow> string \<times> audit_row list \<times> env" where
  "fetch_prev_hash q = (\<lambda>(rows, e).
     case io_fault e of
       (Some _, e') \<Rightarrow> (genesis_hash q, rows, e')
     | (None, e') \<Rightarrow>
         ((case q_desc q (filter (\<lambda>r. ar_entry_hash r \<noteq> None) rows) of
             [] \<Rightarrow> genesis_hash q
           | r # _ \<Rightarrow> (case ar_entry_hash r of Some h \<Rightarrow> h | None \<Rightarrow> genesis_hash q)), rows, e'))"

definition insert_audit_row :: "audit_sql \<Rightarrow> audit_row \<Rightarrow> unit audit_op" where
  "insert_audit_row q row =
     try_op (io_guard (storage_error ''failed to insert audit event: '')) (\<lambda>_.
     (\<lambda>(rows, e).
       if list_ex (\<lambda>r. ar_event_id r = ar_event_id row) rows
       then (Inl (storage_error ''failed to insert audit event: '' (q_unique_text q)), rows, e)
       else (Inr (), rows @ [row], e)))"

definition audit_record :: "audit_sql \<Rightarrow> audit_codec \<Rightarrow> AuditEntry \<Rightarrow> unit audit_op" where
  "audit_record q c entry =
     (case indexed_fields (ae_event entry) of
        (secret_name, lease_id) \<Rightarrow>
     try_op (of_result (case event_to_json c (ae_event entry) of
         Inl m \<Rightarrow> Inl (Storage (''failed to serialize event: '' @ m)) | Inr s \<Rightarrow> Inr s)) (\<lambda>event_str.
     try_op (of_result (case outcome_to_json c (ae_outcome entry) of
         Inl m \<Rightarrow> Inl (Storage (''failed to serialize outcome: '' @ m)) | Inr s \<Rightarrow> Inr s)) (\<lambda>outcome_str.
     let_op (fetch_prev_hash q) (\<lambda>prev_hash.
     insert_audit_row q
       \<lparr>ar_event_id = uuid_to_string c (ae_event_id entry), ar_timestamp = to_rfc3339 c (ae_timestamp entry),
        ar_event = event_str, ar_agent = agent_str (ae_agent entry), ar_peer_identity = ae_peer_identity entry,
        ar_outcome = outcome_str, ar_secret_name = secret_name,
        ar_lease_id = map_option (\<lambda>l. uuid_to_string c (lid_uuid l)) lease_id,
        ar_prev_hash = Some prev_hash,
        ar_entry_hash = Some (compute_entry_hash q prev_hash (uuid_to_string c (ae_event_id entry))
          (to_rfc3339 c (ae_timestamp entry)) event_str (agent_str (ae_agent entry)) outcome_str)\<rparr>))))"

section \<open>Opening\<close>

text \<open>
  The migration from the first schema, whose rows have no hash columns. \<open>in_schema\<close> says
  whether the table of the opened file has them; a failed look-up counts as no, and then
  adding a column that is there is an error.
\<close>

definition migrate_add_hash_columns :: "audit_sql \<Rightarrow> bool \<Rightarrow> unit audit_op" where
  "migrate_add_hash_columns q in_schema =
     let_op (\<lambda>(rows, e). case io_fault e of (m, e') \<Rightarrow> (in_schema \<and> m = None, rows, e')) (\<lambda>has_prev_hash.
     if \<not> has_prev_hash then
       try_op (io_guard (storage_error ''failed to add hash chain columns: '')) (\<lambda>_.
       if in_schema then fail (storage_error ''failed to add hash chain columns: '' (q_duplicate_text q))
       else (\<lambda>(rows, e). (Inr (), map (\<lambda>r. r\<lparr>ar_prev_hash := None, ar_entry_hash := None\<rparr>) rows, e)))
     else ok ())"

fun create_indexes :: "nat \<Rightarrow> unit audit_op" where
  "create_indexes 0 = ok ()"
| "create_indexes (Suc n) =
     try_op (io_guard (storage_error ''failed to create index: '')) (\<lambda>_. create_indexes n)"

text \<open>Opening runs on the rows of the file at the path, none for a new file.\<close>

definition RusqliteAuditLog_new :: "audit_sql \<Rightarrow> bool \<Rightarrow> unit audit_op" where
  "RusqliteAuditLog_new q in_schema =
     try_op (io_guard (storage_error ''failed to open audit database: '')) (\<lambda>_.
     try_op (io_guard (storage_error ''failed to set WAL mode: '')) (\<lambda>_.
     try_op (io_guard (storage_error ''failed to create audit_events table: '')) (\<lambda>_.
     try_op (migrate_add_hash_columns q in_schema) (\<lambda>_.
     create_indexes 4))))"

section \<open>Verification\<close>

record AuditChainVerification =
  total_entries :: nat
  verified_entries :: nat
  first_broken_at :: "string option"
  is_valid :: bool

definition break_at :: "string \<Rightarrow> AuditChainVerification \<Rightarrow> AuditChainVerification" where
  "break_at event_id s =
     (if first_broken_at s = None then s\<lparr>first_broken_at := Some event_id\<rparr> else s)"

text \<open>One row of the walk: the next expected hash and the counters.\<close>

definition verify_row ::
  "audit_sql \<Rightarrow> audit_row \<Rightarrow> string \<times> AuditChainVerification \<Rightarrow> string \<times> AuditChainVerification" where
  "verify_row q row = (\<lambda>(expected, s0).
     let s = s0\<lparr>total_entries := total_entries s0 + 1\<rparr> in
     case (ar_prev_hash row, ar_entry_hash row) of
       (Some stored_prev, Some stored_hash) \<Rightarrow>
         (stored_hash,
          if stored_prev \<noteq> expected then break_at (ar_event_id row) s
          else if compute_entry_hash q stored_prev (ar_event_id row) (ar_timestamp row) (ar_event row)
                    (ar_agent row) (ar_outcome row) = stored_hash
          then s\<lparr>verified_entries := verified_entries s + 1\<rparr>
          else break_at (ar_event_id row) s)
     | _ \<Rightarrow> (genesis_hash q, s))"

fun verify_loop ::
  "audit_sql \<Rightarrow> audit_row list \<Rightarrow> string \<times> AuditChainVerification \<Rightarrow> AuditChainVerification audit_op" where
  "verify_loop q [] st = try_op (io_guard (storage_error ''row next failed: '')) (\<lambda>_. ok (snd st))"
| "verify_loop q (row # rows) st =
     try_op (io_guard (storage_error ''row next failed: '')) (\<lambda>_. verify_loop q rows (verify_row q row st))"

definition verify_audit_chain :: "audit_sql \<Rightarrow> AuditChainVerification audit_op" where
  "verify_audit_chain q =
     try_op (io_guard (storage_error ''prepare failed: '')) (\<lambda>_.
     try_op (io_guard (storage_error ''query failed: '')) (\<lambda>_.
     (\<lambda>(rows, e).
       try_op (verify_loop q (q_asc q rows)
         (genesis_hash q, \<lparr>total_entries = 0, verified_entries = 0, first_broken_at = None, is_valid = False\<rparr>))
         (\<lambda>s. ok (s\<lparr>is_valid := first_broken_at s = None \<and> total_entries s > 0\<rparr>)) (rows, e))))"

section \<open>Queries\<close>

definition row_to_audit_entry :: "audit_codec \<Rightarrow> audit_row \<Rightarrow> AuditEntry result" where
  "row_to_audit_entry c row =
     (case uuid_parse c (ar_event_id row) of
        Inl m \<Rightarrow> Inl (Storage (''invalid event_id: '' @ m))
      | Inr event_id \<Rightarrow>
     (case parse_rfc3339 c (ar_timestamp row) of
        Inl m \<Rightarrow> Inl (Storage (''invalid timestamp: '' @ m))
      | Inr timestamp \<Rightarrow>
     (case event_of_json c (ar_event row) of
        Inl m \<Rightarrow> Inl (Storage (''invalid event JSON: '' @ m))
      | Inr event \<Rightarrow>
     (case outcome_of_json c (ar_outcome row) of
        Inl m \<Rightarrow> Inl (Storage (''invalid outcome JSON: '' @ m))
      | Inr outcome \<Rightarrow>
          Inr \<lparr>ae_timestamp = timestamp, ae_event_id = event_id, ae_event = event,
               ae_agent = AgentId (ar_agent row), ae_peer_identity = ar_peer_identity row,
               ae_outcome = outcome\<rparr>))))"

fun collect_entries :: "audit_codec \<Rightarrow> store_codec \<Rightarrow> audit_row list \<Rightarrow> AuditEntry list audit_op" where
  "collect_entries c sc [] = try_op (io_guard (storage_error ''row extraction failed: '')) (\<lambda>_. ok [])"
| "collect_entries c sc (row # rows) =
     try_op (io_guard (storage_error ''row extraction failed: '')) (\<lambda>_.
     case row_to_audit_entry c row of
       Inl er \<Rightarrow> fail (conversion_error sc ''row extraction failed: '' er)
     | Inr x \<Rightarrow> try_op (collect_entries c sc rows) (\<lambda>xs. ok (x # xs)))"

definition query_rows ::
  "audit_codec \<Rightarrow> store_codec \<Rightarrow> (audit_row list \<Rightarrow> audit_row list) \<Rightarrow> AuditEntry list audit_op" where
  "query_rows c sc select =
     try_op (io_guard (storage_error ''prepare failed: '')) (\<lambda>_.
     try_op (io_guard (storage_error ''query failed: '')) (\<lambda>_.
     (\<lambda>(rows, e). collect_entries c sc (select rows) (rows, e))))"

text \<open>\<^verbatim>\<open>limit as i64\<close>: a limit from \<open>2 ^ 63\<close> on is negative for SQLite, which then has no limit.\<close>

definition sql_limit :: "nat \<Rightarrow> 'x list \<Rightarrow> 'x list" where
  "sql_limit n xs = (if n < 2 ^ 63 then take n xs else xs)"

definition audit_query_by_agent ::
  "audit_sql \<Rightarrow> audit_codec \<Rightarrow> store_codec \<Rightarrow> AgentId \<Rightarrow> nat \<Rightarrow> AuditEntry list audit_op" where
  "audit_query_by_agent q c sc agent limit =
     query_rows c sc (\<lambda>rows. sql_limit limit (q_desc q (filter (\<lambda>r. ar_agent r = agent_str agent) rows)))"

definition audit_query_by_secret ::
  "audit_sql \<Rightarrow> audit_codec \<Rightarrow> store_codec \<Rightarrow> SecretName \<Rightarrow> nat \<Rightarrow> AuditEntry list audit_op" where
  "audit_query_by_secret q c sc secret limit =
     query_rows c sc (\<lambda>rows. sql_limit limit (q_desc q (filter (\<lambda>r. ar_secret_name r = Some (name_str secret)) rows)))"

definition audit_query_by_lease ::
  "audit_sql \<Rightarrow> audit_codec \<Rightarrow> store_codec \<Rightarrow> LeaseId \<Rightarrow> AuditEntry list audit_op" where
  "audit_query_by_lease q c sc lease =
     query_rows c sc (\<lambda>rows. q_desc q (filter (\<lambda>r. ar_lease_id r = Some (uuid_to_string c (lid_uuid lease))) rows))"

definition RusqliteAuditLog :: "audit_sql \<Rightarrow> audit_codec \<Rightarrow> store_codec \<Rightarrow> audit_row list AuditLog" where
  "RusqliteAuditLog q c sc =
     \<lparr>record_entry = audit_record q c, query_by_agent = audit_query_by_agent q c sc,
      query_by_secret = audit_query_by_secret q c sc, query_by_lease = audit_query_by_lease q c sc\<rparr>"

section \<open>Specification\<close>

text \<open>What is asked of \<^verbatim>\<open>ORDER BY timestamp\<close>: a permutation of the rows, sorted by the column.\<close>

definition order_ok :: "audit_sql \<Rightarrow> bool" where
  "order_ok q \<longleftrightarrow>
     (\<forall>rows. mset (q_asc q rows) = mset rows \<and> sorted (map ar_timestamp (q_asc q rows))) \<and>
     (\<forall>rows. mset (q_desc q rows) = mset rows \<and> sorted (map ar_timestamp (rev (q_desc q rows))))"

text \<open>The row an entry is kept as, when the chain ends in \<open>h\<close>.\<close>

definition row_of :: "audit_sql \<Rightarrow> audit_codec \<Rightarrow> AuditEntry \<Rightarrow> string \<Rightarrow> audit_row" where
  "row_of q c x h =
     (let ev = json_text (event_to_json c (ae_event x)); out = json_text (outcome_to_json c (ae_outcome x)) in
      \<lparr>ar_event_id = uuid_to_string c (ae_event_id x), ar_timestamp = to_rfc3339 c (ae_timestamp x),
       ar_event = ev, ar_agent = agent_str (ae_agent x), ar_peer_identity = ae_peer_identity x,
       ar_outcome = out, ar_secret_name = fst (indexed_fields (ae_event x)),
       ar_lease_id = map_option (\<lambda>l. uuid_to_string c (lid_uuid l)) (snd (indexed_fields (ae_event x))),
       ar_prev_hash = Some h,
       ar_entry_hash = Some (compute_entry_hash q h (uuid_to_string c (ae_event_id x))
         (to_rfc3339 c (ae_timestamp x)) ev (agent_str (ae_agent x)) out)\<rparr>)"

text \<open>What of a row a hash covers besides the preceding hash.\<close>

definition hashed_text :: "audit_row \<Rightarrow> string" where
  "hashed_text r = ar_event_id r @ ar_timestamp r @ ar_event r @ ar_agent r @ ar_outcome r"

definition text_hash :: "audit_sql \<Rightarrow> string \<Rightarrow> string" where
  "text_hash q s = q_hex q (q_sha256 q (as_bytes s))"

text \<open>
  An intact chain after the hash \<open>h\<close>: each row names the hash before it and carries its own;
  a row without hashes starts a new chain.
\<close>

fun chain_ok :: "audit_sql \<Rightarrow> string \<Rightarrow> audit_row list \<Rightarrow> bool" where
  "chain_ok q h [] = True"
| "chain_ok q h (r # rs) =
     (case (ar_prev_hash r, ar_entry_hash r) of
        (Some p, Some s) \<Rightarrow> p = h \<and> s = text_hash q (p @ hashed_text r) \<and> chain_ok q s rs
      | _ \<Rightarrow> chain_ok q (genesis_hash q) rs)"

definition hashed :: "audit_row \<Rightarrow> bool" where
  "hashed r \<longleftrightarrow> ar_prev_hash r \<noteq> None \<and> ar_entry_hash r \<noteq> None"

definition chain_end :: "string \<Rightarrow> audit_row list \<Rightarrow> string" where
  "chain_end h rows = (if rows = [] then h else the (ar_entry_hash (last rows)))"

fun record_all :: "audit_sql \<Rightarrow> audit_codec \<Rightarrow> AuditEntry list \<Rightarrow> unit audit_op" where
  "record_all q c [] = ok ()"
| "record_all q c (x # xs) = try_op (audit_record q c x) (\<lambda>_. record_all q c xs)"

definition unhashed :: "audit_row \<Rightarrow> audit_row" where
  "unhashed r = r\<lparr>ar_prev_hash := None, ar_entry_hash := None\<rparr>"

text \<open>What is asked of the serialisers for an entry: they do not fail, and reading undoes writing.\<close>

definition codec_ok_for :: "audit_codec \<Rightarrow> AuditEntry \<Rightarrow> bool" where
  "codec_ok_for c x \<longleftrightarrow>
     (case event_to_json c (ae_event x) of Inl _ \<Rightarrow> False | Inr s \<Rightarrow> event_of_json c s = Inr (ae_event x)) \<and>
     (case outcome_to_json c (ae_outcome x) of Inl _ \<Rightarrow> False | Inr s \<Rightarrow> outcome_of_json c s = Inr (ae_outcome x)) \<and>
     uuid_parse c (uuid_to_string c (ae_event_id x)) = Inr (ae_event_id x) \<and>
     parse_rfc3339 c (to_rfc3339 c (ae_timestamp x)) = Inr (ae_timestamp x)"

section \<open>Lemmas\<close>

lemma compute_entry_hash_text:
  "compute_entry_hash q h (ar_event_id r) (ar_timestamp r) (ar_event r) (ar_agent r) (ar_outcome r) =
     text_hash q (h @ hashed_text r)"
  by (simp add: compute_entry_hash_def text_hash_def hashed_text_def)

lemma strict_sorted_unique:
  fixes f :: "'a \<Rightarrow> 'k :: linorder"
  assumes "mset ys = mset xs" and "sorted (map f ys)" and "sorted_wrt (<) (map f xs)"
  shows "ys = xs"
proof (rule map_sorted_distinct_set_unique [where f = f])
  have d: "distinct (map f xs)" and s: "sorted (map f xs)"
    using assms(3) by (simp_all add: strict_sorted_iff)
  have m: "mset (map f ys) = mset (map f xs)" using assms(1) by simp
  show "distinct (map f ys)" using d m by (metis mset_eq_imp_distinct_iff)
  show "set ys = set xs" using assms(1) by (metis set_mset_mset)
  then show "inj_on f (set ys \<union> set xs)" using d by (simp add: distinct_map)
qed (use assms in \<open>simp_all add: strict_sorted_iff\<close>)

lemma order_asc: "order_ok q \<Longrightarrow> sorted_wrt (<) (map ar_timestamp rows) \<Longrightarrow> q_asc q rows = rows"
  by (rule strict_sorted_unique [where f = ar_timestamp]) (simp_all add: order_ok_def)

lemma order_desc:
  assumes "order_ok q" and "sorted_wrt (<) (map ar_timestamp rows)"
  shows "q_desc q rows = rev rows"
proof -
  have "rev (q_desc q rows) = rows"
    by (rule strict_sorted_unique [where f = ar_timestamp]) (use assms in \<open>simp_all add: order_ok_def\<close>)
  then show ?thesis by (metis rev_rev_ident)
qed

lemma sorted_wrt_map_filter: "sorted_wrt P (map f xs) \<Longrightarrow> sorted_wrt P (map f (filter Q xs))"
  by (induction xs) auto

lemma chain_ok_snoc:
  "list_all hashed rows \<Longrightarrow> hashed r \<Longrightarrow>
    chain_ok q h (rows @ [r]) \<longleftrightarrow> chain_ok q h rows \<and> ar_prev_hash r = Some (chain_end h rows) \<and>
      ar_entry_hash r = Some (text_hash q (chain_end h rows @ hashed_text r))"
  by (induction rows arbitrary: h) (auto simp: chain_end_def hashed_def split: option.splits)

lemma chain_ok_take: "chain_ok q h rows \<Longrightarrow> chain_ok q h (take n rows)"
  by (induction rows arbitrary: h n) (auto simp: take_Cons split: nat.splits option.splits)

section \<open>Recording\<close>

lemma row_of_simps [simp]:
  "ar_event_id (row_of q c x h) = uuid_to_string c (ae_event_id x)"
  "ar_timestamp (row_of q c x h) = to_rfc3339 c (ae_timestamp x)"
  "ar_agent (row_of q c x h) = agent_str (ae_agent x)"
  "ar_secret_name (row_of q c x h) = fst (indexed_fields (ae_event x))"
  "ar_prev_hash (row_of q c x h) = Some h"
  "ar_entry_hash (row_of q c x h) = Some (text_hash q (h @ hashed_text (row_of q c x h)))"
  "hashed (row_of q c x h)"
  by (simp_all add: row_of_def Let_def hashed_def text_hash_def hashed_text_def compute_entry_hash_def)

lemma audit_record_result:
  assumes "audit_record q c x (rows, e) = (r, rows', e')"
  shows "env_le e e'" and "r = Inr u \<Longrightarrow> \<exists>h. rows' = rows @ [row_of q c x h]" and "r = Inl er \<Longrightarrow> rows' = rows"
  using assms
  by (auto simp: audit_record_def insert_audit_row_def fetch_prev_hash_def io_guard_eq io_fault_def op_defs
      row_of_def json_text_def Let_def env_le_steps split: sum.splits prod.splits option.splits if_splits)

lemma audit_record_quiet:
  assumes "quiet e" and "codec_ok_for c x" and "order_ok q"
    and "list_all hashed rows" and "sorted_wrt (<) (map ar_timestamp rows)"
    and "uuid_to_string c (ae_event_id x) \<notin> ar_event_id ` set rows"
  shows "audit_record q c x (rows, e) =
    (Inr (), rows @ [row_of q c x (chain_end (genesis_hash q) rows)], env_step (env_step e))"
proof -
  have f: "filter (\<lambda>r. ar_entry_hash r \<noteq> None) rows = rows"
    using assms(4) by (auto simp: filter_id_conv list_all_iff hashed_def)
  have prev: "fetch_prev_hash q (rows, e) = (chain_end (genesis_hash q) rows, rows, env_step e)"
  proof (cases rows rule: rev_cases)
    case Nil
    then show ?thesis
      using assms(1) order_desc [OF assms(3), of "[]"] by (simp add: fetch_prev_hash_def io_fault_def chain_end_def)
  next
    case (snoc rs r)
    then have "\<exists>h. ar_entry_hash r = Some h" using assms(4) by (auto simp: hashed_def)
    then show ?thesis
      using assms(1) order_desc [OF assms(3,5)] f snoc
      by (auto simp: fetch_prev_hash_def io_fault_def chain_end_def)
  qed
  obtain ev out where "event_to_json c (ae_event x) = Inr ev" "outcome_to_json c (ae_outcome x) = Inr out"
    using assms(2) by (auto simp: codec_ok_for_def split: sum.splits)
  then show ?thesis
    using assms(1,6)
    by (auto simp: audit_record_def insert_audit_row_def prev op_defs io_guard_eq row_of_def json_text_def
        list_ex_iff image_iff split: prod.splits)
qed

section \<open>Queries\<close>

lemma env_le_stepD: "env_le (env_step e) e' \<Longrightarrow> env_le e e'"
  by (rule env_le_trans [OF env_le_step])

lemma collect_entries_frame: "collect_entries c sc rs (rows, e) = (r, rows', e') \<Longrightarrow> rows' = rows \<and> env_le e e'"
proof (induction rs arbitrary: e r rows' e')
  case (Cons x rs)
  obtain r1 rows1 e1 where tail: "collect_entries c sc rs (rows, env_step e) = (r1, rows1, e1)"
    by (metis prod.exhaust)
  have "rows1 = rows \<and> env_le e e1"
    using Cons.IH [OF tail] by (auto dest: env_le_stepD)
  then show ?case
    using Cons.prems tail by (auto simp: op_defs io_guard_eq split: option.splits sum.splits)
qed (auto simp: op_defs io_guard_eq split: option.splits)

lemma query_rows_frame: "query_rows c sc f (rows, e) = (r, rows', e') \<Longrightarrow> rows' = rows \<and> env_le e e'"
  by (auto simp: query_rows_def op_defs io_guard_eq env_le_steps split: option.splits
      dest!: collect_entries_frame intro: env_le_trans [OF env_le_steps(2)])

lemma unhashed_row_of: "unhashed (row_of q c x h) = unhashed (row_of q c x [])"
  by (simp add: unhashed_def row_of_def Let_def)

lemma RusqliteAuditLog_simps [simp]:
  "record_entry (RusqliteAuditLog q c sc) = audit_record q c"
  "query_by_agent (RusqliteAuditLog q c sc) = audit_query_by_agent q c sc"
  "query_by_secret (RusqliteAuditLog q c sc) = audit_query_by_secret q c sc"
  "query_by_lease (RusqliteAuditLog q c sc) = audit_query_by_lease q c sc"
  by (simp_all add: RusqliteAuditLog_def)

interpretation sqlite_audit:
  audit_log "RusqliteAuditLog q c sc" "map unhashed" "\<lambda>x. unhashed (row_of q c x [])" "\<lambda>_. True" for q c sc
proof
  fix a e r a' e' x
  assume "record_entry (RusqliteAuditLog q c sc) x (a, e) = (r, a', e')"
  then show "True \<and> env_le e e'" using audit_record_result(1) by simp
next
  fix a e a' e' x u
  assume "record_entry (RusqliteAuditLog q c sc) x (a, e) = (Inr u, a', e')"
  then obtain h where "a' = a @ [row_of q c x h]"
    using audit_record_result(2) [of q c x a e "Inr u" a' e'] by auto
  then show "map unhashed a' = map unhashed a @ [unhashed (row_of q c x [])]"
    using unhashed_row_of by simp
next
  fix a e a' e' x er
  assume "record_entry (RusqliteAuditLog q c sc) x (a, e) = (Inl er, a', e')"
  then have "a' = a" using audit_record_result(3) [of q c x a e "Inl er" a' e'] by simp
  then show "map unhashed a' = map unhashed a" by simp
qed (auto simp: audit_query_by_agent_def audit_query_by_secret_def audit_query_by_lease_def
    dest!: query_rows_frame)

lemma AgentId_agent_str [simp]: "AgentId (agent_str a) = a"
  by (cases a) simp

lemma row_to_audit_entry_row_of:
  "codec_ok_for c x \<Longrightarrow> row_to_audit_entry c (row_of q c x h) = Inr x"
  by (auto simp: codec_ok_for_def row_to_audit_entry_def row_of_def Let_def json_text_def split: sum.splits)

lemma collect_entries_quiet:
  "quiet e \<Longrightarrow> list_all2 (\<lambda>r x. row_to_audit_entry c r = Inr x) rs xs \<Longrightarrow>
    \<exists>e'. collect_entries c sc rs (rows, e) = (Inr xs, rows, e')"
proof (induction rs arbitrary: e xs)
  case (Cons r rs)
  then obtain x ys where "xs = x # ys" "row_to_audit_entry c r = Inr x"
    "list_all2 (\<lambda>r x. row_to_audit_entry c r = Inr x) rs ys"
    by (auto simp: list_all2_Cons1)
  moreover then obtain e' where "collect_entries c sc rs (rows, env_step e) = (Inr ys, rows, e')"
    using Cons.IH [of "env_step e" ys] Cons.prems(1) by auto
  ultimately show ?case using Cons.prems(1) by (simp add: op_defs io_guard_eq)
qed (simp add: op_defs io_guard_eq)

section \<open>The verifier\<close>

lemma verify_loop_eq:
  "verify_loop q rs st (rows, e) =
     (case env_fault e (env_pos e) of
        Some m \<Rightarrow> (Inl (storage_error ''row next failed: '' m), rows, env_step e)
      | None \<Rightarrow> (case rs of [] \<Rightarrow> (Inr (snd st), rows, env_step e)
                 | r # rs' \<Rightarrow> verify_loop q rs' (verify_row q r st) (rows, env_step e)))"
  by (cases rs) (simp_all add: try_op_def io_guard_eq ok_def split: option.splits)

lemma verify_loop_frame: "verify_loop q rs st (rows, e) = (r, rows', e') \<Longrightarrow> rows' = rows \<and> env_le e e'"
proof (induction rs arbitrary: e st)
  case Nil
  then show ?case by (subst (asm) verify_loop_eq) (auto split: option.splits)
next
  case (Cons x rs)
  show ?case
  proof (cases "env_fault e (env_pos e)")
    case None
    then have "verify_loop q rs (verify_row q x st) (rows, env_step e) = (r, rows', e')"
      using Cons.prems by (subst (asm) verify_loop_eq) simp
    from Cons.IH [OF this] show ?thesis using env_le_stepD by blast
  next
    case (Some m)
    then show ?thesis using Cons.prems by (subst (asm) verify_loop_eq) auto
  qed
qed

lemma verify_loop_Inr:
  "verify_loop q rs st (rows, e) = (Inr s, w) \<Longrightarrow> s = snd (fold (verify_row q) rs st)"
proof (induction rs arbitrary: e st)
  case Nil
  then show ?case by (subst (asm) verify_loop_eq) (auto split: option.splits)
next
  case (Cons x rs)
  then have "verify_loop q rs (verify_row q x st) (rows, env_step e) = (Inr s, w)"
    by (subst (asm) verify_loop_eq) (auto split: option.splits)
  from Cons.IH [OF this] show ?case by simp
qed

lemma verify_loop_quiet:
  "quiet e \<Longrightarrow> \<exists>e'. verify_loop q rs st (rows, e) = (Inr (snd (fold (verify_row q) rs st)), rows, e')"
proof (induction rs arbitrary: e st)
  case Nil
  then show ?case by (subst verify_loop_eq) simp
next
  case (Cons x rs)
  then show ?case
    using Cons.IH [of "env_step e" "verify_row q x st"] by (subst verify_loop_eq) simp
qed

definition walk :: "audit_sql \<Rightarrow> audit_row list \<Rightarrow> AuditChainVerification" where
  "walk q rs = snd (fold (verify_row q) rs
     (genesis_hash q, \<lparr>total_entries = 0, verified_entries = 0, first_broken_at = None, is_valid = False\<rparr>))"

lemma fold_verify_row:
  "fold (verify_row q) rs (h, s) = (h', s') \<Longrightarrow>
    total_entries s' = total_entries s + length rs \<and>
    (first_broken_at s' = None \<longleftrightarrow> first_broken_at s = None \<and> chain_ok q h rs) \<and>
    verified_entries s' \<le> verified_entries s + length (filter hashed rs) \<and>
    (chain_ok q h rs \<longrightarrow> verified_entries s' = verified_entries s + length (filter hashed rs))"
proof (induction rs arbitrary: h s)
  case (Cons r rs)
  obtain h1 s1 where step: "verify_row q r (h, s) = (h1, s1)" by fastforce
  have IH: "total_entries s' = total_entries s1 + length rs \<and>
      (first_broken_at s' = None \<longleftrightarrow> first_broken_at s1 = None \<and> chain_ok q h1 rs) \<and>
      verified_entries s' \<le> verified_entries s1 + length (filter hashed rs) \<and>
      (chain_ok q h1 rs \<longrightarrow> verified_entries s' = verified_entries s1 + length (filter hashed rs))"
    using Cons step by simp
  consider (gap) "\<not> hashed r" "h1 = genesis_hash q" "s1 = s\<lparr>total_entries := total_entries s + 1\<rparr>"
      "chain_ok q h (r # rs) \<longleftrightarrow> chain_ok q h1 rs"
    | (good) "hashed r" "s1 = s\<lparr>total_entries := total_entries s + 1, verified_entries := verified_entries s + 1\<rparr>"
      "chain_ok q h (r # rs) \<longleftrightarrow> chain_ok q h1 rs"
    | (bad) "hashed r" "s1 = break_at (ar_event_id r) (s\<lparr>total_entries := total_entries s + 1\<rparr>)"
      "\<not> chain_ok q h (r # rs)"
    using step
    by (auto simp: verify_row_def Let_def compute_entry_hash_text hashed_def split: option.splits if_splits)
  then show ?case
    by cases (use IH in \<open>auto simp: break_at_def split: if_splits\<close>)
qed auto

lemma walk_props:
  "total_entries (walk q rs) = length rs"
  "first_broken_at (walk q rs) = None \<longleftrightarrow> chain_ok q (genesis_hash q) rs"
  "chain_ok q (genesis_hash q) rs \<Longrightarrow> verified_entries (walk q rs) = length (filter hashed rs)"
  using fold_verify_row [OF prod.collapse [symmetric], of q rs "genesis_hash q"
      "\<lparr>total_entries = 0, verified_entries = 0, first_broken_at = None, is_valid = False\<rparr>"]
  by (simp_all add: walk_def)

lemma verify_audit_chain_eq:
  assumes "verify_audit_chain q (rows, e) = (Inr v, rows', e')"
  shows "rows' = rows" and "v = (walk q (q_asc q rows))\<lparr>is_valid :=
    chain_ok q (genesis_hash q) (q_asc q rows) \<and> q_asc q rows \<noteq> []\<rparr>"
proof -
  let ?st = "(genesis_hash q, \<lparr>total_entries = 0, verified_entries = 0, first_broken_at = None, is_valid = False\<rparr>)"
  obtain s where run: "verify_loop q (q_asc q rows) ?st (rows, env_step (env_step e)) = (Inr s, rows', e')"
    and v: "v = s\<lparr>is_valid := first_broken_at s = None \<and> total_entries s > 0\<rparr>"
    using assms by (auto simp: verify_audit_chain_def try_op_Inr io_guard_Inr)
  show "rows' = rows" using verify_loop_frame [OF run] by simp
  have "s = walk q (q_asc q rows)" using verify_loop_Inr [OF run] by (simp add: walk_def)
  with v show "v = (walk q (q_asc q rows))\<lparr>is_valid :=
      chain_ok q (genesis_hash q) (q_asc q rows) \<and> q_asc q rows \<noteq> []\<rparr>"
    by (simp add: walk_props)
qed

lemma verify_audit_chain_quiet:
  assumes "quiet e"
  shows "\<exists>v e'. verify_audit_chain q (rows, e) = (Inr v, rows, e')"
proof -
  let ?st = "(genesis_hash q, \<lparr>total_entries = 0, verified_entries = 0, first_broken_at = None, is_valid = False\<rparr>)"
  obtain e' where "verify_loop q (q_asc q rows) ?st (rows, env_step (env_step e)) =
      (Inr (snd (fold (verify_row q) (q_asc q rows) ?st)), rows, e')"
    using verify_loop_quiet [of "env_step (env_step e)" q "q_asc q rows" ?st rows] assms by auto
  then show ?thesis using assms by (simp add: verify_audit_chain_def op_defs io_guard_eq)
qed

section \<open>Sequences of records\<close>

lemma record_all_quiet:
  assumes "quiet e" and "list_all (codec_ok_for c) xs" and "order_ok q"
    and "sorted_wrt (<) (map ar_timestamp rows @ map (\<lambda>x. to_rfc3339 c (ae_timestamp x)) xs)"
    and "distinct (map ar_event_id rows @ map (\<lambda>x. uuid_to_string c (ae_event_id x)) xs)"
    and "list_all hashed rows" and "chain_ok q (genesis_hash q) rows"
  shows "\<exists>new e'. record_all q c xs (rows, e) = (Inr (), rows @ new, e') \<and> quiet e' \<and>
    list_all2 (\<lambda>r x. \<exists>h. r = row_of q c x h) new xs \<and> list_all hashed (rows @ new) \<and>
    chain_ok q (genesis_hash q) (rows @ new)"
  using assms
proof (induction xs arbitrary: rows e)
  case (Cons x xs)
  let ?r = "row_of q c x (chain_end (genesis_hash q) rows)"
  have run: "audit_record q c x (rows, e) = (Inr (), rows @ [?r], env_step (env_step e))"
    using Cons.prems by (intro audit_record_quiet) (auto simp: sorted_wrt_append)
  have "\<exists>new e'. record_all q c xs (rows @ [?r], env_step (env_step e)) = (Inr (), (rows @ [?r]) @ new, e') \<and>
      quiet e' \<and> list_all2 (\<lambda>r x. \<exists>h. r = row_of q c x h) new xs \<and> list_all hashed ((rows @ [?r]) @ new) \<and>
      chain_ok q (genesis_hash q) ((rows @ [?r]) @ new)"
    using Cons.prems by (intro Cons.IH) (auto simp: chain_ok_snoc)
  then obtain new e' where "record_all q c xs (rows @ [?r], env_step (env_step e)) = (Inr (), rows @ ?r # new, e')"
    "quiet e'" "list_all2 (\<lambda>r x. \<exists>h. r = row_of q c x h) (?r # new) (x # xs)"
    "list_all hashed (rows @ ?r # new)" "chain_ok q (genesis_hash q) (rows @ ?r # new)"
    by auto
  then show ?case using run by (intro exI [of _ "?r # new"] exI [of _ e']) (simp add: try_op_def)
qed (simp add: op_defs)

lemma rows_of_timestamps:
  "list_all2 (\<lambda>r x. \<exists>h. r = row_of q c x h) rows xs \<Longrightarrow>
    map ar_timestamp rows = map (\<lambda>x. to_rfc3339 c (ae_timestamp x)) xs"
  by (induction rule: list_all2_induct) auto

lemma rows_of_filter:
  "list_all2 (\<lambda>r x. \<exists>h. r = row_of q c x h) rows xs \<Longrightarrow> (\<And>x h. P (row_of q c x h) = Q x) \<Longrightarrow>
    list_all2 (\<lambda>r x. \<exists>h. r = row_of q c x h) (filter P rows) (filter Q xs)"
  by (induction rule: list_all2_induct) auto

section \<open>Binding\<close>

text \<open>What was hashed along a chain.\<close>

definition hash_inputs :: "audit_row list \<Rightarrow> string set" where
  "hash_inputs rows = (\<lambda>r. the (ar_prev_hash r) @ hashed_text r) ` set rows"

lemma genesis_hash_text: "genesis_hash q = text_hash q GENESIS_HASH"
  by (simp add: genesis_hash_def text_hash_def)

lemma length_chain_end:
  "\<forall>s. length (text_hash q s) = n \<Longrightarrow> chain_ok q (genesis_hash q) rows \<Longrightarrow> list_all hashed rows \<Longrightarrow>
    length (chain_end (genesis_hash q) rows) = n"
  by (cases rows rule: rev_cases)
    (auto simp: chain_end_def genesis_hash_text chain_ok_snoc)

lemma chain_ok_binding:
  assumes "\<forall>s. length (text_hash q s) = n"
    and "chain_ok q (genesis_hash q) rows" and "list_all hashed rows"
    and "chain_ok q (genesis_hash q) rows'" and "list_all hashed rows'"
    and "length rows = length rows'" and "chain_end (genesis_hash q) rows = chain_end (genesis_hash q) rows'"
    and "inj_on (text_hash q) (hash_inputs rows \<union> hash_inputs rows')"
  shows "map hashed_text rows = map hashed_text rows'"
  using assms(2-)
proof (induction rows arbitrary: rows' rule: rev_induct)
  case (snoc r rs)
  then obtain rs' r' where rows': "rows' = rs' @ [r']" by (cases rows' rule: rev_cases) auto
  let ?e = "chain_end (genesis_hash q) rs" and ?e' = "chain_end (genesis_hash q) rs'"
  have c: "chain_ok q (genesis_hash q) rs" "ar_prev_hash r = Some ?e"
      "ar_entry_hash r = Some (text_hash q (?e @ hashed_text r))" "list_all hashed rs"
    and c': "chain_ok q (genesis_hash q) rs'" "ar_prev_hash r' = Some ?e'"
      "ar_entry_hash r' = Some (text_hash q (?e' @ hashed_text r'))" "list_all hashed rs'"
    using snoc.prems by (auto simp: rows' chain_ok_snoc)
  have "text_hash q (?e @ hashed_text r) = text_hash q (?e' @ hashed_text r')"
    using snoc.prems(6) c(3) c'(3) by (simp add: rows' chain_end_def)
  moreover have "?e @ hashed_text r \<in> hash_inputs (rs @ [r])" "?e' @ hashed_text r' \<in> hash_inputs rows'"
    using c(2) c'(2) by (auto simp: hash_inputs_def rows')
  ultimately have "?e @ hashed_text r = ?e' @ hashed_text r'"
    using snoc.prems(7) by (auto dest: inj_onD)
  moreover have "length ?e = length ?e'"
    using length_chain_end [OF assms(1)] c(1,4) c'(1,4) by metis
  ultimately have e: "?e = ?e'" and t: "hashed_text r = hashed_text r'" by auto
  have "inj_on (text_hash q) (hash_inputs rs \<union> hash_inputs rs')"
    using snoc.prems(7) by (rule inj_on_subset) (auto simp: hash_inputs_def rows')
  then have "map hashed_text rs = map hashed_text rs'"
    using snoc.IH [OF c(1,4) c'(1,4)] snoc.prems(5) e by (simp add: rows')
  with t show ?case by (simp add: rows')
qed simp

section \<open>Properties\<close>

text \<open>
  C25: the log the vault writes verifies. Entries with increasing time stamps and distinct
  identifiers, recorded one after the other over a working database, are all accepted, and
  verification then reports every one of them as verified and the chain as valid.
\<close>

theorem recorded_chain_verifies:
  assumes "quiet e" and "order_ok q" and "xs \<noteq> []" and "list_all (codec_ok_for c) xs"
    and "sorted_wrt (<) (map (\<lambda>x. to_rfc3339 c (ae_timestamp x)) xs)"
    and "distinct (map (\<lambda>x. uuid_to_string c (ae_event_id x)) xs)"
  shows "\<exists>rows e1 e2. record_all q c xs ([], e) = (Inr (), rows, e1) \<and>
    verify_audit_chain q (rows, e1) =
      (Inr \<lparr>total_entries = length xs, verified_entries = length xs, first_broken_at = None, is_valid = True\<rparr>, rows, e2)"
proof -
  obtain rows e1 where run: "record_all q c xs ([], e) = (Inr (), rows, e1)" "quiet e1"
    and rows: "list_all2 (\<lambda>r x. \<exists>h. r = row_of q c x h) rows xs" "list_all hashed rows"
      "chain_ok q (genesis_hash q) rows"
    using record_all_quiet [of e c xs q "[]"] assms by auto
  have asc: "q_asc q rows = rows"
    using order_asc assms(2,5) rows_of_timestamps [OF rows(1)] by simp
  have len: "length rows = length xs" using rows(1) by (rule list_all2_lengthD)
  obtain v e2 where v: "verify_audit_chain q (rows, e1) = (Inr v, rows, e2)"
    using verify_audit_chain_quiet [OF run(2)] by blast
  have "rows \<noteq> []" using len assms(3) by auto
  then have w: "v = (walk q rows)\<lparr>is_valid := True\<rparr>"
    using verify_audit_chain_eq(2) [OF v] asc rows(3) by simp
  have "filter hashed rows = rows" using rows(2) by (simp add: filter_id_conv list_all_iff)
  then have "v = \<lparr>total_entries = length xs, verified_entries = length xs, first_broken_at = None, is_valid = True\<rparr>"
    using w walk_props [of q rows] rows(3) len by simp
  with run v show ?thesis by blast
qed

text \<open>
  C26: a verified chain is tamper-evident. Two fully hashed logs that verify, with the same
  number of entries and the same last hash, agree on everything the hashes cover, entry by
  entry, as long as no two of the texts hashed in them collide.
\<close>

theorem verified_chain_binds:
  assumes "verify_audit_chain q (rows, e) = (Inr v, rows, e1)" and "is_valid v"
    and "verify_audit_chain q (rows', e') = (Inr v', rows', e1')" and "is_valid v'"
    and "list_all hashed (q_asc q rows)" and "list_all hashed (q_asc q rows')"
    and "total_entries v = total_entries v'"
    and "ar_entry_hash (last (q_asc q rows)) = ar_entry_hash (last (q_asc q rows'))"
    and "\<forall>s. length (text_hash q s) = n"
    and "inj_on (text_hash q) (hash_inputs (q_asc q rows) \<union> hash_inputs (q_asc q rows'))"
  shows "map hashed_text (q_asc q rows) = map hashed_text (q_asc q rows')"
proof (rule chain_ok_binding [where q = q and n = n])
  have w: "v = (walk q (q_asc q rows))\<lparr>is_valid := True\<rparr>" "chain_ok q (genesis_hash q) (q_asc q rows)" "q_asc q rows \<noteq> []"
    and w': "v' = (walk q (q_asc q rows'))\<lparr>is_valid := True\<rparr>" "chain_ok q (genesis_hash q) (q_asc q rows')" "q_asc q rows' \<noteq> []"
    using verify_audit_chain_eq(2) [OF assms(1)] verify_audit_chain_eq(2) [OF assms(3)] assms(2,4) by auto
  show "chain_ok q (genesis_hash q) (q_asc q rows)" "chain_ok q (genesis_hash q) (q_asc q rows')"
    using w w' by simp_all
  show "length (q_asc q rows) = length (q_asc q rows')"
    using assms(7) w w' by (simp add: walk_props)
  show "chain_end (genesis_hash q) (q_asc q rows) = chain_end (genesis_hash q) (q_asc q rows')"
    using assms(8) w w' by (simp add: chain_end_def)
qed (use assms in simp_all)

text \<open>
  Verification does not see a shortened log. Cutting any number of the newest entries off
  a log that verifies, but not all of them, leaves a log that verifies.
\<close>

theorem truncation_verifies:
  assumes "order_ok q" and "sorted_wrt (<) (map ar_timestamp rows)"
    and "verify_audit_chain q (rows, e) = (Inr v, rows, e1)" and "is_valid v"
    and "0 < n" and "quiet e2"
  shows "\<exists>v' e3. verify_audit_chain q (take n rows, e2) = (Inr v', take n rows, e3) \<and> is_valid v'"
proof -
  obtain v' e3 where v': "verify_audit_chain q (take n rows, e2) = (Inr v', take n rows, e3)"
    using verify_audit_chain_quiet [OF assms(6)] by blast
  have "sorted_wrt (<) (map ar_timestamp (take n rows))"
    using assms(2) by (metis sorted_wrt_append append_take_drop_id map_append)
  then have asc: "q_asc q (take n rows) = take n rows" "q_asc q rows = rows"
    using order_asc assms(1,2) by blast+
  have "chain_ok q (genesis_hash q) rows" "rows \<noteq> []"
    using verify_audit_chain_eq(2) [OF assms(3)] assms(4) asc by auto
  then have "is_valid v'"
    using verify_audit_chain_eq(2) [OF v'] asc assms(5) chain_ok_take by auto
  with v' show ?thesis by blast
qed

text \<open>
  C27: what was recorded can be queried. After a sequence of records the query by agent returns
  exactly that agent's entries, newest first and cut to the limit; a limit that is negative as
  a 64-bit integer is no limit.
\<close>

theorem agent_query_returns_records:
  assumes "quiet e" and "order_ok q" and "list_all (codec_ok_for c) xs"
    and "sorted_wrt (<) (map (\<lambda>x. to_rfc3339 c (ae_timestamp x)) xs)"
    and "distinct (map (\<lambda>x. uuid_to_string c (ae_event_id x)) xs)"
  shows "\<exists>rows e1 e2. record_all q c xs ([], e) = (Inr (), rows, e1) \<and>
    audit_query_by_agent q c sc a limit (rows, e1) =
      (Inr (sql_limit limit (rev (filter (\<lambda>x. ae_agent x = a) xs))), rows, e2)"
proof -
  obtain rows e1 where run: "record_all q c xs ([], e) = (Inr (), rows, e1)" "quiet e1"
    and rows: "list_all2 (\<lambda>r x. \<exists>h. r = row_of q c x h) rows xs"
    using record_all_quiet [of e c xs q "[]"] assms by auto
  let ?f = "filter (\<lambda>r. ar_agent r = agent_str a) rows" and ?g = "filter (\<lambda>x. ae_agent x = a) xs"
  have "agent_str b = agent_str a \<longleftrightarrow> b = a" for b by (cases a; cases b) simp
  then have fg: "list_all2 (\<lambda>r x. \<exists>h. r = row_of q c x h) ?f ?g"
    using rows_of_filter [OF rows] by simp
  have "q_desc q ?f = rev ?f"
    using order_desc assms(2,4) rows_of_timestamps [OF rows] sorted_wrt_map_filter by metis
  moreover have "list_all2 (\<lambda>r x. row_to_audit_entry c r = Inr x) ?f ?g"
    using fg by (rule list.rel_mono_strong) (use assms(3) row_to_audit_entry_row_of in \<open>auto simp: list_all_iff\<close>)
  then have "list_all2 (\<lambda>r x. row_to_audit_entry c r = Inr x) (sql_limit limit (rev ?f)) (sql_limit limit (rev ?g))"
    by (simp add: sql_limit_def list_all2_takeI)
  then obtain e2 where "collect_entries c sc (sql_limit limit (rev ?f)) (rows, env_step (env_step e1)) =
      (Inr (sql_limit limit (rev ?g)), rows, e2)"
    using collect_entries_quiet [of "env_step (env_step e1)"] run(2) by (metis quiet_step)
  ultimately have "audit_query_by_agent q c sc a limit (rows, e1) = (Inr (sql_limit limit (rev ?g)), rows, e2)"
    using run(2) by (simp add: audit_query_by_agent_def query_rows_def op_defs io_guard_eq)
  with run(1) show ?thesis by blast
qed

section \<open>Witnesses\<close>

text \<open>A toy digest of one byte, SQLite's order as a stable sort, and a log of two key rotations.\<close>

definition demo_sql :: audit_sql where
  "demo_sql =
     \<lparr>q_sha256 = (\<lambda>b. [word_of_nat (length b)]), q_hex = (\<lambda>b. concat (map hex_byte b)),
      q_asc = sort_key ar_timestamp, q_desc = (\<lambda>rows. rev (sort_key ar_timestamp rows)),
      q_unique_text = ''UNIQUE constraint failed'', q_duplicate_text = ''duplicate column name''\<rparr>"

definition demo_codec :: audit_codec where
  "demo_codec =
     \<lparr>event_to_json = (\<lambda>_. Inr ''DekRotated''), event_of_json = (\<lambda>_. Inr Ev_DekRotated),
      outcome_to_json = (\<lambda>_. Inr ''Success''), outcome_of_json = (\<lambda>_. Inr Success),
      uuid_to_string = (\<lambda>u. replicate (unat u) (CHR ''u'')), uuid_parse = (\<lambda>s. Inr (word_of_nat (length s))),
      show_timestamp = (\<lambda>_. []), to_rfc3339 = (\<lambda>t. replicate (nat t) (CHR ''t'')), parse_rfc3339 = (\<lambda>s. Inr (int (length s)))\<rparr>"

definition demo_entry :: "nat \<Rightarrow> AuditEntry" where
  "demo_entry n =
     \<lparr>ae_timestamp = int n, ae_event_id = word_of_nat n, ae_event = Ev_DekRotated, ae_agent = AgentId ''vault'',
      ae_peer_identity = ''anonymous'', ae_outcome = Success\<rparr>"

definition demo_row :: audit_row where
  "demo_row = row_of demo_sql demo_codec (demo_entry 1) (genesis_hash demo_sql)"

lemma demo_order: "order_ok demo_sql"
  by (simp add: order_ok_def demo_sql_def)

lemma quiet_sample: "quiet sample_env"
  by (simp add: quiet_def sample_env_def)

lemma demo_text_hash: "length (text_hash demo_sql s) = 2"
  by (simp add: text_hash_def demo_sql_def hex_byte_def)

lemma demo_log:
  "list_all (codec_ok_for demo_codec) [demo_entry 1, demo_entry 2]"
  "sorted_wrt (<) (map (\<lambda>x. to_rfc3339 demo_codec (ae_timestamp x)) [demo_entry 1, demo_entry 2])"
  "distinct (map (\<lambda>x. uuid_to_string demo_codec (ae_event_id x)) [demo_entry 1, demo_entry 2])"
proof -
  have two: "replicate 2 c = [c, c]" for c :: char by (simp add: numeral_2_eq_2)
  show "list_all (codec_ok_for demo_codec) [demo_entry 1, demo_entry 2]"
    "sorted_wrt (<) (map (\<lambda>x. to_rfc3339 demo_codec (ae_timestamp x)) [demo_entry 1, demo_entry 2])"
    "distinct (map (\<lambda>x. uuid_to_string demo_codec (ae_event_id x)) [demo_entry 1, demo_entry 2])"
    by (simp_all add: codec_ok_for_def demo_codec_def demo_entry_def two)
qed

lemma demo_row_valid:
  "\<exists>v e. verify_audit_chain demo_sql ([demo_row\<lparr>ar_peer_identity := p\<rparr>], sample_env) =
      (Inr v, [demo_row\<lparr>ar_peer_identity := p\<rparr>], e) \<and> is_valid v \<and> total_entries v = 1"
  "q_asc demo_sql [demo_row\<lparr>ar_peer_identity := p\<rparr>] = [demo_row\<lparr>ar_peer_identity := p\<rparr>]"
  "hashed (demo_row\<lparr>ar_peer_identity := p\<rparr>)" "hashed_text (demo_row\<lparr>ar_peer_identity := p\<rparr>) = hashed_text demo_row"
proof -
  let ?r = "demo_row\<lparr>ar_peer_identity := p\<rparr>"
  show asc: "q_asc demo_sql [?r] = [?r]" by (simp add: demo_sql_def)
  show h: "hashed ?r" by (simp add: hashed_def demo_row_def)
  show t: "hashed_text ?r = hashed_text demo_row" by (simp add: hashed_text_def)
  have "chain_ok demo_sql (genesis_hash demo_sql) [?r]" using t by (simp add: demo_row_def)
  moreover obtain v e where "verify_audit_chain demo_sql ([?r], sample_env) = (Inr v, [?r], e)"
    using verify_audit_chain_quiet [OF quiet_sample] by blast
  ultimately show "\<exists>v e. verify_audit_chain demo_sql ([?r], sample_env) = (Inr v, [?r], e) \<and> is_valid v \<and> total_entries v = 1"
    using verify_audit_chain_eq(2) asc by (fastforce simp: walk_props)
qed

theorem recorded_chain_verifies_witness:
  "\<exists>rows e1 e2. record_all demo_sql demo_codec [demo_entry 1, demo_entry 2] ([], sample_env) = (Inr (), rows, e1) \<and>
    verify_audit_chain demo_sql (rows, e1) =
      (Inr \<lparr>total_entries = 2, verified_entries = 2, first_broken_at = None, is_valid = True\<rparr>, rows, e2)"
  using recorded_chain_verifies [OF quiet_sample demo_order _ demo_log] by (simp add: numeral_2_eq_2)

theorem verified_chain_binds_witness:
  "map hashed_text [demo_row] = map hashed_text [demo_row\<lparr>ar_peer_identity := ''forged''\<rparr>]"
proof -
  let ?p = "ar_peer_identity demo_row" and ?r = "demo_row\<lparr>ar_peer_identity := ''forged''\<rparr>"
  have d: "demo_row\<lparr>ar_peer_identity := ?p\<rparr> = demo_row" by simp
  obtain v e where v: "verify_audit_chain demo_sql ([demo_row], sample_env) = (Inr v, [demo_row], e)" "is_valid v" "total_entries v = 1"
    using demo_row_valid(1) [of ?p] unfolding d by blast
  obtain v' e' where v': "verify_audit_chain demo_sql ([?r], sample_env) = (Inr v', [?r], e')" "is_valid v'" "total_entries v' = 1"
    using demo_row_valid(1) by blast
  have asc: "q_asc demo_sql [demo_row] = [demo_row]" "q_asc demo_sql [?r] = [?r]"
    using demo_row_valid(2) [of ?p] demo_row_valid(2) unfolding d by blast+
  have "map hashed_text (q_asc demo_sql [demo_row]) = map hashed_text (q_asc demo_sql [?r])"
  proof (rule verified_chain_binds [OF v(1,2) v'(1,2)])
    show "list_all hashed (q_asc demo_sql [demo_row])" "list_all hashed (q_asc demo_sql [?r])"
      using demo_row_valid(3) [of ?p] demo_row_valid(3) asc unfolding d by simp_all
    show "\<forall>s. length (text_hash demo_sql s) = 2" using demo_text_hash by blast
    show "inj_on (text_hash demo_sql) (hash_inputs (q_asc demo_sql [demo_row]) \<union> hash_inputs (q_asc demo_sql [?r]))"
      by (simp add: asc hash_inputs_def demo_row_valid(4))
  qed (simp_all add: asc v v')
  then show ?thesis by (simp only: asc)
qed

theorem truncation_verifies_witness:
  "\<exists>v e. verify_audit_chain demo_sql (take 1 [demo_row], sample_env) = (Inr v, take 1 [demo_row], e) \<and> is_valid v"
proof -
  have d: "demo_row\<lparr>ar_peer_identity := ar_peer_identity demo_row\<rparr> = demo_row" by simp
  obtain v e where v: "verify_audit_chain demo_sql ([demo_row], sample_env) = (Inr v, [demo_row], e)" "is_valid v"
    using demo_row_valid(1) [of "ar_peer_identity demo_row"] unfolding d by blast
  show ?thesis
    by (rule truncation_verifies [OF demo_order _ v]) (simp_all add: quiet_sample)
qed

theorem agent_query_returns_records_witness:
  "\<exists>rows e1 e2. record_all demo_sql demo_codec [demo_entry 1, demo_entry 2] ([], sample_env) = (Inr (), rows, e1) \<and>
    audit_query_by_agent demo_sql demo_codec unary_codec (AgentId ''vault'') 10 (rows, e1) =
      (Inr [demo_entry 2, demo_entry 1], rows, e2)"
  using agent_query_returns_records [OF quiet_sample demo_order demo_log, of unary_codec "AgentId ''vault''" 10]
  by (simp add: sql_limit_def demo_entry_def)

end
