(* ===== verification/Lease_File.thy ===== *)
theory Lease_File
  imports Identity
begin

text \<open>
  The lease state file that the provisioner writes and the proxy reads
  (\<^verbatim>\<open>crates/zerolease-agent/src/lease_state.rs\<close>), over a file system whose calls may fail.
  JSON is serde's and an argument; so is what a failed write leaves in the file it wrote to.
\<close>

section \<open>Files\<close>

text \<open>\<^verbatim>\<open>std::io::Error\<close>, by the kinds the code makes and the ones it is given.\<close>

datatype io_error = Os string | InvalidInput string | InvalidData string

text \<open>A path, as far as \<^verbatim>\<open>parent\<close> and \<^verbatim>\<open>with_extension\<close> look at it.\<close>

record path =
  p_parent :: "string option"
  p_stem :: string
  p_extension :: "string option"

type_synonym files = "(path \<times> string) list"
type_synonym 'x fs_op = "(files \<times> env, io_error, 'x) op"

definition with_extension :: "string \<Rightarrow> path \<Rightarrow> path" where
  "with_extension x p = p\<lparr>p_extension := Some x\<rparr>"

definition fs_guard :: "unit fs_op" where
  "fs_guard = (\<lambda>(fs, e). case io_fault e of (Some m, e') \<Rightarrow> (Inl (Os m), fs, e') | (None, e') \<Rightarrow> (Inr (), fs, e'))"

text \<open>\<^verbatim>\<open>std::fs::write\<close>; \<open>torn m c\<close> is what a failed write leaves, if it touched the file.\<close>

definition fs_write :: "(string \<Rightarrow> string \<Rightarrow> string option) \<Rightarrow> path \<Rightarrow> string \<Rightarrow> unit fs_op" where
  "fs_write torn p c = (\<lambda>(fs, e).
     case io_fault e of
       (Some m, e') \<Rightarrow>
         (Inl (Os m), (case torn m c of None \<Rightarrow> fs | Some d \<Rightarrow> AList.update p d fs), e')
     | (None, e') \<Rightarrow> (Inr (), AList.update p c fs, e'))"

definition fs_rename :: "path \<Rightarrow> path \<Rightarrow> unit fs_op" where
  "fs_rename p p' =
     try_op fs_guard (\<lambda>_. (\<lambda>(fs, e).
       case map_of fs p of
         None \<Rightarrow> (Inl (Os ''No such file or directory''), fs, e)
       | Some c \<Rightarrow> (Inr (), AList.update p' c (if p = p' then fs else AList.delete p fs), e)))"

definition read_to_string :: "path \<Rightarrow> string fs_op" where
  "read_to_string p =
     try_op fs_guard (\<lambda>_. (\<lambda>(fs, e).
       case map_of fs p of
         None \<Rightarrow> (Inl (Os ''No such file or directory''), fs, e)
       | Some c \<Rightarrow> (if utf8_valid (as_bytes c) then Inr c
                    else Inl (InvalidData ''stream did not contain valid UTF-8''), fs, e)))"

section \<open>Lease state\<close>

definition LEASE_STATE_VERSION :: u32 where
  "LEASE_STATE_VERSION = 1"

record LeaseInfo =
  li_lease_id :: string
  li_expires_at :: date_time

record LeaseState =
  ls_version :: u32
  ls_leases :: "(string \<times> LeaseInfo) list"

definition LeaseState_new :: LeaseState where
  "LeaseState_new = \<lparr>ls_version = LEASE_STATE_VERSION, ls_leases = []\<rparr>"

definition is_allowed :: "LeaseState \<Rightarrow> string \<Rightarrow> env \<Rightarrow> bool \<times> env" where
  "is_allowed s domain e =
     (case map_of (ls_leases s) domain of
        None \<Rightarrow> (False, e)
      | Some info \<Rightarrow> (case utc_now e of (now, e') \<Rightarrow> (li_expires_at info > now, e')))"

definition prune_expired :: "LeaseState \<Rightarrow> env \<Rightarrow> LeaseState \<times> env" where
  "prune_expired s e =
     (case utc_now e of (now, e') \<Rightarrow>
        (s\<lparr>ls_leases := filter (\<lambda>(_, info). li_expires_at info > now) (ls_leases s)\<rparr>, e'))"

record lease_json =
  lj_to_string :: "LeaseState \<Rightarrow> string + string"
  lj_from_str :: "string \<Rightarrow> string + LeaseState"

definition write_atomic ::
  "lease_json \<Rightarrow> (string \<Rightarrow> string \<Rightarrow> string option) \<Rightarrow> LeaseState \<Rightarrow> path \<Rightarrow> unit fs_op" where
  "write_atomic J torn s path =
     try_op (of_result (case p_parent path of None \<Rightarrow> Inl (InvalidInput ''no parent dir'') | Some dir \<Rightarrow> Inr dir)) (\<lambda>_.
     try_op fs_guard (\<lambda>_.
     let temp_path = with_extension ''tmp'' path in
     try_op (of_result (case lj_to_string J s of Inl m \<Rightarrow> Inl (InvalidData m) | Inr json \<Rightarrow> Inr json)) (\<lambda>json.
     try_op (fs_write torn temp_path json) (\<lambda>_.
     fs_rename temp_path path))))"

definition read_from :: "lease_json \<Rightarrow> path \<Rightarrow> LeaseState fs_op" where
  "read_from J path =
     try_op (read_to_string path) (\<lambda>contents.
     of_result (case lj_from_str J contents of Inl m \<Rightarrow> Inl (InvalidData m) | Inr s \<Rightarrow> Inr s))"

section \<open>Lemmas\<close>

lemma fs_guard_eq:
  "fs_guard (fs, e) = (case env_fault e (env_pos e) of
     Some m \<Rightarrow> (Inl (Os m), fs, env_step e) | None \<Rightarrow> (Inr (), fs, env_step e))"
  by (simp add: fs_guard_def io_fault_def split: option.splits)

lemma fs_write_eq:
  "fs_write torn p c (fs, e) = (case env_fault e (env_pos e) of
     Some m \<Rightarrow> (Inl (Os m), (case torn m c of None \<Rightarrow> fs | Some d \<Rightarrow> AList.update p d fs), env_step e)
   | None \<Rightarrow> (Inr (), AList.update p c fs, env_step e))"
  by (simp add: fs_write_def io_fault_def split: option.splits)

lemma map_of_delete_other: "k \<noteq> k' \<Longrightarrow> map_of (AList.delete k xs) k' = map_of xs k'"
  by (simp add: delete_conv')

lemma with_extension_neq: "p_extension p \<noteq> Some x \<Longrightarrow> with_extension x p \<noteq> p"
  by (cases p) (simp add: with_extension_def)

text \<open>What a write leaves under the name, for every way it can end.\<close>

lemma fs_rename_content:
  "p \<noteq> p' \<Longrightarrow> fs_rename p p' (fs, e) = (r, fs', e') \<Longrightarrow>
    (case r of Inl _ \<Rightarrow> map_of fs' p' = map_of fs p' | Inr _ \<Rightarrow> map_of fs' p' = map_of fs p)"
  by (auto simp: fs_rename_def try_op_def fs_guard_eq update_conv' split: option.splits)

lemma fs_write_content:
  "fs_write torn p c (fs, e) = (r, fs', e') \<Longrightarrow>
    (is_ok r \<longrightarrow> map_of fs' p = Some c) \<and> (\<forall>p'. p' \<noteq> p \<longrightarrow> map_of fs' p' = map_of fs p')"
  by (auto simp: fs_write_eq update_conv' split: option.splits)

lemma write_atomic_content:
  assumes "write_atomic J torn s p (fs, e) = (r, fs', e')" and "p_extension p \<noteq> Some ''tmp''"
  shows "case r of Inl _ \<Rightarrow> map_of fs' p = map_of fs p
    | Inr _ \<Rightarrow> (\<exists>json. lj_to_string J s = Inr json \<and> map_of fs' p = Some json)"
proof -
  let ?t = "with_extension ''tmp'' p"
  have t: "?t \<noteq> p" using with_extension_neq [OF assms(2)] .
  consider (early) er where "r = Inl er" "fs' = fs"
    | (commit) json e1 where "lj_to_string J s = Inr json"
      "try_op (fs_write torn ?t json) (\<lambda>_. fs_rename ?t p) (fs, e1) = (r, fs', e')"
    using assms(1)
    by (auto simp: write_atomic_def try_op_def [of "of_result _"] try_op_def [of fs_guard] of_result_def fs_guard_eq Let_def
        split: option.splits sum.splits)
  then show ?thesis
  proof cases
    case (commit json e1)
    obtain r1 fs1 e2 where w: "fs_write torn ?t json (fs, e1) = (r1, fs1, e2)" by (metis prod.exhaust)
    show ?thesis
    proof (cases r1)
      case (Inl er)
      then show ?thesis using commit w t fs_write_content [OF w] by (auto simp: try_op_def)
    next
      case (Inr u)
      then have "fs_rename ?t p (fs1, e2) = (r, fs', e')" using commit w by (simp add: try_op_def)
      from fs_rename_content [OF t this] show ?thesis
        using fs_write_content [OF w] Inr t commit(1) by (auto split: sum.splits)
    qed
  qed simp
qed

lemma read_from_same: "map_of fs p = map_of fs' p \<Longrightarrow> fst (read_from J p (fs, e)) = fst (read_from J p (fs', e))"
  by (simp add: read_from_def read_to_string_def op_defs fs_guard_eq split: option.splits sum.splits)

text \<open>What is asked of the JSON library: valid UTF-8, and reading undoes writing.\<close>

definition lease_json_ok :: "lease_json \<Rightarrow> bool" where
  "lease_json_ok J \<longleftrightarrow>
     (\<forall>s c. lj_to_string J s = Inr c \<longrightarrow> utf8_valid (as_bytes c) \<and> lj_from_str J c = Inr s)"

lemma read_from_written:
  assumes "lease_json_ok J" and "lj_to_string J s = Inr c" and "map_of fs p = Some c"
    and "env_fault e (env_pos e) = None"
  shows "fst (read_from J p (fs, e)) = Inr s"
  using assms by (simp add: read_from_def read_to_string_def op_defs fs_guard_eq lease_json_ok_def)

lemma is_allowed_iff:
  "fst (is_allowed s d e) \<longleftrightarrow>
    (\<exists>info. map_of (ls_leases s) d = Some info \<and> env_clock e (env_pos e) < li_expires_at info)"
  by (auto simp: is_allowed_def utc_now_def split: option.splits)

lemma prune_expired_eq:
  "prune_expired s e =
    (s\<lparr>ls_leases := filter (\<lambda>(_, info). li_expires_at info > env_clock e (env_pos e)) (ls_leases s)\<rparr>, env_step e)"
  by (simp add: prune_expired_def utc_now_def)

section \<open>Properties\<close>

text \<open>
  C32: replacing the lease file is all or nothing. However the write ends, a reader of the file
  finds either the old contents, if the write failed, or exactly the state that was written,
  if it succeeded; a torn temporary file is never seen.
\<close>

theorem lease_file_replaced_or_kept:
  assumes "lease_json_ok J" and "p_extension p \<noteq> Some ''tmp''" and "env_fault e2 (env_pos e2) = None"
    and "write_atomic J torn s p (fs, e) = (r, fs', e')"
  shows "fst (read_from J p (fs', e2)) = (if is_ok r then Inr s else fst (read_from J p (fs, e2)))"
proof (cases r)
  case (Inl er)
  then show ?thesis using write_atomic_content [OF assms(4,2)] read_from_same [of fs' p fs J e2] by simp
next
  case (Inr u)
  then obtain c where "lj_to_string J s = Inr c" "map_of fs' p = Some c"
    using write_atomic_content [OF assms(4,2)] by auto
  then show ?thesis using read_from_written [OF assms(1) _ _ assms(3)] Inr by simp
qed

definition demo_lease_json :: lease_json where
  "demo_lease_json =
     \<lparr>lj_to_string = (\<lambda>s. if s = LeaseState_new then Inr ''{}'' else Inl ''unsupported''),
      lj_from_str = (\<lambda>c. if c = ''{}'' then Inr LeaseState_new else Inl ''invalid'')\<rparr>"

definition demo_env :: "nat \<Rightarrow> env" where
  "demo_env fault_at =
     \<lparr>env_clock = int, env_uuid = word_of_nat, env_rand = (\<lambda>n m. []),
      env_fault = (\<lambda>n. if n = fault_at then Some ''disk full'' else None), env_pos = 0\<rparr>"

definition demo_path :: path where
  "demo_path = \<lparr>p_parent = Some ''/run'', p_stem = ''leases'', p_extension = Some ''json''\<rparr>"

text \<open>A write that fails after touching the temporary file.\<close>

theorem lease_file_replaced_or_kept_witness:
  "fst (write_atomic demo_lease_json (\<lambda>_ _. Some ''x'') LeaseState_new demo_path ([(demo_path, ''old'')], demo_env 1)) =
     Inl (Os ''disk full'') \<and>
   fst (read_from demo_lease_json demo_path
     (fst (snd (write_atomic demo_lease_json (\<lambda>_ _. Some ''x'') LeaseState_new demo_path
       ([(demo_path, ''old'')], demo_env 1))), demo_env 9)) =
   fst (read_from demo_lease_json demo_path ([(demo_path, ''old'')], demo_env 9))"
proof -
  let ?run = "write_atomic demo_lease_json (\<lambda>_ _. Some ''x'') LeaseState_new demo_path ([(demo_path, ''old'')], demo_env 1)"
  have r: "fst ?run = Inl (Os ''disk full'')"
    by (simp add: write_atomic_def op_defs fs_guard_eq fs_write_eq Let_def demo_env_def demo_path_def demo_lease_json_def)
  have "lease_json_ok demo_lease_json"
    by (auto simp: lease_json_ok_def demo_lease_json_def as_bytes_def)
  then have "fst (read_from demo_lease_json demo_path (fst (snd ?run), demo_env 9)) =
      fst (read_from demo_lease_json demo_path ([(demo_path, ''old'')], demo_env 9))"
    using lease_file_replaced_or_kept [of demo_lease_json demo_path "demo_env 9" "\<lambda>_ _. Some ''x''" LeaseState_new
        "[(demo_path, ''old'')]" "demo_env 1" "fst ?run" "fst (snd ?run)" "snd (snd ?run)"] r
    by (simp add: demo_path_def demo_env_def)
  with r show ?thesis by simp
qed

end
