(* ===== verification/Connect_Proxy.thy ===== *)
theory Connect_Proxy
  imports Lease_File Frame Text
begin

text \<open>
  The explicit proxy (\<^verbatim>\<open>crates/zerolease-agent/src/proxy/connect.rs\<close>): the CONNECT request
  line, the checks on port, host name, lease and resolved address, and the tunnel that is
  opened when they all pass. Name resolution is the system's and an argument; copying bytes
  through an open tunnel is not modelled, its time limit is.
\<close>

section \<open>Reading lines\<close>

fun take_line :: "bytes \<Rightarrow> bytes \<times> bytes" where
  "take_line [] = ([], [])"
| "take_line (b # bs) = (if b = 10 then ([b], bs) else case take_line bs of (l, r) \<Rightarrow> (b # l, r))"

text \<open>\<^verbatim>\<open>read_line\<close>: up to and with the next newline, or to the end of the stream.\<close>

definition read_line :: "(reader, io_error, string) op" where
  "read_line r =
     (case take_line (rd_bytes r) of (l, rest) \<Rightarrow>
        if 10 \<in> set l \<or> rd_error r = None then
          (case from_utf8 l of
             None \<Rightarrow> Inl (InvalidData ''stream did not contain valid UTF-8'')
           | Some s \<Rightarrow> Inr s, r\<lparr>rd_bytes := rest\<rparr>)
        else (Inl (Os (the (rd_error r))), r\<lparr>rd_bytes := []\<rparr>))"

section \<open>Targets\<close>

definition MAX_REQUEST_LINE :: nat where
  "MAX_REQUEST_LINE = 8192"

definition MAX_HEADERS :: nat where
  "MAX_HEADERS = 64"

definition MAX_TUNNEL_SECS :: nat where
  "MAX_TUNNEL_SECS = 3600"

definition ALLOWED_PORTS :: "u16 list" where
  "ALLOWED_PORTS = [443, 8443]"

definition parse_connect_target :: "string \<Rightarrow> (string \<times> u16) option" where
  "parse_connect_target line =
     (case split_whitespace line of
        verb # target # _ \<Rightarrow>
          if \<not> eq_ignore_ascii_case verb ''CONNECT'' then None
          else (case rsplit_once (CHR '':'') target of
                  None \<Rightarrow> None
                | Some (host, port_str) \<Rightarrow>
                    (case parse_u16 port_str of
                       None \<Rightarrow> None
                     | Some port \<Rightarrow> if host = [] then None else Some (host, port)))
      | _ \<Rightarrow> None)"

definition is_valid_hostname :: "string \<Rightarrow> bool" where
  "is_valid_hostname host \<longleftrightarrow>
     host \<noteq> [] \<and> length host \<le> 253 \<and>
     list_all (\<lambda>b. is_ascii_alphanumeric b \<or> b = CHR ''-'' \<or> b = CHR ''.'') host \<and>
     \<not> starts_with host ''-'' \<and> \<not> starts_with host ''.''"

section \<open>Addresses\<close>

datatype IpAddr = V4 u8 u8 u8 u8 | V6 "128 word"

record SocketAddr =
  sa_ip :: IpAddr
  sa_port :: u16

fun is_private_ip :: "IpAddr \<Rightarrow> bool" where
  "is_private_ip (V4 a b c d) \<longleftrightarrow>
     a = 127 \<or>
     (a = 10 \<or> a = 172 \<and> 16 \<le> b \<and> b \<le> 31 \<or> a = 192 \<and> b = 168) \<or>
     (a = 169 \<and> b = 254) \<or>
     (a = 255 \<and> b = 255 \<and> c = 255 \<and> d = 255) \<or>
     (a = 0 \<and> b = 0 \<and> c = 0 \<and> d = 0) \<or>
     (a = 100 \<and> and b 192 = 64)"
| "is_private_ip (V6 w) \<longleftrightarrow> w = 1 \<or> w = 0"

definition resolve_and_validate :: "(string \<Rightarrow> SocketAddr list option) \<Rightarrow> string \<Rightarrow> string + SocketAddr" where
  "resolve_and_validate to_socket_addrs target =
     (case to_socket_addrs target of
        None \<Rightarrow> Inl ''DNS resolution failed''
      | Some [] \<Rightarrow> Inl ''DNS returned no addresses''
      | Some (addr # _) \<Rightarrow>
          if is_private_ip (sa_ip addr) then Inl ''resolved to private/internal IP'' else Inr addr)"

section \<open>The handler\<close>

record tcp_stream =
  tc_reader :: reader
  tc_writer :: writer
  tc_env :: env

datatype connect_end = Closed | Tunnel string SocketAddr nat

type_synonym 'x connect_op = "(tcp_stream, io_error, 'x) op"

definition tc_read_line :: "string connect_op" where
  "tc_read_line t = (case read_line (tc_reader t) of (r, rd) \<Rightarrow> (r, t\<lparr>tc_reader := rd\<rparr>))"

definition tc_write_all :: "string \<Rightarrow> unit connect_op" where
  "tc_write_all s t =
     (case write_all (as_bytes s) (tc_writer t) of
        (Inl m, w) \<Rightarrow> (Inl (Os m), t\<lparr>tc_writer := w\<rparr>) | (Inr u, w) \<Rightarrow> (Inr u, t\<lparr>tc_writer := w\<rparr>))"

definition crlf2 :: string where
  "crlf2 = [char_of (13 :: nat), char_of (10 :: nat), char_of (13 :: nat), char_of (10 :: nat)]"

definition established :: string where
  "established = ''HTTP/1.1 200 Connection Established'' @ crlf2"

text \<open>A status line that ends the connection.\<close>

definition refuse :: "string \<Rightarrow> connect_end connect_op" where
  "refuse status = try_op (tc_write_all (''HTTP/1.1 '' @ status @ crlf2)) (\<lambda>_. ok Closed)"

fun skip_headers :: "nat \<Rightarrow> unit connect_op" where
  "skip_headers 0 = ok ()"
| "skip_headers (Suc n) =
     try_op tc_read_line (\<lambda>header.
     if length header > MAX_REQUEST_LINE \<or> trim header = [] then ok () else skip_headers n)"

definition lease_timeout :: "LeaseState \<Rightarrow> string \<Rightarrow> env \<Rightarrow> nat \<times> env" where
  "lease_timeout s domain e =
     (case map_of (ls_leases s) domain of
        None \<Rightarrow> (min 0 MAX_TUNNEL_SECS, e)
      | Some info \<Rightarrow>
          (case utc_now e of (now, e') \<Rightarrow>
             (min (nat (max (num_seconds (li_expires_at info - now)) 0)) MAX_TUNNEL_SECS, e')))"

definition check_lease :: "LeaseState \<Rightarrow> string \<Rightarrow> tcp_stream \<Rightarrow> (bool \<times> nat) \<times> tcp_stream" where
  "check_lease s domain t =
     (case is_allowed s domain (tc_env t) of (allowed, e1) \<Rightarrow>
      case lease_timeout s domain e1 of (timeout, e2) \<Rightarrow> ((allowed, timeout), t\<lparr>tc_env := e2\<rparr>))"

text \<open>\<^verbatim>\<open>TcpStream::connect\<close> to the upstream address.\<close>

definition tcp_connect :: "tcp_stream \<Rightarrow> string option \<times> tcp_stream" where
  "tcp_connect t = (case io_fault (tc_env t) of (m, e) \<Rightarrow> (m, t\<lparr>tc_env := e\<rparr>))"

text \<open>Resolving and connecting, once the lease is known to allow it.\<close>

definition establish ::
  "(string \<Rightarrow> SocketAddr list option) \<Rightarrow> string \<Rightarrow> u16 \<Rightarrow> nat \<Rightarrow> connect_end connect_op" where
  "establish dns domain port tunnel_timeout =
     (case resolve_and_validate dns (domain @ '':'' @ show_nat (unat port)) of
        Inl reason \<Rightarrow> refuse ''502 Bad Gateway''
      | Inr resolved_addr \<Rightarrow>
          let_op tcp_connect (\<lambda>failed.
          if failed \<noteq> None then refuse ''502 Bad Gateway''
          else try_op (tc_write_all established) (\<lambda>_.
          ok (Tunnel domain resolved_addr tunnel_timeout))))"

text \<open>The checks on port, host name and lease.\<close>

definition check_target ::
  "(string \<Rightarrow> SocketAddr list option) \<Rightarrow> LeaseState \<Rightarrow> string \<Rightarrow> u16 \<Rightarrow> connect_end connect_op" where
  "check_target dns s host port =
     (if port \<notin> set ALLOWED_PORTS then refuse ''403 Forbidden''
      else if \<not> is_valid_hostname host then refuse ''400 Bad Request''
      else let domain = to_ascii_lowercase host in
        let_op (check_lease s domain) (\<lambda>(allowed, tunnel_timeout).
        if \<not> allowed then refuse ''403 Forbidden''
        else establish dns domain port tunnel_timeout))"

definition handle_connect ::
  "(string \<Rightarrow> SocketAddr list option) \<Rightarrow> LeaseState \<Rightarrow> connect_end connect_op" where
  "handle_connect dns s =
     try_op tc_read_line (\<lambda>request_line.
     if length request_line > MAX_REQUEST_LINE then refuse ''400 Bad Request''
     else case parse_connect_target request_line of
       None \<Rightarrow> refuse ''400 Bad Request''
     | Some (host, port) \<Rightarrow> try_op (skip_headers MAX_HEADERS) (\<lambda>_. check_target dns s host port))"

section \<open>Lemmas\<close>

lemma num_seconds_bound: "0 \<le> d \<Longrightarrow> seconds (num_seconds d) \<le> d"
  by (cases "d = 0") (auto simp: num_seconds_def seconds_def sgn_if)

lemma refuse_not_tunnel: "refuse st t \<noteq> (Inr (Tunnel d a n), t')"
  by (auto simp: refuse_def try_op_def split: prod.splits sum.splits)

lemma read_env: "tc_read_line t = (r, t') \<Longrightarrow> tc_env t' = tc_env t \<and> tc_writer t' = tc_writer t"
  by (auto simp: tc_read_line_def split: prod.splits)

lemma skip_headers_env: "skip_headers n t = (r, t') \<Longrightarrow> tc_env t' = tc_env t \<and> tc_writer t' = tc_writer t"
proof (induction n arbitrary: t)
  case (Suc n)
  then show ?case
    by (fastforce simp: try_op_def dest: read_env split: prod.splits sum.splits if_splits)
qed simp

lemma tc_write_all_Inr:
  "tc_write_all x t = (Inr u, t') \<Longrightarrow>
    wr_bytes (tc_writer t') = wr_bytes (tc_writer t) @ as_bytes x \<and> tc_env t' = tc_env t"
  by (auto simp: tc_write_all_def write_all_def split: prod.splits sum.splits option.splits if_splits)

lemma resolve_and_validate_Inr:
  "resolve_and_validate dns x = Inr a \<longleftrightarrow> (\<exists>rest. dns x = Some (a # rest)) \<and> \<not> is_private_ip (sa_ip a)"
  by (auto simp: resolve_and_validate_def split: option.splits list.splits)

lemma check_lease_allowed:
  assumes "check_lease s d t = ((True, n), t')"
  shows "\<exists>info. map_of (ls_leases s) d = Some info \<and>
      env_clock (tc_env t) (env_pos (tc_env t)) < li_expires_at info \<and>
      n = min (nat (max (num_seconds (li_expires_at info - env_clock (tc_env t) (Suc (env_pos (tc_env t))))) 0)) 3600"
    and "tc_writer t' = tc_writer t"
  using assms
  by (auto simp: check_lease_def is_allowed_def lease_timeout_def utc_now_def MAX_TUNNEL_SECS_def split: option.splits)

lemma timeout_within_lease:
  "seconds (int (min (nat (max (num_seconds (x - now)) 0)) 3600)) \<le> max (x - now) 0"
proof (cases "0 \<le> x - now")
  case True
  have "int (min (nat (max (num_seconds (x - now)) 0)) 3600) \<le> max (num_seconds (x - now)) 0" by simp
  then have "seconds (int (min (nat (max (num_seconds (x - now)) 0)) 3600)) \<le> seconds (max (num_seconds (x - now)) 0)"
    by (simp add: seconds_def)
  also have "\<dots> \<le> max (x - now) 0"
    using num_seconds_bound [OF True] True by (auto simp: seconds_def max_def)
  finally show ?thesis .
next
  case False
  then have "num_seconds (x - now) \<le> 0" using num_seconds_pos [of "x - now"] by (simp add: seconds_def)
  then show ?thesis by (simp add: seconds_def max_def)
qed

text \<open>The one way through each stage that opens a tunnel.\<close>

lemma establish_tunnel:
  assumes "establish dns d port n t = (Inr (Tunnel domain addr timeout), t')"
  shows "domain = d" and "timeout = n"
    and "resolve_and_validate dns (d @ '':'' @ show_nat (unat port)) = Inr addr"
    and "wr_bytes (tc_writer t') = wr_bytes (tc_writer t) @ as_bytes established"
proof -
  have r: "resolve_and_validate dns (d @ '':'' @ show_nat (unat port)) = Inr addr \<and> domain = d \<and> timeout = n \<and>
      tc_write_all established (snd (tcp_connect t)) = (Inr (), t')"
    using assms
    by (auto simp: establish_def let_op_eq try_op_Inr refuse_not_tunnel split: sum.splits if_splits)
  then show "domain = d" "timeout = n" "resolve_and_validate dns (d @ '':'' @ show_nat (unat port)) = Inr addr"
    by simp_all
  have "tc_writer (snd (tcp_connect t)) = tc_writer t" by (simp add: tcp_connect_def split: prod.splits)
  then show "wr_bytes (tc_writer t') = wr_bytes (tc_writer t) @ as_bytes established"
    using tc_write_all_Inr r by metis
qed

lemma check_target_tunnel:
  assumes "check_target dns s host port t = (Inr (Tunnel domain addr timeout), t')"
  obtains t1 n where "port \<in> set ALLOWED_PORTS" "is_valid_hostname host"
    "check_lease s (to_ascii_lowercase host) t = ((True, n), t1)"
    "establish dns (to_ascii_lowercase host) port n t1 = (Inr (Tunnel domain addr timeout), t')"
  using assms
  by (auto simp: check_target_def let_op_def refuse_not_tunnel Let_def split: prod.splits if_splits)

lemma handle_connect_tunnel:
  assumes "handle_connect dns s t = (Inr (Tunnel domain addr timeout), t')"
  obtains line t1 host port t2 where
    "tc_read_line t = (Inr line, t1)" "parse_connect_target line = Some (host, port)"
    "tc_env t2 = tc_env t" "tc_writer t2 = tc_writer t"
    "check_target dns s host port t2 = (Inr (Tunnel domain addr timeout), t')"
proof -
  obtain line t1 where l: "tc_read_line t = (Inr line, t1)" "\<not> length line > MAX_REQUEST_LINE"
    and k: "(case parse_connect_target line of None \<Rightarrow> refuse ''400 Bad Request''
      | Some (host, port) \<Rightarrow> try_op (skip_headers MAX_HEADERS) (\<lambda>_. check_target dns s host port)) t1 =
      (Inr (Tunnel domain addr timeout), t')"
    using assms unfolding handle_connect_def try_op_Inr by (auto simp: refuse_not_tunnel split: if_splits)
  obtain host port t2 where "parse_connect_target line = Some (host, port)"
    and h: "skip_headers MAX_HEADERS t1 = (Inr (), t2)" "check_target dns s host port t2 = (Inr (Tunnel domain addr timeout), t')"
    using k by (auto simp: try_op_Inr refuse_not_tunnel split: option.splits)
  then show ?thesis using that l(1) read_env [OF l(1)] skip_headers_env [OF h(1)] by metis
qed

lemma tunnel_lease:
  assumes "handle_connect dns s t = (Inr (Tunnel domain addr timeout), t')"
  shows "\<exists>info. map_of (ls_leases s) domain = Some info \<and>
    env_clock (tc_env t) (env_pos (tc_env t)) < li_expires_at info"
  using assms
proof (rule handle_connect_tunnel)
  fix host port t2
  assume e: "tc_env t2 = tc_env t"
    and "check_target dns s host port t2 = (Inr (Tunnel domain addr timeout), t')"
  from this(2) show ?thesis
    by (rule check_target_tunnel) (use e establish_tunnel(1) check_lease_allowed(1) in metis)
qed

section \<open>Properties\<close>


definition demo_request :: tcp_stream where
  "demo_request =
     \<lparr>tc_reader = \<lparr>rd_bytes = as_bytes ''CONNECT A.io:443'' @ [13, 10, 13, 10], rd_error = None\<rparr>,
      tc_writer = open_writer, tc_env = demo_env 9\<rparr>"

definition demo_leases :: LeaseState where
  "demo_leases = LeaseState_new\<lparr>ls_leases := [(''a.io'', \<lparr>li_lease_id = ''l'', li_expires_at = 7000000000\<rparr>)]\<rparr>"

definition demo_dns :: "string \<Rightarrow> SocketAddr list option" where
  "demo_dns x = (if x = ''a.io:443'' then Some [\<lparr>sa_ip = V4 93 184 215 14, sa_port = 443\<rparr>] else None)"

lemma demo_line:
  "parse_connect_target (''CONNECT A.io:443'' @ [char_of (13 :: nat), char_of (10 :: nat)]) = Some (''A.io'', 443)"
  by (simp add: parse_connect_target_def split_whitespace_def ws_prefix_ascii eq_ignore_ascii_case_def
      to_ascii_lowercase_def lower_char_def is_ascii_upper_def rsplit_once_def parse_u16_def is_ascii_digit_def)

lemma demo_reads:
  "tc_read_line demo_request = (Inr (''CONNECT A.io:443'' @ [char_of (13 :: nat), char_of (10 :: nat)]),
     demo_request\<lparr>tc_reader := \<lparr>rd_bytes = [13, 10], rd_error = None\<rparr>\<rparr>)"
  by (simp add: tc_read_line_def read_line_def demo_request_def as_bytes_def from_utf8_def of_bytes_def)
    code_simp

lemma demo_skips:
  "skip_headers MAX_HEADERS (demo_request\<lparr>tc_reader := \<lparr>rd_bytes = [13, 10], rd_error = None\<rparr>\<rparr>) =
     (Inr (), demo_request\<lparr>tc_reader := \<lparr>rd_bytes = [], rd_error = None\<rparr>\<rparr>)"
proof -
  have "skip_headers MAX_HEADERS = try_op tc_read_line (\<lambda>header.
      if length header > MAX_REQUEST_LINE \<or> trim header = [] then ok () else skip_headers 63)"
    using skip_headers.simps(2) [of 63] by (simp add: MAX_HEADERS_def del: skip_headers.simps)
  then show ?thesis
    by (simp add: try_op_def tc_read_line_def read_line_def from_utf8_def of_bytes_def trim_def ws_prefix_ascii
        trim_end.simps ok_def)
qed


end
