(* ===== verification/Sni.thy ===== *)
theory Sni
  imports Prelude
begin

text \<open>
  Server name extraction from a TLS ClientHello
  (\<^verbatim>\<open>crates/zerolease-agent/src/proxy/sni.rs\<close>). A function that indexes a slice may panic,
  so it returns an \<^typ>\<open>'a outcome\<close>; \<^verbatim>\<open>?\<close> on an option and \<^verbatim>\<open>get\<close> end it with no name
  instead. The lemmas give the names found in well-formed hellos and the one way to a panic.
\<close>

section \<open>Parsing\<close>

definition MAX_CLIENT_HELLO :: nat where
  "MAX_CLIENT_HELLO = 16384"

text \<open>\<open>try_some x k\<close> is \<^verbatim>\<open>let y = x?; k(y)\<close> in a function that returns an option.\<close>

definition try_some :: "'a option \<Rightarrow> ('a \<Rightarrow> 'b option outcome) \<Rightarrow> 'b option outcome" where
  "try_some x k = (case x of None \<Rightarrow> Done None | Some y \<Rightarrow> k y)"

definition u16_from_be :: "u8 \<Rightarrow> u8 \<Rightarrow> nat" where
  "u16_from_be a b = unat a * 256 + unat b"

text \<open>\<^verbatim>\<open>u16::from_be_bytes([xs[i], xs[i + 1]])\<close>.\<close>

definition u16_at :: "bytes \<Rightarrow> nat \<Rightarrow> nat outcome" where
  "u16_at xs i = bind_out (index_at xs i) (\<lambda>a. bind_out (index_at xs (i + 1)) (\<lambda>b. Done (u16_from_be a b)))"

definition u24_to_usize :: "bytes \<Rightarrow> nat option outcome" where
  "u24_to_usize bytes =
     (if length bytes < 3 then Done None
      else bind_out (index_at bytes 0) (\<lambda>a. bind_out (index_at bytes 1) (\<lambda>b. bind_out (index_at bytes 2) (\<lambda>c.
        Done (Some (unat a * 65536 + unat b * 256 + unat c))))))"

function walk_names :: "bytes \<Rightarrow> nat \<Rightarrow> string option outcome" where
  "walk_names data pos =
     (if pos + 3 \<le> length data then
        bind_out (index_at data pos) (\<lambda>name_type.
        bind_out (u16_at data (pos + 1)) (\<lambda>name_len.
        if name_type = 0 then
          try_some (get_range data (pos + 3) (pos + 3 + name_len)) (\<lambda>name_bytes. Done (from_utf8 name_bytes))
        else walk_names data (pos + 3 + name_len)))
      else Done None)"
  by pat_completeness auto
termination
  by (relation "measure (\<lambda>(data, pos). length data - pos)") auto

definition parse_server_name :: "bytes \<Rightarrow> string option outcome" where
  "parse_server_name data =
     (if length data < 2 then Done None
      else bind_out (u16_at data 0) (\<lambda>list_len. walk_names data 2))"

function walk_extensions :: "bytes \<Rightarrow> nat \<Rightarrow> nat \<Rightarrow> string option outcome" where
  "walk_extensions hello pos ext_end =
     (if pos + 4 \<le> ext_end then
        bind_out (u16_at hello pos) (\<lambda>ext_type.
        bind_out (u16_at hello (pos + 2)) (\<lambda>ext_data_len.
        if ext_type = 0 then
          try_some (get_range hello (pos + 4) (pos + 4 + ext_data_len)) parse_server_name
        else walk_extensions hello (pos + 4 + ext_data_len) ext_end))
      else Done None)"
  by pat_completeness auto
termination
  by (relation "measure (\<lambda>(hello, pos, ext_end). ext_end - pos)") auto

declare walk_names.simps [simp del] walk_extensions.simps [simp del]

text \<open>The ClientHello message of a handshake record.\<close>

definition hello_message :: "bytes \<Rightarrow> bytes option outcome" where
  "hello_message data =
     (if length data < 5 then Done None
      else bind_out (index_at data 0) (\<lambda>content_type.
      if content_type \<noteq> 22 then Done None
      else bind_out (u16_at data 3) (\<lambda>record_len.
      try_some (get_range data 5 (5 + record_len)) (\<lambda>handshake.
      if handshake = [] then Done None
      else bind_out (index_at handshake 0) (\<lambda>handshake_type.
      if handshake_type \<noteq> 1 then Done None
      else try_some (get_range handshake 1 4) (\<lambda>len_bytes.
      bind_out (u24_to_usize len_bytes) (\<lambda>len.
      try_some len (\<lambda>hello_len.
      Done (get_range handshake 4 (4 + hello_len))))))))))"

text \<open>Where its extensions start and end, by the length fields.\<close>

definition extension_block :: "bytes \<Rightarrow> (nat \<times> nat) option outcome" where
  "extension_block hello =
     (if length hello < 34 then Done None
      else try_some (get_at hello 34) (\<lambda>session_id_len.
      let pos = 34 + (1 + unat session_id_len) in
      try_some (get_at hello pos) (\<lambda>c1.
      try_some (get_at hello (pos + 1)) (\<lambda>c2.
      let pos = pos + (2 + u16_from_be c1 c2) in
      try_some (get_at hello pos) (\<lambda>comp_len.
      let pos = pos + (1 + unat comp_len) in
      if pos + 2 > length hello then Done None
      else bind_out (u16_at hello pos) (\<lambda>ext_len.
      Done (Some (pos + 2, pos + 2 + ext_len))))))))"

definition bind_some :: "'a option outcome \<Rightarrow> ('a \<Rightarrow> 'b option outcome) \<Rightarrow> 'b option outcome" where
  "bind_some m k = bind_out m (\<lambda>x. try_some x k)"

definition extract_sni :: "bytes \<Rightarrow> string option outcome" where
  "extract_sni data =
     bind_some (hello_message data) (\<lambda>hello.
     bind_some (extension_block hello) (\<lambda>(pos, ext_end).
     walk_extensions hello pos ext_end))"

section \<open>Well-formed hellos\<close>

definition be16 :: "nat \<Rightarrow> bytes" where
  "be16 n = [word_of_nat (n div 256), word_of_nat n]"

definition be24 :: "nat \<Rightarrow> bytes" where
  "be24 n = [word_of_nat (n div 65536), word_of_nat (n div 256), word_of_nat n]"

definition extension_bytes :: "nat \<times> bytes \<Rightarrow> bytes" where
  "extension_bytes = (\<lambda>(t, d). be16 t @ be16 (length d) @ d)"

definition server_name_data :: "string \<Rightarrow> bytes" where
  "server_name_data host =
     be16 (3 + length host) @ [0] @ be16 (length host) @ as_bytes host"

definition hello_bytes :: "bytes \<Rightarrow> bytes \<Rightarrow> bytes \<Rightarrow> bytes \<Rightarrow> (nat \<times> bytes) list \<Rightarrow> bytes" where
  "hello_bytes fixed session suites comps exts =
     fixed @ [word_of_nat (length session)] @ session @ be16 (length suites) @ suites @
     [word_of_nat (length comps)] @ comps @
     be16 (length (concat (map extension_bytes exts))) @ concat (map extension_bytes exts)"

definition record_bytes :: "bytes \<Rightarrow> bytes \<Rightarrow> bytes" where
  "record_bytes version hello =
     [22] @ version @ be16 (4 + length hello) @ [1] @ be24 (length hello) @ hello"

section \<open>Lemmas\<close>

lemma out_simps [simp]:
  "bind_out (Done x) k = k x" "bind_out Panic k = Panic"
  "try_some None k' = Done None" "try_some (Some y) k' = k' y"
  "bind_some (Done None) k' = Done None" "bind_some (Done (Some y)) k' = k' y" "bind_some Panic k' = Panic"
  by (simp_all add: bind_out_def try_some_def bind_some_def)

lemma index_at_append [simp]: "length xs = n \<Longrightarrow> index_at (xs @ y # ys) n = Done y"
  by (auto simp: index_at_def)

lemma u16_from_be16: "n < 65536 \<Longrightarrow> u16_from_be (word_of_nat (n div 256)) (word_of_nat n) = n"
  by (simp add: u16_from_be_def unat_of_nat)

lemma length_be [simp]: "length (be16 n) = 2" "length (be24 n) = 3"
  by (simp_all add: be16_def be24_def)

lemma u16_at_be16: "length xs = i \<Longrightarrow> n < 65536 \<Longrightarrow> u16_at (xs @ be16 n @ ys) i = Done n"
  by (auto simp: u16_at_def be16_def index_at_def nth_append u16_from_be16)

lemma u24_be24: "n < 16777216 \<Longrightarrow> u24_to_usize (be24 n) = Done (Some n)"
proof -
  assume n: "n < 16777216"
  define m where "m = n div 256"
  have m: "m < 65536" using n by (simp add: m_def less_mult_imp_div_less)
  have "n div 65536 = m div 256" by (simp add: m_def div_mult2_eq [symmetric])
  moreover have "m div 256 * 65536 + m mod 256 * 256 = m * 256" using div_mult_mod_eq [of m 256] by linarith
  moreover have "m * 256 + n mod 256 = n" by (simp add: m_def)
  moreover have "n div 65536 mod 256 = n div 65536" using n by (simp add: less_mult_imp_div_less)
  ultimately have "n div 65536 mod 256 * 65536 + m mod 256 * 256 + n mod 256 = n"
    and "n div 65536 * 65536 + m mod 256 * 256 + n mod 256 = n"
    by simp_all
  then show ?thesis by (simp add: u24_to_usize_def be24_def index_at_def unat_of_nat m_def take_bit_eq_mod)
qed

lemma get_range_mid: "a = length xs \<Longrightarrow> b = length xs + length ys \<Longrightarrow> get_range (xs @ ys @ zs) a b = Some ys"
  by (simp add: get_range_def)

lemma parse_server_name_data:
  assumes "length host < 65533" and "utf8_valid (as_bytes host)"
  shows "parse_server_name (server_name_data host) = Done (Some host)"
proof -
  have d: "server_name_data host = be16 (3 + length host) @ 0 # be16 (length host) @ as_bytes host"
    "server_name_data host = (be16 (3 + length host) @ [0]) @ be16 (length host) @ as_bytes host"
    "server_name_data host = (be16 (3 + length host) @ [0] @ be16 (length host)) @ as_bytes host @ []"
    by (simp_all add: server_name_data_def)
  have "index_at (server_name_data host) 2 = Done 0" unfolding d(1) by simp
  moreover have "u16_at (server_name_data host) 3 = Done (length host)"
    unfolding d(2) by (rule u16_at_be16) (use assms in auto)
  moreover have "get_range (server_name_data host) 5 (5 + length host) = Some (as_bytes host)"
    unfolding d(3) by (rule get_range_mid) auto
  moreover have "u16_at (server_name_data host) 0 = Done (3 + length host)"
    using u16_at_be16 [of "[]" 0] assms by (simp add: server_name_data_def)
  ultimately show ?thesis
    using assms(2)
    by (simp add: parse_server_name_def walk_names.simps [of _ 2] from_utf8_as_bytes)
      (simp add: server_name_data_def)
qed

lemma walk_extensions_step:
  assumes "hello = pre @ extension_bytes (t, d) @ post" and "length pre = pos"
    and "t < 65536" and "length d < 65536" and "pos + 4 + length d \<le> ext_end"
  shows "walk_extensions hello pos ext_end =
    (if t = 0 then parse_server_name d else walk_extensions hello (pos + 4 + length d) ext_end)"
proof -
  have d: "hello = pre @ be16 t @ be16 (length d) @ d @ post" "hello = (pre @ be16 t) @ be16 (length d) @ d @ post"
    "hello = (pre @ be16 t @ be16 (length d)) @ d @ post"
    by (simp_all add: assms(1) extension_bytes_def)
  have "u16_at hello pos = Done t" unfolding d(1) by (rule u16_at_be16) (use assms in auto)
  moreover have "u16_at hello (pos + 2) = Done (length d)"
    unfolding d(2) by (rule u16_at_be16) (use assms in auto)
  moreover have "get_range hello (pos + 4) (pos + 4 + length d) = Some d"
    unfolding d(3) by (rule get_range_mid) (use assms in auto)
  ultimately show ?thesis using assms(5) by (subst walk_extensions.simps) simp
qed

lemma length_extension_bytes [simp]: "length (extension_bytes (t, d)) = 4 + length d"
  by (simp add: extension_bytes_def)

lemma walk_extensions_skip:
  "list_all (\<lambda>(t, d). t \<noteq> 0 \<and> t < 65536 \<and> length d < 65536) exts \<Longrightarrow>
    length pre + length (concat (map extension_bytes exts)) \<le> ext_end \<Longrightarrow>
    walk_extensions (pre @ concat (map extension_bytes exts) @ post) (length pre) ext_end =
    walk_extensions (pre @ concat (map extension_bytes exts) @ post)
      (length pre + length (concat (map extension_bytes exts))) ext_end"
proof (induction exts arbitrary: pre)
  case (Cons x exts)
  obtain t d where x: "x = (t, d)" by fastforce
  have "walk_extensions (pre @ extension_bytes (t, d) @ concat (map extension_bytes exts) @ post) (length pre) ext_end =
      walk_extensions ((pre @ extension_bytes (t, d)) @ concat (map extension_bytes exts) @ post)
        (length (pre @ extension_bytes (t, d))) ext_end"
    using walk_extensions_step [OF refl refl, of t d] Cons.prems by (simp add: x add.assoc)
  then show ?case using Cons.IH [of "pre @ extension_bytes (t, d)"] Cons.prems by (simp add: x add.assoc)
qed simp

lemma get_at_append [simp]: "length xs = n \<Longrightarrow> get_at (xs @ y # ys) n = Some y"
  by (auto simp: get_at_def)

lemma extension_block_hello:
  assumes "length fixed = 34" and "length session < 256" and "length suites < 65536" and "length comps < 256"
    and "length (concat (map extension_bytes exts)) < 65536"
  shows "extension_block (hello_bytes fixed session suites comps exts) =
    (let pos = 40 + length session + length suites + length comps in
     Done (Some (pos, pos + length (concat (map extension_bytes exts)))))"
proof -
  let ?x = "concat (map extension_bytes exts)" and ?h = "hello_bytes fixed session suites comps exts"
  let ?s = "fixed @ [word_of_nat (length session)] @ session" and ?n = "length suites"
  let ?c = "?s @ be16 ?n @ suites"
  have d: "?h = fixed @ word_of_nat (length session) # session @ be16 ?n @ suites @
      [word_of_nat (length comps)] @ comps @ be16 (length ?x) @ ?x"
    "?h = ?s @ word_of_nat (?n div 256) # word_of_nat ?n # suites @ [word_of_nat (length comps)] @ comps @ be16 (length ?x) @ ?x"
    "?h = (?s @ [word_of_nat (?n div 256)]) @ word_of_nat ?n # suites @ [word_of_nat (length comps)] @ comps @ be16 (length ?x) @ ?x"
    "?h = ?c @ word_of_nat (length comps) # comps @ be16 (length ?x) @ ?x"
    "?h = (?c @ [word_of_nat (length comps)] @ comps) @ be16 (length ?x) @ ?x"
    by (simp_all add: hello_bytes_def be16_def)
  have "get_at ?h 34 = Some (word_of_nat (length session))" unfolding d(1) using assms by simp
  moreover have "get_at ?h (35 + length session) = Some (word_of_nat (?n div 256))"
    unfolding d(2) by (rule get_at_append) (use assms in auto)
  moreover have "get_at ?h (36 + length session) = Some (word_of_nat ?n)"
    unfolding d(3) by (rule get_at_append) (use assms in auto)
  moreover have "get_at ?h (37 + length session + ?n) = Some (word_of_nat (length comps))"
    unfolding d(4) by (rule get_at_append) (use assms in auto)
  moreover have "u16_at ?h (38 + length session + ?n + length comps) = Done (length ?x)"
    unfolding d(5) by (rule u16_at_be16) (use assms in auto)
  moreover have "length ?h = 40 + length session + ?n + length comps + length ?x"
    using assms(1) by (simp add: hello_bytes_def)
  ultimately show ?thesis
    using assms by (simp add: extension_block_def unat_of_nat u16_from_be16 Let_def add.assoc)
qed

lemma hello_message_record:
  assumes "length version = 2" and "length hello < 65532"
  shows "hello_message (record_bytes version hello @ rest) = Done (Some hello)"
proof -
  let ?hs = "[1] @ be24 (length hello) @ hello" and ?d = "record_bytes version hello @ rest"
  have d: "?d = [] @ 22 # version @ be16 (4 + length hello) @ ?hs @ rest"
    "?d = (22 # version) @ be16 (4 + length hello) @ ?hs @ rest"
    "?d = (22 # version @ be16 (4 + length hello)) @ ?hs @ rest"
    by (simp_all add: record_bytes_def)
  have "index_at ?d 0 = Done 22" unfolding d(1) by (rule index_at_append) simp
  moreover have "u16_at ?d 3 = Done (4 + length hello)"
    unfolding d(2) by (rule u16_at_be16) (use assms in auto)
  moreover have "get_range ?d 5 (5 + (4 + length hello)) = Some ?hs"
    unfolding d(3) by (rule get_range_mid) (use assms in auto)
  moreover have "index_at ?hs 0 = Done 1" by (simp add: index_at_def)
  moreover have "get_range ?hs 1 4 = Some (be24 (length hello))"
    by (rule get_range_mid) simp_all
  moreover have "get_range ?hs 4 (4 + length hello) = Some hello"
    using get_range_mid [of 4 "[1] @ be24 (length hello)" _ hello "[]"] by simp
  moreover have "5 \<le> length ?d" using assms by (simp add: record_bytes_def)
  ultimately show ?thesis using assms by (simp add: hello_message_def u24_be24)
qed

section \<open>Panics\<close>

lemma index_at_ok: "i < length xs \<Longrightarrow> \<exists>x. index_at xs i = Done x"
  by (simp add: index_at_def)

lemma u16_at_ok: "i + 1 < length xs \<Longrightarrow> \<exists>x. u16_at xs i = Done x"
  by (simp add: u16_at_def index_at_def)

lemma walk_names_no_panic: "walk_names data pos \<noteq> Panic"
proof (induction data pos rule: walk_names.induct)
  case (1 data pos)
  show ?case
  proof (cases "pos + 3 \<le> length data")
    case True
    then obtain t l where "index_at data pos = Done t" "u16_at data (pos + 1) = Done l"
      using index_at_ok [of pos data] u16_at_ok [of "pos + 1" data] by auto
    then show ?thesis
      using 1 True by (subst walk_names.simps) (cases "get_range data (pos + 3) (pos + 3 + l)"; simp)
  qed (simp add: walk_names.simps)
qed

lemma parse_server_name_no_panic: "parse_server_name data \<noteq> Panic"
proof (cases "length data < 2")
  case False
  then obtain l where "u16_at data 0 = Done l" using u16_at_ok [of 0 data] by auto
  with False show ?thesis by (simp add: parse_server_name_def walk_names_no_panic)
qed (simp add: parse_server_name_def)

lemma try_some_no_panic: "(\<And>y. x = Some y \<Longrightarrow> k y \<noteq> Panic) \<Longrightarrow> try_some x k \<noteq> Panic"
  by (cases x) simp_all

lemma walk_extensions_no_panic: "ext_end \<le> length hello \<Longrightarrow> walk_extensions hello pos ext_end \<noteq> Panic"
proof (induction hello pos ext_end rule: walk_extensions.induct)
  case (1 hello pos ext_end)
  show ?case
  proof (cases "pos + 4 \<le> ext_end")
    case True
    then obtain t l where "u16_at hello pos = Done t" "u16_at hello (pos + 2) = Done l"
      using u16_at_ok [of pos hello] u16_at_ok [of "pos + 2" hello] 1 by auto
    then show ?thesis
      using 1 True by (subst walk_extensions.simps) (simp add: try_some_no_panic parse_server_name_no_panic)
  qed (simp add: walk_extensions.simps)
qed

lemma bind_out_no_panic: "m \<noteq> Panic \<Longrightarrow> (\<And>x. m = Done x \<Longrightarrow> k x \<noteq> Panic) \<Longrightarrow> bind_out m k \<noteq> Panic"
  by (cases m) simp_all

lemma u16_at_no_panic: "i + 1 < length xs \<Longrightarrow> u16_at xs i \<noteq> Panic"
  using u16_at_ok [of i xs] by auto

lemma index_at_no_panic: "i < length xs \<Longrightarrow> index_at xs i \<noteq> Panic"
  by (simp add: index_at_def)

lemma if_no_panic: "(\<not> c \<Longrightarrow> m \<noteq> Panic) \<Longrightarrow> (if c then Done x else m) \<noteq> Panic"
  by simp

lemma u24_no_panic: "u24_to_usize b \<noteq> Panic"
  unfolding u24_to_usize_def by (intro if_no_panic bind_out_no_panic index_at_no_panic) auto

lemma hello_message_no_panic: "hello_message data \<noteq> Panic"
  unfolding hello_message_def
  by (intro if_no_panic bind_out_no_panic try_some_no_panic index_at_no_panic u16_at_no_panic u24_no_panic) auto

lemma extension_block_no_panic: "extension_block hello \<noteq> Panic"
  unfolding extension_block_def Let_def
  by (intro if_no_panic bind_out_no_panic try_some_no_panic u16_at_no_panic) auto

lemma extract_sni_hello:
  assumes "length version = 2" and "length fixed = 34" and "length session < 256" and "length comps < 256"
    and "list_all (\<lambda>(t, d). t \<noteq> 0 \<and> t < 65536) before" and "utf8_valid (as_bytes host)"
    and "length (hello_bytes fixed session suites comps (before @ (0, server_name_data host) # after)) < 65532"
  shows "extract_sni (record_bytes version
      (hello_bytes fixed session suites comps (before @ (0, server_name_data host) # after)) @ rest) = Done (Some host)"
proof -
  let ?exts = "before @ (0, server_name_data host) # after" and ?b = "concat (map extension_bytes before)"
  let ?h = "hello_bytes fixed session suites comps ?exts"
  define x where "x = length (concat (map extension_bytes ?exts))"
  define pos where "pos = 40 + length session + length suites + length comps"
  have len: "length ?h = pos + x" using assms(2) by (simp add: hello_bytes_def x_def pos_def)
  have x: "x = length ?b + (4 + length (server_name_data host)) + length (concat (map extension_bytes after))"
    by (simp add: x_def)
  have name: "length host < 65533" "length (server_name_data host) < 65536"
    using assms(7) len x by (simp_all add: server_name_data_def)
  have "length d \<le> length ?b" if "(t, d) \<in> set before" for t d
    using that by (induction before) auto
  then have skip: "list_all (\<lambda>(t, d). t \<noteq> 0 \<and> t < 65536 \<and> length d < 65536) before"
    using assms(5,7) len x by (fastforce simp: list_all_iff)
  obtain front where h: "?h = front @ ?b @ extension_bytes (0, server_name_data host) @ concat (map extension_bytes after)"
    and front: "length front = pos"
    using assms(2) by (simp add: hello_bytes_def pos_def)
  have "walk_extensions ?h pos (pos + x) = walk_extensions ?h (pos + length ?b) (pos + x)"
    using walk_extensions_skip [OF skip, of front "pos + x"] front x unfolding h by simp
  also have "\<dots> = Done (Some host)"
    using walk_extensions_step [of ?h "front @ ?b" 0 "server_name_data host" _ "pos + length ?b" "pos + x"] h front x
      parse_server_name_data [OF name(1) assms(6)] name(2)
    by simp
  finally show ?thesis
    using hello_message_record [OF assms(1,7)] extension_block_hello [OF assms(2,3) _ assms(4), of suites ?exts] assms(7) len
    by (simp add: extract_sni_def Let_def x_def pos_def)
qed

section \<open>Properties\<close>

text \<open>
  C30: the name a TLS client asks for is the name the proxy sees. For every ClientHello with
  consistent lengths, whatever its version, random, session, cipher suites, compression methods
  and other extensions, and whatever follows the record, the host name of its server name
  extension is extracted.
\<close>

theorem sni_of_client_hello:
  assumes "length version = 2" and "length fixed = 34" and "length session < 256" and "length comps < 256"
    and "list_all (\<lambda>(t, d). t \<noteq> 0 \<and> t < 65536) before" and "utf8_valid (as_bytes host)"
    and "length (hello_bytes fixed session suites comps (before @ (0, server_name_data host) # after)) < 65532"
  shows "extract_sni (record_bytes version
      (hello_bytes fixed session suites comps (before @ (0, server_name_data host) # after)) @ rest) = Done (Some host)"
  using assms by (rule extract_sni_hello)

text \<open>
  C31: parsing fails only by rejecting, with one exception. A hello makes the parser panic only
  if its extension block claims to be longer than the message; all other malformed input ends
  with no name.
\<close>

theorem sni_panics_only_on_long_extensions:
  assumes "extract_sni data = Panic"
  shows "\<exists>hello pos ext_end. hello_message data = Done (Some hello) \<and>
    extension_block hello = Done (Some (pos, ext_end)) \<and> length hello < ext_end"
proof -
  obtain h where h: "hello_message data = Done h" using hello_message_no_panic by (cases "hello_message data") auto
  with assms obtain hello where hello: "h = Some hello" by (cases h) (auto simp: extract_sni_def)
  obtain x where x: "extension_block hello = Done x"
    using extension_block_no_panic by (cases "extension_block hello") auto
  with assms h hello obtain pos ext_end where "x = Some (pos, ext_end)"
    by (cases x) (auto simp: extract_sni_def)
  then have "walk_extensions hello pos ext_end = Panic"
    using assms h hello x by (simp add: extract_sni_def)
  then have "length hello < ext_end" using walk_extensions_no_panic by (metis not_le)
  with h hello x \<open>x = Some (pos, ext_end)\<close> show ?thesis by blast
qed

section \<open>Witnesses\<close>

definition demo_hello :: bytes where
  "demo_hello = hello_bytes (replicate 34 0) [] [0, 47] [0] [(0, server_name_data ''a.io'')]"

definition short_hello :: bytes where
  "short_hello = replicate 34 0 @ [0, 0, 0, 0] @ be16 4"

theorem sni_of_client_hello_witness: "extract_sni (record_bytes [3, 1] demo_hello @ [23]) = Done (Some ''a.io'')"
  unfolding demo_hello_def
  by (rule sni_of_client_hello [where before = "[]", simplified])
    (simp_all add: hello_bytes_def extension_bytes_def server_name_data_def as_bytes_def)

theorem sni_panics_only_on_long_extensions_witness:
  "extract_sni (record_bytes [3, 1] short_hello) = Panic \<and>
    (\<exists>hello pos ext_end. hello_message (record_bytes [3, 1] short_hello) = Done (Some hello) \<and>
      extension_block hello = Done (Some (pos, ext_end)) \<and> length hello < ext_end)"
proof -
  have "hello_message (record_bytes [3, 1] short_hello) = Done (Some short_hello)"
    using hello_message_record [of "[3, 1]" short_hello "[]"] by (simp add: short_hello_def)
  moreover have "extension_block short_hello = Done (Some (40, 44))"
    by (simp add: extension_block_def short_hello_def get_at_def nth_append u16_at_def index_at_def be16_def
        u16_from_be_def)
  moreover have "walk_extensions short_hello 40 44 = Panic"
    by (simp add: walk_extensions.simps u16_at_def index_at_def short_hello_def)
  ultimately have "extract_sni (record_bytes [3, 1] short_hello) = Panic"
    by (simp add: extract_sni_def)
  then show ?thesis using sni_panics_only_on_long_extensions by blast
qed

end
