(* ===== verification/Agent_Proxy.thy ===== *)
theory Agent_Proxy
  imports Connect_Proxy Sni
begin

text \<open>
  The lease-aware proxy process (\<^verbatim>\<open>crates/zerolease-agent/src/proxy\<close>): the transparent
  handler, the periodic reload of the lease file and the accept loops of both listeners.
  Handlers and reloads share the lease state under a lock and a handler looks at it once, so a
  run of the process is a sequence of events on that state; other processes may change the
  files at any time between them.
\<close>

section \<open>The transparent handler\<close>

datatype transparent_end = Dropped | Relayed string | Panicked

text \<open>The peeked bytes, or the error of the peek, are the argument.\<close>

definition handle_transparent :: "LeaseState \<Rightarrow> string + bytes \<Rightarrow> env \<Rightarrow> (io_error + transparent_end) \<times> env" where
  "handle_transparent s peeked e =
     (case peeked of
        Inl m \<Rightarrow> (Inl (Os m), e)
      | Inr buf \<Rightarrow>
         (case extract_sni (take MAX_CLIENT_HELLO buf) of
            Panic \<Rightarrow> (Inr Panicked, e)
          | Done None \<Rightarrow> (Inr Dropped, e)
          | Done (Some name) \<Rightarrow>
              let domain = to_ascii_lowercase name in
              (case is_allowed s domain e of (allowed, e1) \<Rightarrow>
                 if \<not> allowed then (Inr Dropped, e1)
                 else (case io_fault e1 of
                         (Some _, e2) \<Rightarrow> (Inr Dropped, e2)
                       | (None, e2) \<Rightarrow> (Inr (Relayed domain), e2)))))"

section \<open>The process\<close>

record proxy =
  px_leases :: LeaseState
  px_files :: files
  px_env :: env

text \<open>One round of \<^verbatim>\<open>lease_refresh_loop\<close>.\<close>

definition refresh :: "lease_json \<Rightarrow> path \<Rightarrow> proxy \<Rightarrow> proxy" where
  "refresh J path p =
     (case read_from J path (px_files p, px_env p) of
        (Inr new_state, _, e) \<Rightarrow>
          if ls_version new_state \<noteq> LEASE_STATE_VERSION then p\<lparr>px_env := e\<rparr>
          else (case prune_expired new_state e of (s, e') \<Rightarrow> p\<lparr>px_leases := s, px_env := e'\<rparr>)
      | (Inl _, _, e) \<Rightarrow>
          (case prune_expired (px_leases p) e of (s, e') \<Rightarrow> p\<lparr>px_leases := s, px_env := e'\<rparr>))"

datatype proxy_event =
    Refresh
  | Explicit reader writer
  | Transparent "string + bytes"
  | FilesChange files

text \<open>What an event does, and the domain it opened a tunnel to.\<close>

fun proxy_step ::
  "(string \<Rightarrow> SocketAddr list option) \<Rightarrow> lease_json \<Rightarrow> path \<Rightarrow> proxy_event \<Rightarrow> proxy \<Rightarrow> string option \<times> proxy" where
  "proxy_step dns J path Refresh p = (None, refresh J path p)"
| "proxy_step dns J path (Explicit rd wr) p =
     (case handle_connect dns (px_leases p) \<lparr>tc_reader = rd, tc_writer = wr, tc_env = px_env p\<rparr> of
        (Inr (Tunnel domain _ _), t) \<Rightarrow> (Some domain, p\<lparr>px_env := tc_env t\<rparr>)
      | (_, t) \<Rightarrow> (None, p\<lparr>px_env := tc_env t\<rparr>))"
| "proxy_step dns J path (Transparent peeked) p =
     (case handle_transparent (px_leases p) peeked (px_env p) of
        (Inr (Relayed domain), e) \<Rightarrow> (Some domain, p\<lparr>px_env := e\<rparr>)
      | (_, e) \<Rightarrow> (None, p\<lparr>px_env := e\<rparr>))"
| "proxy_step dns J path (FilesChange fs) p = (None, p\<lparr>px_files := fs\<rparr>)"

text \<open>A run: each event with the state it met and the tunnel it opened.\<close>

fun proxy_run ::
  "(string \<Rightarrow> SocketAddr list option) \<Rightarrow> lease_json \<Rightarrow> path \<Rightarrow> proxy_event list \<Rightarrow> proxy \<Rightarrow>
    (proxy \<times> proxy_event \<times> string option) list" where
  "proxy_run dns J path [] p = []"
| "proxy_run dns J path (ev # evs) p =
     (case proxy_step dns J path ev p of (out, p') \<Rightarrow> (p, ev, out) # proxy_run dns J path evs p')"

text \<open>\<^verbatim>\<open>run\<close>: the initial state, whatever its version, then the two listeners.\<close>

definition initial_state :: "lease_json \<Rightarrow> path \<Rightarrow> files \<Rightarrow> env \<Rightarrow> proxy" where
  "initial_state J path fs e =
     (case read_from J path (fs, e) of
        (Inr s, _, e') \<Rightarrow> \<lparr>px_leases = s, px_files = fs, px_env = e'\<rparr>
      | (Inl _, _, e') \<Rightarrow> \<lparr>px_leases = LeaseState_new, px_files = fs, px_env = e'\<rparr>)"

definition bind_listener :: "proxy \<Rightarrow> bool \<times> proxy" where
  "bind_listener p = (case io_fault (px_env p) of (m, e) \<Rightarrow> (m = None, p\<lparr>px_env := e\<rparr>))"

definition proxy_main ::
  "(string \<Rightarrow> SocketAddr list option) \<Rightarrow> lease_json \<Rightarrow> path \<Rightarrow> proxy_event list \<Rightarrow> files \<Rightarrow> env \<Rightarrow>
    (proxy \<times> proxy_event \<times> string option) list" where
  "proxy_main dns J path evs fs e =
     (case bind_listener (initial_state J path fs e) of
        (False, _) \<Rightarrow> []
      | (True, p) \<Rightarrow>
         (case bind_listener p of
            (False, _) \<Rightarrow> []
          | (True, p') \<Rightarrow> proxy_run dns J path evs p'))"

section \<open>Lemmas\<close>

text \<open>The lease states the file holds in one of the file systems.\<close>

definition file_states :: "lease_json \<Rightarrow> path \<Rightarrow> files list \<Rightarrow> LeaseState set" where
  "file_states J path fss = {s. \<exists>fs c. fs \<in> set fss \<and> map_of fs path = Some c \<and> lj_from_str J c = Inr s}"

definition known_leases :: "lease_json \<Rightarrow> path \<Rightarrow> files list \<Rightarrow> (string \<times> LeaseInfo) set" where
  "known_leases J path fss = (\<Union>s\<in>file_states J path fss. set (ls_leases s))"

fun changed_files :: "proxy_event list \<Rightarrow> files list" where
  "changed_files [] = []"
| "changed_files (FilesChange fs # evs) = fs # changed_files evs"
| "changed_files (_ # evs) = changed_files evs"

definition proxy_inv :: "lease_json \<Rightarrow> path \<Rightarrow> files list \<Rightarrow> proxy \<Rightarrow> bool" where
  "proxy_inv J path fss p \<longleftrightarrow> px_files p \<in> set fss \<and> set (ls_leases (px_leases p)) \<subseteq> known_leases J path fss"

lemma read_from_state:
  "read_from J path (fs, e) = (Inr s, w) \<Longrightarrow> \<exists>c. map_of fs path = Some c \<and> lj_from_str J c = Inr s"
  by (auto simp: read_from_def read_to_string_def try_op_def of_result_def fs_guard_eq
      split: option.splits sum.splits if_splits)

lemma read_from_known:
  "read_from J path (fs, e) = (Inr s, w) \<Longrightarrow> fs \<in> set fss \<Longrightarrow> set (ls_leases s) \<subseteq> known_leases J path fss"
  using read_from_state [of J path fs e s w] by (auto simp: known_leases_def file_states_def)

lemma known_leases_mono: "set fss \<subseteq> set fss' \<Longrightarrow> known_leases J path fss \<subseteq> known_leases J path fss'"
  by (auto simp: known_leases_def file_states_def)

lemma prune_expired_subset: "set (ls_leases (fst (prune_expired s e))) \<subseteq> set (ls_leases s)"
  by (auto simp: prune_expired_eq)

lemma refresh_inv: "proxy_inv J path fss p \<Longrightarrow> proxy_inv J path fss (refresh J path p)"
  unfolding proxy_inv_def refresh_def
  using prune_expired_subset read_from_known
  by (auto simp: prune_expired_eq split: prod.splits sum.splits dest!: read_from_known [of J path "px_files p" _ _ _ fss])

lemma step_inv:
  assumes "proxy_inv J path fss p" and "\<And>fs. ev = FilesChange fs \<Longrightarrow> fs \<in> set fss"
  shows "proxy_inv J path fss (snd (proxy_step dns J path ev p))"
  using assms
  by (cases ev) (auto simp: refresh_inv, auto simp: proxy_inv_def split: prod.splits sum.splits connect_end.splits transparent_end.splits)

lemma proxy_run_inv:
  "(p', ev, out) \<in> set (proxy_run dns J path evs p) \<Longrightarrow> proxy_inv J path fss p \<Longrightarrow> set (changed_files evs) \<subseteq> set fss \<Longrightarrow>
    proxy_inv J path fss p' \<and> fst (proxy_step dns J path ev p') = out"
proof (induction evs arbitrary: p)
  case (Cons x evs)
  have "\<And>fs. x = FilesChange fs \<Longrightarrow> fs \<in> set fss" using Cons.prems(3) by auto
  moreover have "set (changed_files evs) \<subseteq> set fss" using Cons.prems(3) by (cases x) auto
  moreover obtain o1 p1 where step: "proxy_step dns J path x p = (o1, p1)" by fastforce
  ultimately show ?case
    using Cons step_inv [OF Cons.prems(2), of x dns] by auto
qed simp

lemma step_opens:
  assumes "fst (proxy_step dns J path ev p) = Some d"
  shows "\<exists>info. (d, info) \<in> set (ls_leases (px_leases p)) \<and>
    env_clock (px_env p) (env_pos (px_env p)) < li_expires_at info"
proof (cases ev)
  case (Explicit rd wr)
  then obtain a n t' where run: "handle_connect dns (px_leases p) \<lparr>tc_reader = rd, tc_writer = wr, tc_env = px_env p\<rparr> =
      (Inr (Tunnel d a n), t')"
    using assms by (auto split: prod.splits sum.splits connect_end.splits)
  then show ?thesis using tunnel_lease by (fastforce dest: map_of_SomeD)
next
  case (Transparent peeked)
  then have "\<exists>e. fst (is_allowed (px_leases p) d (px_env p))"
    using assms by (auto simp: handle_transparent_def Let_def split: prod.splits sum.splits option.splits outcome.splits if_splits transparent_end.splits)
  then show ?thesis by (auto simp: is_allowed_iff dest: map_of_SomeD)
qed (use assms in auto)

lemma initial_inv: "proxy_inv J path (fs # fss) (initial_state J path fs e)"
proof (cases "fst (read_from J path (fs, e))")
  case (Inl er)
  then show ?thesis by (auto simp: initial_state_def proxy_inv_def LeaseState_new_def split: prod.splits sum.splits)
next
  case (Inr s)
  then have "set (ls_leases s) \<subseteq> known_leases J path (fs # fss)"
    using read_from_known [of J path fs e s "snd (read_from J path (fs, e))" "fs # fss"] by (simp add: prod_eq_iff)
  with Inr show ?thesis by (auto simp: initial_state_def proxy_inv_def split: prod.splits sum.splits)
qed

lemma bind_listener_inv: "bind_listener p = (b, p') \<Longrightarrow> proxy_inv J path fss p' = proxy_inv J path fss p"
  by (auto simp: bind_listener_def proxy_inv_def split: prod.splits)

section \<open>Properties\<close>

text \<open>
  C29: the proxy never invents access. In every run of the process, with requests, redirected
  connections, reloads and changes of the files in any order, a tunnel is opened only to a
  domain for which the lease file held a lease at the start or after one of the changes, and
  that lease is not expired when the tunnel is opened.
\<close>

theorem proxy_tunnels_rest_on_lease_file:
  assumes "(p, ev, Some d) \<in> set (proxy_main dns J path evs fs e)"
  shows "\<exists>info. (d, info) \<in> known_leases J path (fs # changed_files evs) \<and>
    env_clock (px_env p) (env_pos (px_env p)) < li_expires_at info"
proof -
  let ?fss = "fs # changed_files evs"
  obtain b1 p1 b2 p2 where b: "bind_listener (initial_state J path fs e) = (b1, p1)" "bind_listener p1 = (b2, p2)"
    by fastforce
  then have run: "(p, ev, Some d) \<in> set (proxy_run dns J path evs p2)"
    using assms by (cases b1; cases b2) (auto simp: proxy_main_def)
  have "proxy_inv J path ?fss p2"
    using initial_inv bind_listener_inv [OF b(1)] bind_listener_inv [OF b(2)] by blast
  from proxy_run_inv [OF run this] have "proxy_inv J path ?fss p" "fst (proxy_step dns J path ev p) = Some d" by auto
  with step_opens [of dns J path ev p d] show ?thesis by (auto simp: proxy_inv_def)
qed

definition demo_agent_json :: lease_json where
  "demo_agent_json =
     \<lparr>lj_to_string = (\<lambda>_. Inl ''unsupported''), lj_from_str = (\<lambda>c. if c = ''{}'' then Inr demo_leases else Inl ''invalid'')\<rparr>"

definition demo_tls :: bytes where
  "demo_tls = record_bytes [3, 1] demo_hello"

theorem proxy_tunnels_rest_on_lease_file_witness:
  "\<exists>p info. (p, Transparent (Inr demo_tls), Some ''a.io'') \<in>
       set (proxy_main demo_dns demo_agent_json demo_path [Transparent (Inr demo_tls)] [(demo_path, ''{}'')] (demo_env 9)) \<and>
     (''a.io'', info) \<in> known_leases demo_agent_json demo_path [[(demo_path, ''{}'')]] \<and>
     env_clock (px_env p) (env_pos (px_env p)) < li_expires_at info"
proof -
  let ?e = "env_step (env_step (env_step (demo_env 9)))"
  let ?p = "\<lparr>px_leases = demo_leases, px_files = [(demo_path, ''{}'')], px_env = ?e\<rparr>"
  have start: "initial_state demo_agent_json demo_path [(demo_path, ''{}'')] (demo_env 9) = ?p\<lparr>px_env := env_step (demo_env 9)\<rparr>"
    by (simp add: initial_state_def read_from_def read_to_string_def op_defs fs_guard_eq demo_env_def demo_agent_json_def as_bytes_def)
  have len: "length demo_tls \<le> MAX_CLIENT_HELLO"
    by (simp add: demo_tls_def demo_hello_def record_bytes_def hello_bytes_def extension_bytes_def server_name_data_def
        MAX_CLIENT_HELLO_def)
  have "extract_sni (demo_tls @ []) = Done (Some ''a.io'')"
    unfolding demo_tls_def demo_hello_def
    by (rule extract_sni_hello [where before = "[]", simplified])
      (simp_all add: hello_bytes_def extension_bytes_def server_name_data_def as_bytes_def)
  then have sni: "extract_sni (take MAX_CLIENT_HELLO demo_tls) = Done (Some ''a.io'')" using len by simp
  have step: "\<exists>p'. proxy_step demo_dns demo_agent_json demo_path (Transparent (Inr demo_tls)) ?p = (Some ''a.io'', p')"
    by (simp add: handle_transparent_def sni Let_def is_allowed_def utc_now_def io_fault_def demo_env_def demo_leases_def
       to_ascii_lowercase_def lower_char_def is_ascii_upper_def)
  then have run: "(?p, Transparent (Inr demo_tls), Some ''a.io'') \<in>
      set (proxy_main demo_dns demo_agent_json demo_path [Transparent (Inr demo_tls)] [(demo_path, ''{}'')] (demo_env 9))"
    using start by (auto simp: proxy_main_def bind_listener_def io_fault_def demo_env_def)
  from proxy_tunnels_rest_on_lease_file [OF run] run show ?thesis unfolding changed_files.simps by blast
qed

end
