(* ===== verification/Provision.thy ===== *)
theory Provision
  imports Lease_File Text Client Vault_Safety
begin

text \<open>
  The agent's provisioner and git credential helper
  (\<^verbatim>\<open>crates/zerolease-agent/src\<close>: \<^verbatim>\<open>manifest.rs\<close>, \<^verbatim>\<open>config_writer.rs\<close>, \<^verbatim>\<open>provision.rs\<close>,
  \<^verbatim>\<open>git_credential.rs\<close> and the helper command of \<^verbatim>\<open>main.rs\<close>). Both use the vault client
  through three of its methods, which are an argument here: the typed client provides them
  over the wire, and a vault called directly provides them with the contract the rollback of
  the provisioner rests on.
\<close>

section \<open>The client interface\<close>

record 'c vault_client =
  vc_request_lease :: "string \<Rightarrow> string \<Rightarrow> string \<Rightarrow> ('c, Error, LeaseGrant) op"
  vc_access_secret :: "uuid \<Rightarrow> string \<Rightarrow> ('c, Error, bytes) op"
  vc_revoke_lease :: "uuid \<Rightarrow> RevocationReason \<Rightarrow> ('c, Error, unit) op"

definition wire_client :: "'j serde \<Rightarrow> client vault_client" where
  "wire_client J =
     \<lparr>vc_request_lease = client_request_lease J, vc_access_secret = client_access_secret J,
      vc_revoke_lease = client_revoke_lease J\<rparr>"

definition direct_client :: "('k, 's, 'a) backends \<Rightarrow> PeerIdentity \<Rightarrow> ('k, 's, 'a) vault vault_client" where
  "direct_client B peer =
     \<lparr>vc_request_lease = (\<lambda>agent name domain. request_lease B (AgentId agent) (SecretName name) (DomainScope domain) peer),
      vc_access_secret = (\<lambda>i host. try_op (access_secret B (LeaseId i) host peer) (\<lambda>guard. ok (expose guard as_bytes))),
      vc_revoke_lease = (\<lambda>i reason. revoke_lease B (LeaseId i) reason peer)\<rparr>"

section \<open>Manifests\<close>

datatype InjectMechanism =
    Env string
  | File string string
  | GitCredential string

record CredentialEntry =
  ce_secret_name :: string
  ce_target_domain :: string
  ce_inject :: "InjectMechanism list"

type_synonym CredentialManifest = "CredentialEntry list"

definition manifest_from_file ::
  "(string \<Rightarrow> string + CredentialManifest) \<Rightarrow> path \<Rightarrow> CredentialManifest fs_op" where
  "manifest_from_file from_str path =
     try_op (read_to_string path) (\<lambda>contents.
     of_result (case from_str contents of Inl m \<Rightarrow> Inl (InvalidData m) | Inr x \<Rightarrow> Inr x))"

fun insert_hosts ::
  "string \<times> string \<Rightarrow> InjectMechanism list \<Rightarrow> (string \<times> string \<times> string) list \<Rightarrow> (string \<times> string \<times> string) list" where
  "insert_hosts v [] hosts = hosts"
| "insert_hosts v (GitCredential host # ms) hosts = insert_hosts v ms (AList.update host v hosts)"
| "insert_hosts v (_ # ms) hosts = insert_hosts v ms hosts"

definition git_host_map :: "CredentialManifest \<Rightarrow> (string \<times> string \<times> string) list" where
  "git_host_map manifest =
     fold (\<lambda>entry. insert_hosts (ce_secret_name entry, ce_target_domain entry) (ce_inject entry)) manifest []"

section \<open>Config files\<close>

text \<open>\<^verbatim>\<open>PathBuf::from(home).join(rest)\<close>: an absolute \<open>rest\<close> replaces the home directory.\<close>

definition path_join :: "string \<Rightarrow> string \<Rightarrow> string" where
  "path_join base rest =
     (if starts_with rest ''/'' then rest
      else if base = [] \<or> ends_with base ''/'' then base @ rest
      else base @ ''/'' @ rest)"

definition expand_tilde :: "string option \<Rightarrow> string \<Rightarrow> string" where
  "expand_tilde home path =
     (case strip_prefix path ''~/'' of
        None \<Rightarrow> path
      | Some rest \<Rightarrow> (case home of None \<Rightarrow> path | Some h \<Rightarrow> path_join h rest))"

definition expand_template :: "string \<Rightarrow> string \<Rightarrow> string" where
  "expand_template template secret = replace ''${SECRET}'' secret template"

text \<open>The modes of the files that were set explicitly, next to the files.\<close>

record 'c agent_world =
  aw_client :: 'c
  aw_files :: files
  aw_modes :: "(path \<times> nat) list"
  aw_env :: env

type_synonym ('c, 'x) agent_op = "('c agent_world, io_error, 'x) op"

definition on_files :: "'x fs_op \<Rightarrow> ('c, 'x) agent_op" where
  "on_files m w = (case m (aw_files w, aw_env w) of (r, fs, e) \<Rightarrow> (r, w\<lparr>aw_files := fs, aw_env := e\<rparr>))"

definition set_mode :: "path \<Rightarrow> nat \<Rightarrow> ('c, unit) agent_op" where
  "set_mode p mode = try_op (on_files fs_guard) (\<lambda>_ w. (Inr (), w\<lparr>aw_modes := AList.update p mode (aw_modes w)\<rparr>))"

text \<open>Mode 384 is 0600.\<close>

definition write_config :: "(string \<Rightarrow> string \<Rightarrow> string option) \<Rightarrow> path \<Rightarrow> string \<Rightarrow> ('c, unit) agent_op" where
  "write_config torn path content =
     try_op (case p_parent path of None \<Rightarrow> ok () | Some _ \<Rightarrow> on_files fs_guard) (\<lambda>_.
     try_op (on_files (fs_write torn path content)) (\<lambda>_.
     set_mode path 384))"

section \<open>Provisioning\<close>

definition write_env_file :: "(string \<Rightarrow> string \<Rightarrow> string option) \<Rightarrow> path \<Rightarrow> string \<Rightarrow> ('c, unit) agent_op" where
  "write_env_file torn path content =
     try_op (case p_parent path of None \<Rightarrow> ok () | Some _ \<Rightarrow> on_files fs_guard) (\<lambda>_.
     try_op (on_files (fs_write torn path content)) (\<lambda>_.
     set_mode path 384))"

text \<open>What the provisioner takes from its environment.\<close>

record agent_sys =
  as_home :: "string option"
  as_path :: "string \<Rightarrow> path"
  as_show_path :: "path \<Rightarrow> string"
  as_show_io :: "io_error \<Rightarrow> string"
  as_uuid :: "uuid \<Rightarrow> string"
  as_torn :: "string \<Rightarrow> string \<Rightarrow> string option"
  as_lease_json :: lease_json
  as_manifest :: "string \<Rightarrow> string + CredentialManifest"
  as_current_exe :: "string option"

record progress =
  pr_lines :: string
  pr_leases :: LeaseState
  pr_acquired :: "uuid list"

definition newline :: string where
  "newline = [CHR 0x0A]"

definition shell_escape :: "string \<Rightarrow> string" where
  "shell_escape s = replace [CHR 0x27] [CHR 0x27, CHR 0x5C, CHR 0x27, CHR 0x27] s"

definition export_line :: "string \<Rightarrow> string \<Rightarrow> string" where
  "export_line var quoted = ''export '' @ var @ ''='' @ [CHR 0x27] @ quoted @ [CHR 0x27] @ newline"

type_synonym 'c provision_op = "('c agent_world \<times> progress, string, unit) op"

fun inject_all :: "agent_sys \<Rightarrow> string \<Rightarrow> InjectMechanism list \<Rightarrow> 'c provision_op" where
  "inject_all S secret [] = ok ()"
| "inject_all S secret (Env var # ms) = (\<lambda>(w, p).
     inject_all S secret ms (w, p\<lparr>pr_lines := pr_lines p @ export_line var (shell_escape secret)\<rparr>))"
| "inject_all S secret (File path template # ms) = (\<lambda>(w, p).
     let expanded = as_path S (expand_tilde (as_home S) path) in
     case write_config (as_torn S) expanded (expand_template template secret) w of
       (Inl e, w') \<Rightarrow> (Inl (''failed to write '' @ as_show_path S expanded @ '': '' @ as_show_io S e), w', p)
     | (Inr _, w') \<Rightarrow> inject_all S secret ms (w', p))"
| "inject_all S secret (GitCredential host # ms) = inject_all S secret ms"

text \<open>A client call whose error becomes a message.\<close>

definition call_client ::
  "agent_sys \<Rightarrow> string \<Rightarrow> ('c, Error, 'x) op \<Rightarrow> ('c agent_world \<times> progress, string, 'x) op" where
  "call_client S what m = (\<lambda>(w, p).
     case m (aw_client w) of
       (Inl e, c) \<Rightarrow> (Inl (what @ '': '' @ show_Error (as_uuid S) e), w\<lparr>aw_client := c\<rparr>, p)
     | (Inr x, c) \<Rightarrow> (Inr x, w\<lparr>aw_client := c\<rparr>, p))"

definition update_progress :: "(progress \<Rightarrow> progress) \<Rightarrow> 'c provision_op" where
  "update_progress f = (\<lambda>(w, p). (Inr (), w, f p))"

text \<open>Reading the leased secret and handing it to the tools.\<close>

definition inject_grant :: "agent_sys \<Rightarrow> 'c vault_client \<Rightarrow> CredentialEntry \<Rightarrow> LeaseGrant \<Rightarrow> 'c provision_op" where
  "inject_grant S vc entry grant =
     try_op (call_client S (''access failed for '' @ ce_secret_name entry)
       (vc_access_secret vc (lid_uuid (grant_lease_id grant)) (ce_target_domain entry))) (\<lambda>secret_bytes.
     try_op (of_result (case from_utf8 secret_bytes of
         None \<Rightarrow> Inl (''secret '' @ ce_secret_name entry @ '' is not valid UTF-8'') | Some s \<Rightarrow> Inr s)) (\<lambda>secret.
     try_op (update_progress (\<lambda>p. p\<lparr>pr_leases := (pr_leases p)\<lparr>ls_leases :=
         AList.update (ce_target_domain entry)
           \<lparr>li_lease_id = as_uuid S (lid_uuid (grant_lease_id grant)), li_expires_at = grant_expires_at grant\<rparr>
           (ls_leases (pr_leases p))\<rparr>\<rparr>)) (\<lambda>_.
     inject_all S secret (ce_inject entry))))"

definition acquire_one :: "agent_sys \<Rightarrow> 'c vault_client \<Rightarrow> CredentialEntry \<Rightarrow> 'c provision_op" where
  "acquire_one S vc entry =
     try_op (call_client S (''lease failed for '' @ ce_secret_name entry)
       (vc_request_lease vc ''provisioner'' (ce_secret_name entry) (ce_target_domain entry))) (\<lambda>grant.
     try_op (update_progress (\<lambda>p. p\<lparr>pr_acquired := pr_acquired p @ [lid_uuid (grant_lease_id grant)]\<rparr>)) (\<lambda>_.
     inject_grant S vc entry grant))"

fun acquire_credentials :: "agent_sys \<Rightarrow> 'c vault_client \<Rightarrow> CredentialManifest \<Rightarrow> 'c provision_op" where
  "acquire_credentials S vc [] = ok ()"
| "acquire_credentials S vc (entry # es) = try_op (acquire_one S vc entry) (\<lambda>_. acquire_credentials S vc es)"

text \<open>The rollback: a failed revocation is only logged.\<close>

fun rollback :: "'c vault_client \<Rightarrow> uuid list \<Rightarrow> 'c \<Rightarrow> 'c" where
  "rollback vc [] c = c"
| "rollback vc (i # is) c = rollback vc is (snd (vc_revoke_lease vc i AdminRevoked c))"

record ProvisionArgs =
  pa_vault_addr :: string
  pa_manifest :: path
  pa_env_file :: path
  pa_lease_file :: path
  pa_credential_token :: "string option"

definition static_lines :: "agent_sys \<Rightarrow> ProvisionArgs \<Rightarrow> string" where
  "static_lines S args =
     export_line ''ZEROLEASE_VAULT_ADDR'' (pa_vault_addr args) @
     (case pa_credential_token args of
        None \<Rightarrow> [] | Some t \<Rightarrow> export_line ''ZEROLEASE_CREDENTIAL_TOKEN'' (shell_escape t)) @
     ''export GIT_TERMINAL_PROMPT=0'' @ newline @
     ''export GIT_CONFIG_COUNT=1'' @ newline @
     export_line ''GIT_CONFIG_KEY_0'' ''credential.helper'' @
     export_line ''GIT_CONFIG_VALUE_0''
       ((case as_current_exe S of None \<Rightarrow> ''zerolease-agent'' | Some p \<Rightarrow> p) @
        '' credential-fill --manifest '' @ as_show_path S (pa_manifest args)) @
     export_line ''HTTPS_PROXY'' ''http://127.0.0.1:8080'' @
     export_line ''HTTP_PROXY'' ''http://127.0.0.1:8080''"

text \<open>\<^verbatim>\<open>run\<close>; \<open>connected\<close> is the client of the connection that was made, or its error.\<close>

definition provision ::
  "agent_sys \<Rightarrow> 'c vault_client \<Rightarrow> ProvisionArgs \<Rightarrow> Error + unit \<Rightarrow> 'c agent_world \<Rightarrow> bool \<times> 'c agent_world" where
  "provision S vc args connected w0 =
     (case on_files (manifest_from_file (as_manifest S) (pa_manifest args)) w0 of
        (Inl _, w) \<Rightarrow> (False, w)
      | (Inr manifest, w) \<Rightarrow>
         (case connected of
            Inl _ \<Rightarrow> (False, w)
          | Inr _ \<Rightarrow>
             (case acquire_credentials S vc manifest
                (w, \<lparr>pr_lines = [], pr_leases = LeaseState_new, pr_acquired = []\<rparr>) of
                (Inl msg, w1, p) \<Rightarrow> (False, w1\<lparr>aw_client := rollback vc (pr_acquired p) (aw_client w1)\<rparr>)
              | (Inr _, w1, p) \<Rightarrow>
                 (case write_env_file (as_torn S) (pa_env_file args) (pr_lines p @ static_lines S args) w1 of
                    (Inl _, w2) \<Rightarrow> (False, w2)
                  | (Inr _, w2) \<Rightarrow>
                     (case on_files (write_atomic (as_lease_json S) (as_torn S) (pr_leases p) (pa_lease_file args)) w2 of
                        (Inl _, w3) \<Rightarrow> (False, w3)
                      | (Inr _, w3) \<Rightarrow> (True, w3))))))"

section \<open>Rollback\<close>

text \<open>
  The contract of a client as the rollback needs it: \<open>live\<close> are the leases that are not
  revoked. A request adds at most the lease it returns, an access adds none, and a revocation
  removes its lease even when it reports an error.
\<close>

locale revoking_client =
  fixes vc :: "'c vault_client"
    and live :: "'c \<Rightarrow> uuid set"
  assumes request_live: "vc_request_lease vc agent name domain c = (r, c') \<Longrightarrow>
      live c' \<subseteq> live c \<union> (case r of Inl _ \<Rightarrow> {} | Inr g \<Rightarrow> {lid_uuid (grant_lease_id g)})"
    and access_live: "vc_access_secret vc i host c = (x, c') \<Longrightarrow> live c' \<subseteq> live c"
    and revoke_live: "vc_revoke_lease vc i reason c = (u, c') \<Longrightarrow> live c' \<subseteq> live c - {i}"
begin

lemma rollback_live: "live (rollback vc is c) \<subseteq> live c - set is"
proof (induction "is" arbitrary: c)
  case (Cons i "is")
  have "live (snd (vc_revoke_lease vc i AdminRevoked c)) \<subseteq> live c - {i}"
    using revoke_live by (metis prod.collapse)
  then show ?case using Cons.IH [of "snd (vc_revoke_lease vc i AdminRevoked c)"] by auto
qed simp

end

lemma write_config_client: "write_config torn p c w = (r, w') \<Longrightarrow> aw_client w' = aw_client w"
  by (auto simp: write_config_def try_op_def on_files_def set_mode_def ok_def split: prod.splits sum.splits option.splits)

lemma write_env_file_client: "write_env_file torn p c w = (r, w') \<Longrightarrow> aw_client w' = aw_client w"
  by (auto simp: write_env_file_def try_op_def on_files_def set_mode_def ok_def split: prod.splits sum.splits option.splits)

lemma inject_all_keeps:
  "inject_all S secret ms (w, p) = (r, w', p') \<Longrightarrow> aw_client w' = aw_client w \<and> pr_acquired p' = pr_acquired p"
proof (induction ms arbitrary: w p)
  case (Cons m ms)
  show ?case
  proof (cases m)
    case (File path template)
    obtain r1 w1 where "write_config (as_torn S) (as_path S (expand_tilde (as_home S) path)) (expand_template template secret) w = (r1, w1)"
      by fastforce
    then show ?thesis
      using Cons File write_config_client by (cases r1) (auto simp: Let_def)
  qed (use Cons in fastforce)+
qed (simp add: ok_def)

lemma call_client_eq:
  "call_client S what m (w, p) =
     (case m (aw_client w) of (r, c) \<Rightarrow>
        (case r of Inl e \<Rightarrow> Inl (what @ '': '' @ show_Error (as_uuid S) e) | Inr x \<Rightarrow> Inr x, w\<lparr>aw_client := c\<rparr>, p))"
  by (simp add: call_client_def split: prod.splits sum.splits)

text \<open>What is live has been live before or is recorded as acquired.\<close>

definition covered :: "('c \<Rightarrow> uuid set) \<Rightarrow> 'c \<Rightarrow> 'c agent_world \<times> progress \<Rightarrow> bool" where
  "covered live c0 = (\<lambda>(w, p). live (aw_client w) \<subseteq> live c0 \<union> set (pr_acquired p))"

lemma covered_inject: "keeps (covered live c0) (inject_all S secret ms)"
proof (rule keepsI)
  fix wp
  assume inv: "covered live c0 wp"
  obtain w p r w' p' where "wp = (w, p)" "inject_all S secret ms (w, p) = (r, w', p')" by (metis prod.exhaust)
  with inv inject_all_keeps [of S secret ms w p r w' p'] show "covered live c0 (snd (inject_all S secret ms wp))"
    by (simp add: covered_def)
qed

lemma covered_progress:
  "(\<And>p. pr_acquired (f p) = pr_acquired p) \<Longrightarrow> keeps (covered live c0) (update_progress f)"
  by (auto simp: keeps_def covered_def update_progress_def)

context revoking_client
begin

lemma covered_access: "keeps (covered live c0) (call_client S what (vc_access_secret vc i host))"
proof (rule keepsI)
  fix wp :: "'c agent_world \<times> progress"
  assume inv: "covered live c0 wp"
  obtain w p r c where "wp = (w, p)" and run: "vc_access_secret vc i host (aw_client w) = (r, c)" by (metis prod.exhaust)
  with inv access_live [OF run] show "covered live c0 (snd (call_client S what (vc_access_secret vc i host) wp))"
    by (auto simp: covered_def call_client_eq)
qed

lemma covered_grant: "keeps (covered live c0) (inject_grant S vc entry grant)"
  unfolding inject_grant_def
  by (intro keeps_rules covered_access covered_progress covered_inject) simp

lemma covered_acquire_one: "keeps (covered live c0) (acquire_one S vc entry)"
proof (rule keepsI)
  fix wp :: "'c agent_world \<times> progress"
  assume inv: "covered live c0 wp"
  obtain w p r c where wp: "wp = (w, p)" and req: "vc_request_lease vc ''provisioner'' (ce_secret_name entry)
      (ce_target_domain entry) (aw_client w) = (r, c)" by (metis prod.exhaust)
  note call = call_client_eq [of S "''lease failed for '' @ ce_secret_name entry"
      "vc_request_lease vc ''provisioner'' (ce_secret_name entry) (ce_target_domain entry)" w p, unfolded req]
  show "covered live c0 (snd (acquire_one S vc entry wp))"
  proof (cases r)
    case (Inl er)
    then show ?thesis
      using inv request_live [OF req] unfolding acquire_one_def try_op_def wp call
      by (auto simp: covered_def)
  next
    case (Inr grant)
    let ?p = "p\<lparr>pr_acquired := pr_acquired p @ [lid_uuid (grant_lease_id grant)]\<rparr>"
    have "acquire_one S vc entry wp = inject_grant S vc entry grant (w\<lparr>aw_client := c\<rparr>, ?p)"
      unfolding acquire_one_def try_op_def wp call by (simp add: Inr update_progress_def)
    moreover have "covered live c0 (w\<lparr>aw_client := c\<rparr>, ?p)"
      using inv request_live [OF req] Inr wp by (auto simp: covered_def)
    ultimately show ?thesis using covered_grant by (simp add: keeps_def)
  qed
qed

lemma covered_acquire: "keeps (covered live c0) (acquire_credentials S vc es)"
  by (induction es) (auto intro: keeps_rules covered_acquire_one)

lemma failed_acquire_live:
  assumes "acquire_credentials S vc es (w, p0) = (r, w1, p)"
  shows "live (rollback vc (pr_acquired p) (aw_client w1)) \<subseteq> live (aw_client w)"
proof -
  have "covered live (aw_client w) (w, p0)" by (simp add: covered_def)
  then have "covered live (aw_client w) (w1, p)" using keepsD [OF covered_acquire] assms by blast
  then show ?thesis using rollback_live [of "pr_acquired p" "aw_client w1"] by (auto simp: covered_def)
qed

end

definition unrevoked :: "('k, 's, 'a) vault \<Rightarrow> uuid set" where
  "unrevoked v = {i. \<exists>l. map_of (v_leases v) (LeaseId i) = Some l \<and> \<not> l_revoked l}"

lemma LeaseId_eq: "LeaseId x = k \<longleftrightarrow> x = lid_uuid k"
  by (cases k) auto

interpretation direct: revoking_client "direct_client B peer" unrevoked for B :: "('k, 's, 'a) backends" and peer
proof
  fix agent name domain and v v' :: "('k, 's, 'a) vault" and r
  assume "vc_request_lease (direct_client B peer) agent name domain v = (r, v')"
  then have "request_lease B (AgentId agent) (SecretName name) (DomainScope domain) peer v = (r, v')"
    by (simp add: direct_client_def)
  from request_lease_effect [OF this]
  show "unrevoked v' \<subseteq> unrevoked v \<union> (case r of Inl _ \<Rightarrow> {} | Inr g \<Rightarrow> {lid_uuid (grant_lease_id g)})"
    by (cases r) (auto simp: unrevoked_def update_conv' LeaseGrant_from_def LeaseId_eq split: if_splits)
next
  fix i host and v v' :: "('k, 's, 'a) vault" and x
  assume "vc_access_secret (direct_client B peer) i host v = (x, v')"
  then obtain r where "access_secret B (LeaseId i) host peer v = (r, v')"
    by (auto simp: direct_client_def try_op_def ok_def split: prod.splits sum.splits)
  from access_secret_effect [OF this] show "unrevoked v' \<subseteq> unrevoked v"
    by (auto simp: unrevoked_def update_conv' valid_at_def split: if_splits)
next
  fix i reason and v v' :: "('k, 's, 'a) vault" and u
  assume "vc_revoke_lease (direct_client B peer) i reason v = (u, v')"
  then have "revoke_lease B (LeaseId i) reason peer v = (u, v')" by (simp add: direct_client_def)
  from revoke_lease_effect [OF this] show "unrevoked v' \<subseteq> unrevoked v - {i}"
    by (auto simp: unrevoked_def update_conv' split: option.splits if_splits)
qed

section \<open>Properties\<close>


text \<open>
  A failure after the acquisition is not rolled back: when the env file cannot be written the
  provisioner fails and the leases stay as they are.
\<close>

theorem late_failure_keeps_leases:
  assumes "on_files (manifest_from_file (as_manifest S) (pa_manifest args)) w0 = (Inr manifest, w)"
    and "acquire_credentials S vc manifest
      (w, \<lparr>pr_lines = [], pr_leases = LeaseState_new, pr_acquired = []\<rparr>) = (Inr (), w1, p)"
    and "write_env_file (as_torn S) (pa_env_file args) (pr_lines p @ static_lines S args) w1 = (Inl er, w2)"
  shows "provision S vc args (Inr ()) w0 = (False, w2)" and "aw_client w2 = aw_client w1"
  using assms write_env_file_client [OF assms(3)] by (simp_all add: provision_def)

text \<open>How a POSIX shell reads a word made of quoted text and escaped characters, up to the end of
  the line; other unquoted characters are not part of such a word.\<close>

fun sh_read :: "bool \<Rightarrow> string \<Rightarrow> string option" where
  "sh_read q [] = (if q then None else Some [])"
| "sh_read True (c # cs) = (if c = CHR 0x27 then sh_read False cs else map_option ((#) c) (sh_read True cs))"
| "sh_read False (c # cs) =
     (if c = CHR 0x27 then sh_read True cs
      else if c = CHR 0x5C then (case cs of [] \<Rightarrow> None | d # ds \<Rightarrow> map_option ((#) d) (sh_read False ds))
      else if c = CHR 0x0A then Some []
      else None)"

lemma sh_read_escape: "sh_read True (shell_escape s @ CHR 0x27 # newline @ rest) = Some s"
  by (induction s) (auto simp: shell_escape_def starts_with_def newline_def)

text \<open>
  C39: secrets survive the env file. Whatever characters a secret has, quotes, backslashes,
  dollar signs and newlines included, the shell that reads its line of the env file, with
  whatever lines follow, gives the variable exactly the secret.
\<close>

theorem env_line_roundtrip:
  "\<exists>line. export_line var (shell_escape secret) @ rest = ''export '' @ var @ ''='' @ line \<and>
    sh_read False line = Some secret"
  using sh_read_escape [of secret rest] by (simp add: export_line_def)

definition demo_vault :: "(unit, unit, unit) vault" where
  "demo_vault = demo0\<lparr>v_dek := Some demo_key, v_policy := \<lparr>config = \<lparr>default_lease_terms = single_use,
     grants = [\<lparr>pg_agent = AgentAny, pg_secret = SecretAny, pg_allowed_domains = [DomainScope ''a.net''],
       pg_lease_terms = None\<rparr>]\<rparr>\<rparr>\<rparr>"

definition demo_sys :: agent_sys where
  "demo_sys =
     \<lparr>as_home = None, as_path = (\<lambda>s. demo_path\<lparr>p_stem := s\<rparr>), as_show_path = p_stem, as_show_io = (\<lambda>_. ''io''),
      as_uuid = (\<lambda>_. ''id''), as_torn = (\<lambda>_ _. None), as_lease_json = demo_lease_json,
      as_manifest = (\<lambda>_. Inr [\<lparr>ce_secret_name = ''t'', ce_target_domain = ''a.net'', ce_inject = [File ''f'' ''x'']\<rparr>]),
      as_current_exe = None\<rparr>"

definition demo_world :: "(unit, unit, unit) vault agent_world" where
  "demo_world = \<lparr>aw_client = demo_vault, aw_files = [(demo_path, [])], aw_modes = [], aw_env = demo_env 1\<rparr>"

definition demo_granted :: Lease where
  "demo_granted = fst (Lease_new (AgentId ''provisioner'') (SecretName ''t'') [DomainScope ''a.net''] single_use sample_env)"

definition "demo_v1 = snd (request_lease demo_backends (AgentId ''provisioner'') (SecretName ''t'') (DomainScope ''a.net'')
  Anonymous demo_vault)"

lemma demo_request_run:
  "request_lease demo_backends (AgentId ''provisioner'') (SecretName ''t'') (DomainScope ''a.net'') Anonymous demo_vault =
     (Inr (LeaseGrant_from demo_granted), demo_v1)"
  and demo_v1_sel: "v_leases demo_v1 = [(LeaseId 1, demo_granted)]" "v_dek demo_v1 = Some demo_key"
    "v_env demo_v1 = sample_env\<lparr>env_pos := 4\<rparr>" "v_cipher demo_v1 = \<lparr>default_algorithm = Aes256Gcm\<rparr>"
  unfolding demo_v1_def
  by (simp_all add: demo_vault_def request_lease_def demo_run evaluate_def matches_def strip_prefix_def starts_with_def
      active_count_def insert_lease_def case_prod_beta demo_granted_def) (simp_all add: Lease_new_eq env_step_def)

lemma demo_access_run:
  "\<exists>v. access_secret demo_backends (LeaseId 1) ''a.net'' Anonymous demo_v1 = (Inr (LeaseGuard_new (LeaseId 1) ''pw''), v)"
proof -
  have val: "validate demo_granted ''a.net'' (sample_env\<lparr>env_pos := 4\<rparr>) = (Inr (), env_step (sample_env\<lparr>env_pos := 4\<rparr>))"
    by (simp add: validate_Inr valid_at_def demo_granted_def Lease_new_eq use_limit_reached_def matches_def strip_prefix_def
      starts_with_def single_use_def seconds_def)
  have use: "record_use demo_granted = Inr (demo_granted\<lparr>l_use_count := 1\<rparr>)"
    by (simp add: record_use_def use_limit_reached_def demo_granted_def Lease_new_eq single_use_def)
  have utf: "from_utf8 [112, 119] = Some ''pw''"
    by (simp add: from_utf8_def of_bytes_def char_of_def bit_0)
  show ?thesis
    by (simp add: access_secret_def use_lease_def demo_run demo_v1_sel val use decrypt_def demo_secret_def
        demo_key_def Cipher_decrypt_def decrypt_aes_gcm_def utf)
qed


end
