(* ===== verification/Vault_Operations.thy ===== *)
theory Vault_Operations
  imports Vault_Safety
begin

text \<open>
  What single operations promise: that every disclosure and every denial is traced and
  recorded, how far a renewal can move an expiry, what a session admits over its life,
  what garbage collection may remove, and that lease ids are never reused.
\<close>

section \<open>Auditing\<close>

lemma access_recorded:
  assumes "access_secret B i host peer v = (Inr g, w)"
  shows "\<exists>l stored entry a e e'. map_of (v_leases v) i = Some l \<and>
    open_sealed (be_aead B) (v_dek v) (stored_sealed stored) = Inr (guard_value g) \<and>
    guard_lease_id g = i \<and>
    v_traced w = v_traced v @ [entry] \<and>
    ae_event entry = Ev_SecretAccessed i (l_secret_name l) (DomainScope host) \<and>
    ae_agent entry = l_agent l \<and> ae_peer_identity entry = show_PeerIdentity peer \<and>
    ae_outcome entry = Success \<and>
    record_entry (be_audit B) entry (v_audit v, e) = (Inr (), v_audit w, e')"
proof -
  obtain an v1 where use: "use_lease i host v = (Inr an, v1)"
    and rest: "(case an of (agent, name) \<Rightarrow>
      try_op (store_op (get (be_store B) name)) (\<lambda>stored.
      try_op (decrypt B (ss_ciphertext stored) (ss_nonce stored) (ss_algorithm stored)) (\<lambda>plaintext.
      try_op (audit_event B (Ev_SecretAccessed i name (DomainScope host)) agent peer Success) (\<lambda>_.
      ok (LeaseGuard_new i plaintext))))) v1 = (Inr g, w)"
    using assms by (auto simp: access_secret_def try_op_Inr)
  from use_lease_effect [OF use] obtain l where l: "map_of (v_leases v) i = Some l"
    "an = (l_agent l, l_secret_name l)" "v_dek v1 = v_dek v" "v_audit v1 = v_audit v" "v_traced v1 = v_traced v"
    by (cases an) auto
  show ?thesis using rest l
    by (fastforce simp: try_op_Inr store_op_eq decrypt_eq audit_event_eq LeaseGuard_new_def stored_sealed_def)
qed

text \<open>
  C10: an access that returns the secret has appended exactly one event to the trace, the
  access with its lease, secret, host and the lease's agent, and the audit log accepted
  that event; the value returned is what the current key opens the stored value to. An
  access whose recording fails returns an error instead of the secret.
\<close>

theorem access_is_recorded:
  assumes "access_secret B i host peer v = (Inr g, w)"
  shows "\<exists>l stored entry a e e'. map_of (v_leases v) i = Some l \<and>
    open_sealed (be_aead B) (v_dek v) (stored_sealed stored) = Inr (guard_value g) \<and>
    guard_lease_id g = i \<and>
    v_traced w = v_traced v @ [entry] \<and>
    ae_event entry = Ev_SecretAccessed i (l_secret_name l) (DomainScope host) \<and>
    ae_agent entry = l_agent l \<and> ae_peer_identity entry = show_PeerIdentity peer \<and>
    ae_outcome entry = Success \<and>
    record_entry (be_audit B) entry (v_audit v, e) = (Inr (), v_audit w, e')"
  by (rule access_recorded [OF assms])

theorem access_is_recorded_witness:
  "\<exists>entry. v_traced demo3 = v_traced demo2 @ [entry] \<and>
    ae_event entry = Ev_SecretAccessed (LeaseId 1) demo_name (DomainScope ''x.a.net'')"
proof -
  have "access_secret demo_backends (LeaseId 1) ''x.a.net'' Anonymous demo2 =
      (Inr (LeaseGuard_new (LeaseId 1) ''pw''), demo3)"
    using demo3_eq by (simp add: reply_with_eq)
  from access_is_recorded [OF this] show ?thesis by (auto simp: demo2_sel demo_lease_def)
qed

text \<open>
  A request the policy does not admit creates no lease and reads no secret; it is
  answered with the denial, or with the audit log's error, after one denial event naming
  agent, secret and domain has been appended to the trace and offered to the log.
\<close>

theorem denial_is_recorded:
  assumes "\<forall>grant\<in>set (grants (config (v_policy v))). \<not> grant_covers grant agent name d"
    and "request_lease B agent name d peer v = (r, w)"
  shows "v_leases w = v_leases v \<and> v_store w = v_store v \<and>
    (\<exists>entry reason. v_traced w = v_traced v @ [entry] \<and>
       ae_event entry = Ev_AccessDenied name d reason \<and> ae_agent entry = agent \<and>
       ae_outcome entry = Denied reason \<and>
       (case record_entry (be_audit B) entry (v_audit v, env_step (env_step (v_env v))) of
          (Inr _, a, e) \<Rightarrow> r = Inl (AccessDenied agent name d)
        | (Inl er, a, e) \<Rightarrow> r = Inl er))"
proof -
  have ev: "evaluate (v_policy v) agent name d = Inl (AccessDenied agent name d)"
    using assms(1) evaluate_denied_iff [of "v_policy v"] evaluate_Inl by metis
  show ?thesis using assms(2)
    by (cases r) (auto simp: request_lease_def ev try_op_Inr try_op_Inl audit_event_eq)
qed

theorem denial_is_recorded_witness:
  "\<exists>w. request_lease demo_backends demo_agent demo_name (DomainScope ''evil.org'') Anonymous demo1 =
      (Inl (AccessDenied demo_agent demo_name (DomainScope ''evil.org'')), w) \<and> v_leases w = []"
proof -
  obtain r w where run: "request_lease demo_backends demo_agent demo_name (DomainScope ''evil.org'') Anonymous demo1 = (r, w)"
    by (rule prod.exhaust)
  have "\<forall>grant\<in>set (grants (config (v_policy demo1))). \<not> grant_covers grant demo_agent demo_name (DomainScope ''evil.org'')"
    by (simp add: demo1_val demo_policy_def grant_covers_def matches_def strip_prefix_def strip_suffix_def
        ends_with_def starts_with_def)
  from denial_is_recorded [OF this run] show ?thesis using run by (auto simp: demo1_val ok_def)
qed

section \<open>Renewal\<close>

text \<open>
  C11: a renewal succeeds only for a lease that is renewable, not revoked and not expired,
  with an extension of 1 to 86400 seconds, and, when its session is known, below the
  session's limit of renewals; it then expires exactly the extension after the time of
  the renewal, so never more than a day ahead, and counts one renewal. A renewal refused
  by these checks leaves all leases as they were.
\<close>

theorem renewal_bounds:
  assumes "renew_lease B i secs peer v = (Inr g, w)"
  shows "\<exists>l now. map_of (v_leases v) i = Some l \<and> \<not> l_revoked l \<and> l_renewable l \<and>
    env_clock (v_env v) (env_pos (v_env v)) \<le> l_expires_at l \<and> 1 \<le> secs \<and> secs \<le> 86400 \<and>
    now = env_clock (v_env v) (Suc (env_pos (v_env v))) \<and>
    grant_expires_at g = now + seconds secs \<and> grant_expires_at g \<le> now + seconds 86400 \<and>
    map_of (v_leases w) i = Some (l\<lparr>l_expires_at := now + seconds secs, l_renewal_count := l_renewal_count l + 1\<rparr>) \<and>
    (\<forall>sid s. l_session_id l = Some sid \<longrightarrow> find (\<lambda>s. s_id s = sid) (map snd (v_sessions v)) = Some s \<longrightarrow>
       l_renewal_count l < max_renewals_per_lease (s_policy s))"
proof -
  obtain l now where l: "map_of (v_leases v) i = Some l" "\<not> l_revoked l" "l_renewable l"
    "env_clock (v_env v) (env_pos (v_env v)) \<le> l_expires_at l" "0 < secs" "secs \<le> MAX_EXTENSION_SECS"
    "now = env_clock (v_env v) (Suc (env_pos (v_env v)))" "renewal_capped v l = None"
    "v_leases w = AList.update i (l\<lparr>l_expires_at := now + seconds secs,
       l_renewal_count := l_renewal_count l + 1\<rparr>) (v_leases v)"
    using renew_lease_effect [OF assms] by auto
  have "grant_expires_at g = now + seconds secs"
    using assms l by (auto simp: renew_lease_def let_op_eq frame utc_now_def try_op_Inr on_env_eq renew_eq
        LeaseGrant_from_def split: if_splits)
  moreover have "\<forall>sid s. l_session_id l = Some sid \<longrightarrow>
      find (\<lambda>s. s_id s = sid) (map snd (v_sessions v)) = Some s \<longrightarrow>
      l_renewal_count l < max_renewals_per_lease (s_policy s)"
    using l(8) by (auto simp: renewal_capped_def not_le split: if_splits)
  ultimately show ?thesis using l by (auto simp: MAX_EXTENSION_SECS_def update_conv' seconds_def)
qed

definition demo_renewable :: "(unit, unit, unit) vault" where
  "demo_renewable = demo2\<lparr>v_leases := [(LeaseId 1, demo_lease\<lparr>l_renewable := True\<rparr>)], v_sessions := []\<rparr>"

theorem renewal_bounds_witness:
  "\<exists>g w. renew_lease demo_backends (LeaseId 1) 60 Anonymous demo_renewable = (Inr g, w) \<and>
    grant_expires_at g = 5 + seconds 60"
proof -
  obtain g w where run: "renew_lease demo_backends (LeaseId 1) 60 Anonymous demo_renewable = (Inr g, w)"
    by (simp add: renew_lease_def demo_renewable_def let_op_eq frame demo2_sel utc_now_def demo_lease_def
        MAX_EXTENSION_SECS_def renewal_capped_def demo_run renew_eq env_step_def)
  from renewal_bounds [OF run] show ?thesis
    using run by (auto simp: demo_renewable_def demo2_sel)
qed

section \<open>Sessions\<close>

definition scoped_grant :: "SessionToken \<Rightarrow> call \<times> reply \<Rightarrow> bool" where
  "scoped_grant t = (\<lambda>(c, r). case c of
     C_request_lease_scoped a n d p t' tn \<Rightarrow> t' = t \<and> (\<exists>g. r = R_granted g) | _ \<Rightarrow> False)"

definition session_made :: "SessionToken \<Rightarrow> call \<times> reply \<Rightarrow> bool" where
  "session_made t = (\<lambda>(c, r). case c of
     C_create_session u ch sp p \<Rightarrow> (case r of R_session t' i \<Rightarrow> t' = t | _ \<Rightarrow> True) | _ \<Rightarrow> False)"

text \<open>
  One call as one session sees it, when the call does not create a session under the same
  token. (A creation that fails to record has drawn a token it does not return.)
\<close>

definition session_next :: "Session option \<Rightarrow> bool \<Rightarrow> Session option \<Rightarrow> bool" where
  "session_next x grant y \<longleftrightarrow>
     (case x of
        None \<Rightarrow> y = None \<and> \<not> grant
      | Some s \<Rightarrow>
          y = None \<and> \<not> grant \<or>
          (\<exists>s'. y = Some s' \<and> s_id s' = s_id s \<and> s_policy s' = s_policy s \<and>
             s_expires_at s' = s_expires_at s \<and> (s_revoked s \<longrightarrow> s_revoked s') \<and>
             (if grant then \<not> s_revoked s \<and> s_active_lease_count s < max_concurrent_leases (s_policy s) \<and>
                s_active_lease_count s' = s_active_lease_count s + 1
              else s_active_lease_count s' = s_active_lease_count s)))"

lemma session_next_refl [simp]: "session_next x False x"
  by (cases x) (auto simp: session_next_def)

lemma session_next_subseq:
  assumes "distinct (map fst ss)" and "subseq ss' ss"
  shows "session_next (map_of ss t) False (map_of ss' t)"
proof (cases "map_of ss' t")
  case None
  then show ?thesis by (cases "map_of ss t") (auto simp: session_next_def)
next
  case (Some s)
  then have "(t, s) \<in> set ss" using subseq_set [OF assms(2)] map_of_SomeD by fastforce
  then have "map_of ss t = Some s" using assms(1) by (rule map_of_is_SomeI [rotated])
  then show ?thesis using Some by simp
qed

lemma sessions_kept:
  "request_lease B a n d p v = (r, w) \<Longrightarrow> v_sessions w = v_sessions v"
  "access_secret B i h p v = (r2, w) \<Longrightarrow> v_sessions w = v_sessions v"
  "revoke_lease B i rs p v = (r3, w) \<Longrightarrow> v_sessions w = v_sessions v"
  "renew_lease B i secs p v = (r, w) \<Longrightarrow> v_sessions w = v_sessions v"
  "distinct (map fst (v_leases v)) \<Longrightarrow> delete_secret B n p v = (r3, w) \<Longrightarrow> v_sessions w = v_sessions v"
  "distinct (map fst (v_leases v)) \<Longrightarrow> revoke_all_for_agent B a p v = (r4, w) \<Longrightarrow> v_sessions w = v_sessions v"
  "gc_leases v = (cnt, w) \<Longrightarrow> v_sessions w = v_sessions v"
  by (simp add: request_lease_effect, simp add: access_secret_effect, simp add: revoke_lease_effect,
      simp add: renew_lease_effect, simp add: delete_secret_effect, simp add: revoke_all_for_agent_effect,
      rule gc_leases_effect(2))

lemma exec_session_next:
  assumes "vault_inv v" and "exec B c v = (rep, w)" and "\<not> session_made t (c, rep)"
  shows "session_next (map_of (v_sessions v) t) (scoped_grant t (c, rep)) (map_of (v_sessions w) t)"
proof -
  note d = vault_invD(1) [OF assms(1)]
  note tl = tableless_operations [THEN tablelessD, THEN same_tablesD(2)]
    tableless_validate_session [THEN tablelessD, THEN same_tablesD(2)]
  show ?thesis
  proof (cases c)
    case (C_request_lease_scoped a n dm p tk tn)
    then obtain r where r: "request_lease_scoped B a n dm p tk tn v = (r, w)"
      "rep = (case r of Inl e \<Rightarrow> R_error e | Inr g \<Rightarrow> R_granted g)"
      using assms(2) by (auto simp: reply_with_eq)
    show ?thesis
    proof (cases r)
      case (Inl e)
      then show ?thesis using request_lease_scoped_effect [OF r(1)] C_request_lease_scoped r(2)
        by (simp add: scoped_grant_def)
    next
      case (Inr g)
      from request_lease_scoped_effect [OF r(1)] Inr obtain s :: Session where
        s: "map_of (v_sessions v) tk = Some s" "\<not> s_revoked s"
        "s_active_lease_count s < max_concurrent_leases (s_policy s)"
        "v_sessions w = AList.update tk (s\<lparr>s_active_lease_count := s_active_lease_count s + 1\<rparr>) (v_sessions v)"
        by auto
      then show ?thesis using C_request_lease_scoped r(2) Inr
        by (cases "tk = t") (auto simp: scoped_grant_def session_next_def update_conv' split: option.splits)
    qed
  next
    case (C_revoke_session tk p)
    then obtain r where "revoke_session B tk p v = (r, w)" using assms(2) by (auto dest: reply_with_state)
    from revoke_session_effect [OF d this] C_revoke_session show ?thesis
      by (cases "tk = t") (auto simp: scoped_grant_def session_next_def update_conv' split: option.splits)
  next
    case C_gc_sessions
    then show ?thesis using assms(2) gc_sessions_effect(6) [of v] session_next_subseq [OF vault_invD(2) [OF assms(1)]]
      by (auto simp: scoped_grant_def split: prod.splits)
  next
    case (C_create_session u ch sp p)
    with assms(2,3) obtain t' sid where run: "create_session B u ch sp p v = (Inr (t', sid), w)" "t' \<noteq> t"
      by (auto simp: session_made_def reply_with_eq)
    from create_session_effect [OF run(1)] run(2) C_create_session show ?thesis
      by (auto simp: update_conv' scoped_grant_def)
  qed (use assms(2) in \<open>auto simp: scoped_grant_def split: prod.splits dest!: reply_with_state
      dest: tl sessions_kept(1-4) sessions_kept(5,6) [OF d] sessions_kept(7)\<close>)
qed

lemma run_session_count:
  assumes "run B v tr w" and "vault_inv v" and "map_of (v_sessions v) t = Some s"
    and "s_active_lease_count s \<le> max_concurrent_leases (s_policy s)" and "\<forall>x\<in>set tr. \<not> session_made t x"
  shows "length (filter (scoped_grant t) tr) + unat (s_active_lease_count s) \<le>
      (case map_of (v_sessions w) t of
         None \<Rightarrow> unat (max_concurrent_leases (s_policy s))
       | Some s' \<Rightarrow> unat (s_active_lease_count s')) \<and>
    (\<forall>s'. map_of (v_sessions w) t = Some s' \<longrightarrow> s_policy s' = s_policy s \<and> (s_revoked s \<longrightarrow> s_revoked s') \<and>
      s_active_lease_count s' \<le> max_concurrent_leases (s_policy s))"
  using assms(1,5)
proof (induction rule: run.induct)
  case run_nil
  then show ?case using assms(3,4) by simp
next
  case (run_snoc tr w c r w')
  have inv: "vault_inv w" by (rule run_inv [OF run_snoc(1) assms(2)])
  have nxt: "session_next (map_of (v_sessions w) t) (scoped_grant t (c, r)) (map_of (v_sessions w') t)"
    using exec_session_next [OF inv run_snoc(2)] run_snoc(4) by simp
  show ?case
  proof (cases "map_of (v_sessions w) t")
    case None
    then show ?thesis using nxt run_snoc by (auto simp: session_next_def)
  next
    case (Some s1)
    let ?m = "max_concurrent_leases (s_policy s)"
    have IH: "length (filter (scoped_grant t) tr) + unat (s_active_lease_count s) \<le> unat (s_active_lease_count s1)"
      "s_policy s1 = s_policy s" "s_revoked s \<longrightarrow> s_revoked s1" "s_active_lease_count s1 \<le> ?m"
      using run_snoc Some by auto
    have suc: "unat (s_active_lease_count s1 + 1) = Suc (unat (s_active_lease_count s1)) \<and>
        s_active_lease_count s1 + 1 \<le> ?m" if "s_active_lease_count s1 < ?m"
      using that unat_less_pow32 [of ?m] by (simp add: word_less_nat_alt word_le_nat_alt unat_word_ariths)
    show ?thesis using nxt Some IH suc
      by (auto simp: session_next_def word_le_nat_alt split: if_splits)
  qed
qed


definition demo_session_policy :: SessionPolicy where
  "demo_session_policy = default_dev\<lparr>max_concurrent_leases := 1, tool_bindings :=
     [\<lparr>tb_tool_name = ''git'', tb_allowed_secrets = [demo_name],
       tb_allowed_domains = [DomainScope ''*.a.net'']\<rparr>]\<rparr>"


text \<open>
  C13: a scoped request is granted only under a session that is known, not revoked and not
  expired, whose bindings allow the tool this secret and domain, and only if the policy
  also admits the agent; the lease is then linked to the session and counted, and any
  refusal changes neither leases nor sessions.
\<close>

theorem scoped_request_sound:
  assumes "request_lease_scoped B agent name d peer token tool v = (r, w)"
  shows "case r of
     Inl _ \<Rightarrow> v_leases w = v_leases v \<and> v_sessions w = v_sessions v
   | Inr g \<Rightarrow> \<exists>s l. map_of (v_sessions v) token = Some s \<and> \<not> s_revoked s \<and>
       env_clock (v_env v) (env_pos (v_env v)) \<le> s_expires_at s \<and>
       (\<exists>b\<in>set (tool_bindings (s_policy s)). binding_covers b tool name d) \<and>
       (\<exists>grant\<in>set (grants (config (v_policy v))). grant_covers grant agent name d) \<and>
       map_of (v_leases w) (grant_lease_id g) = Some l \<and> l_session_id l = Some (s_id s) \<and>
       l_agent l = agent \<and> l_secret_name l = name \<and> l_allowed_domains l = [d] \<and>
       map_of (v_sessions w) token = Some (s\<lparr>s_active_lease_count := s_active_lease_count s + 1\<rparr>)"
proof (cases r)
  case (Inl e)
  then show ?thesis using request_lease_scoped_effect [OF assms] by simp
next
  case (Inr g)
  from request_lease_scoped_effect [OF assms] Inr obtain l t and s :: Session where
    s: "map_of (v_sessions v) token = Some s" "\<not> s_revoked s"
    "env_clock (v_env v) (env_pos (v_env v)) \<le> s_expires_at s" "check_tool_binding s tool name d = Inr ()"
    "issued_as l agent name d t" "evaluate (v_policy v) agent name d = Inr t" "g = LeaseGrant_from l"
    "v_leases w = AList.update (l_id l) (l\<lparr>l_session_id := Some (s_id s)\<rparr>) (v_leases v)"
    "v_sessions w = AList.update token (s\<lparr>s_active_lease_count := s_active_lease_count s + 1\<rparr>) (v_sessions v)"
    by auto
  have "\<exists>b\<in>set (tool_bindings (s_policy s)). binding_covers b tool name d"
    using s(4) by (auto simp: check_tool_binding_def check_bindings_eq split: if_splits)
  then show ?thesis using s Inr issued_asD [OF s(5)] evaluate_Inr_covers [OF s(6)]
    by (auto simp: update_conv' LeaseGrant_from_def)
qed

definition demo_session :: Session where
  "demo_session = \<lparr>s_id = SessionId 9, s_user = ''u'', s_channel = ''cli'', s_created_at = 0,
     s_expires_at = seconds 60, s_policy = demo_session_policy, s_active_lease_count = 0, s_revoked = False\<rparr>"

lemma demo_session_sel [simp]:
  "s_id demo_session = SessionId 9" "\<not> s_revoked demo_session" "s_expires_at demo_session = 60000000000"
  "s_active_lease_count demo_session = 0" "max_concurrent_leases (s_policy demo_session) = 1"
  by (simp_all add: demo_session_def demo_session_policy_def seconds_def)

definition demo_scoped :: "(unit, unit, unit) vault" where
  "demo_scoped = demo1\<lparr>v_sessions := [(SessionToken [7], demo_session)]\<rparr>"

theorem scoped_request_sound_witness:
  "\<exists>g w l. request_lease_scoped demo_backends demo_agent demo_name (DomainScope ''*.a.net'') Anonymous
     (SessionToken [7]) ''git'' demo_scoped = (Inr g, w) \<and>
   map_of (v_leases w) (grant_lease_id g) = Some l \<and> l_session_id l = Some (SessionId 9)"
proof -
  have bind: "check_tool_binding demo_session ''git'' demo_name (DomainScope ''*.a.net'') = Inr ()"
    by (simp add: check_tool_binding_def demo_session_def demo_session_policy_def)
  obtain g w where run: "request_lease_scoped demo_backends demo_agent demo_name (DomainScope ''*.a.net'') Anonymous
     (SessionToken [7]) ''git'' demo_scoped = (Inr g, w)"
    by (simp add: request_lease_scoped_def demo_scoped_def demo1_val bind is_expired_eq
        request_lease_def demo_run demo_evaluate active_count_def insert_lease_def Lease_new_eq)
  have "map_of (v_sessions demo_scoped) (SessionToken [7]) = Some demo_session" "s_id demo_session = SessionId 9"
    by (simp_all add: demo_scoped_def demo_session_def)
  with scoped_request_sound [OF run] run show ?thesis by auto
qed

section \<open>Garbage collection\<close>

text \<open>
  C14: garbage collection keeps a sublist of the leases and reports how many it dropped;
  every lease it keeps is unrevoked with at least a second left at some reading of the
  clock during the collection, and every lease it drops was revoked or had less than a
  second left at some reading. Nothing else of the vault but the clock position changes.
\<close>

theorem gc_leases_sound:
  assumes "gc_leases v = (n, w)"
  shows "subseq (v_leases w) (v_leases v) \<and> n = length (v_leases v) - length (v_leases w) \<and>
    (\<forall>(i, l)\<in>set (v_leases w). \<not> l_revoked l \<and>
       (\<exists>j\<ge>env_pos (v_env v). env_clock (v_env v) j + seconds 1 \<le> l_expires_at l)) \<and>
    (\<forall>(i, l)\<in>set (v_leases v) - set (v_leases w). l_revoked l \<or>
       (\<exists>j\<ge>env_pos (v_env v). l_expires_at l < env_clock (v_env v) j + seconds 1)) \<and>
    w = v\<lparr>v_leases := v_leases w, v_env := v_env w\<rparr>"
proof -
  obtain ls e where r: "retain_leases (v_leases v) (v_env v) = (ls, e)" by fastforce
  then have w: "w = v\<lparr>v_leases := ls, v_env := e\<rparr>" using assms by (simp add: gc_leases_def)
  have "\<forall>(i, l)\<in>set ls. \<not> l_revoked l \<and> (\<exists>j\<ge>env_pos (v_env v). env_clock (v_env v) j + seconds 1 \<le> l_expires_at l)"
    using retain_leases_kept [of _ _ "v_leases v" "v_env v"] r by auto
  moreover have "\<forall>(i, l)\<in>set (v_leases v) - set ls. l_revoked l \<or>
      (\<exists>j\<ge>env_pos (v_env v). l_expires_at l < env_clock (v_env v) j + seconds 1)"
    using retain_leases_dropped [of _ _ "v_leases v" "v_env v"] r by auto
  ultimately show ?thesis using w gc_leases_effect(6,7) [OF assms] by simp
qed

lemma demo_lease_time:
  "\<not> l_revoked demo_lease" "time_remaining demo_lease (sample_env\<lparr>env_pos := 4\<rparr>) = (299999999996, sample_env\<lparr>env_pos := 5\<rparr>)"
  by (simp_all add: demo_lease_def time_remaining_def utc_now_def env_step_def)

theorem gc_leases_sound_witness:
  "\<exists>n w. gc_leases (demo2\<lparr>v_leases := [(LeaseId 1, demo_lease), (LeaseId 2, revoke demo_lease)]\<rparr>) = (n, w) \<and>
     v_leases w = [(LeaseId 1, demo_lease)] \<and> n = 1"
proof -
  let ?v = "demo2\<lparr>v_leases := [(LeaseId 1, demo_lease), (LeaseId 2, revoke demo_lease)]\<rparr>"
  obtain n w where run: "gc_leases ?v = (n, w)" by (rule prod.exhaust)
  have "v_leases w = [(LeaseId 1, demo_lease)]"
    using run by (auto simp: gc_leases_def demo2_sel demo_lease_time num_seconds_def)
  with gc_leases_sound [OF run] run show ?thesis by auto
qed

section \<open>Fresh lease ids\<close>

text \<open>
  Backends that only read forward in the environment, the natural reading of a clock and
  of a source of identifiers.
\<close>

definition forward :: "('x \<times> env, Error, 'y) op \<Rightarrow> bool" where
  "forward m \<longleftrightarrow> (\<forall>x e. env_le e (snd (snd (m (x, e)))))"

definition forward_backends :: "('k, 's, 'a) backends \<Rightarrow> bool" where
  "forward_backends B \<longleftrightarrow>
     forward (load_or_create_dek (be_keys B)) \<and> (\<forall>d. forward (rotate_key (be_keys B) d)) \<and>
     (\<forall>p. forward (put (be_store B) p)) \<and> (\<forall>n. forward (get (be_store B) n)) \<and>
     (\<forall>us. forward (batch_update (be_store B) us)) \<and> (\<forall>n. forward (delete (be_store B) n)) \<and>
     forward (list_all_md (be_store B)) \<and> (\<forall>x. forward (record_entry (be_audit B) x))"

definition advances :: "(('k, 's, 'a) vault, Error, 'x) op \<Rightarrow> bool" where
  "advances m \<longleftrightarrow> (\<forall>v. env_le (v_env v) (v_env (snd (m v))))"

lemma advancesD: "advances m \<Longrightarrow> m v = (r, w) \<Longrightarrow> env_le (v_env v) (v_env w)"
  by (metis advances_def snd_conv)

lemma advances_basic [intro, simp]:
  "advances (ok x)" "advances (fail e)" "advances (of_result r)" "advances (reads f)"
  "advances (decrypt B c n al)"
  by (auto simp: advances_def op_defs reads_def decrypt_def split: option.splits sum.splits)

lemma advances_store_op [intro]: "forward m \<Longrightarrow> advances (store_op m)"
  by (simp add: advances_def forward_def store_op_def case_prod_beta)

lemma advances_key_op [intro]: "forward m \<Longrightarrow> advances (key_op m)"
  by (simp add: advances_def forward_def key_op_def case_prod_beta)

lemma advances_on_env [intro]: "(\<And>e. env_le e (snd (f e))) \<Longrightarrow> advances (on_env f)"
  by (simp add: advances_def on_env_def case_prod_beta)

lemma advances_modifies [intro]: "(\<And>v. v_env (g v) = v_env v) \<Longrightarrow> advances (modifies g)"
  by (simp add: advances_def modifies_def)

lemma advances_try_op [intro!]:
  assumes "advances m" and "\<And>x. advances (k x)"
  shows "advances (try_op m k)"
  unfolding advances_def
proof
  fix v
  obtain r w where m: "m v = (r, w)" by (rule prod.exhaust)
  have "env_le (v_env v) (v_env w)" by (rule advancesD [OF assms(1) m])
  then show "env_le (v_env v) (v_env (snd (try_op m k v)))"
    using m assms(2) by (cases r) (auto simp: try_op_def advances_def intro: env_le_trans)
qed

lemma advances_let_op [intro!]:
  assumes "\<And>v. env_le (v_env v) (v_env (snd (f v)))" and "\<And>x. advances (k x)"
  shows "advances (let_op f k)"
  using assms by (auto simp: advances_def let_op_eq intro: env_le_trans)

lemma advances_trace_and_record [intro]: "forward_backends B \<Longrightarrow> advances (trace_and_record B x)"
  by (simp add: forward_backends_def forward_def advances_def trace_and_record_def case_prod_beta)

lemma advances_audit_event [intro]: "forward_backends B \<Longrightarrow> advances (audit_event B ev ag peer out)"
  unfolding audit_event_def
  by (rule advances_let_op) (auto simp: frame AuditEntry_new_eq intro: env_le_trans [OF env_le_step env_le_step])

lemma advances_audit_best_effort:
  "forward_backends B \<Longrightarrow> env_le (v_env v) (v_env (snd (audit_best_effort B ev ag peer out v)))"
  using advances_audit_event [of B ev ag peer out] audit_best_effort_eq [of B ev ag peer out v]
  by (metis advancesD prod.collapse)

lemma revoke_loop_env:
  assumes "forward_backends B"
  shows "env_le (v_env v) (v_env (snd (revoke_loop B cond reason peer ks v)))"
proof (induction ks arbitrary: v)
  case (Cons k ks)
  show ?case
  proof (cases "\<exists>l. map_of (v_leases v) k = Some l \<and> cond l \<and> \<not> l_revoked l")
    case True
    then obtain l where l: "map_of (v_leases v) k = Some l" "cond l" "\<not> l_revoked l" by blast
    let ?v0 = "v\<lparr>v_leases := AList.update k (revoke l) (v_leases v)\<rparr>"
    let ?a = "audit_best_effort B (Ev_LeaseRevoked (l_id l) reason) (l_agent l) peer Success ?v0"
    have "env_le (v_env ?v0) (v_env (snd ?a))" by (rule advances_audit_best_effort [OF assms])
    then show ?thesis using l Cons.IH [of "snd ?a"] by (auto simp: case_prod_beta intro: env_le_trans)
  next
    case False
    then have "revoke_loop B cond reason peer (k # ks) v = revoke_loop B cond reason peer ks v"
      by (auto split: option.splits)
    then show ?thesis using Cons.IH by simp
  qed
qed simp

lemma revoke_where_env:
  "forward_backends B \<Longrightarrow> env_le (v_env v) (v_env (snd (revoke_where B cond reason peer v)))"
  by (simp add: revoke_where_def revoke_loop_env)

lemma env_le_step2 [simp]: "env_le e (env_step (env_step e))"
  by (rule env_le_trans [OF env_le_step env_le_step])

lemma advances_encrypt [intro]: "advances (encrypt B p)"
  by (auto simp: advances_def encrypt_def on_env_def case_prod_beta Cipher_encrypt_env split: option.splits)

lemma advances_use_lease [intro]: "advances (use_lease i h)"
  by (auto simp: advances_def use_lease_def on_env_def case_prod_beta validate_env split: option.splits sum.splits)

lemma forward_stores:
  assumes "forward_backends B"
  shows "advances (store_op (get (be_store B) n))" "advances (store_op (put (be_store B) p))"
    "advances (store_op (batch_update (be_store B) us))" "advances (store_op (delete (be_store B) n))"
    "advances (store_op (list_all_md (be_store B)))" "advances (key_op (load_or_create_dek (be_keys B)))"
    "advances (key_op (rotate_key (be_keys B) d))"
  using assms by (auto simp: forward_backends_def)

lemma advances_reencrypt_all: "forward_backends B \<Longrightarrow> advances (reencrypt_all B old new ms)"
  by (induction ms) (auto intro!: forward_stores advances_on_env Cipher_encrypt_env)

lemma advances_request_lease: "forward_backends B \<Longrightarrow> advances (request_lease B a n d p)"
  by (auto simp: request_lease_def frame Lease_new_eq insert_lease_def split: sum.splits
      intro!: forward_stores advances_modifies advances_audit_event)

lemma advances_operations:
  assumes "forward_backends B"
  shows "advances (initialize B)" "advances (access_secret B i h p)" "advances (revoke_lease B i rs p)"
    "advances (revoke_all_for_agent B a p)" "advances (store_secret B n t k ds p)"
    "advances (list_secrets B)" "advances (delete_secret B n p)" "advances (rotate_dek B p)"
    "advances (create_session B u ch sp p)"
proof -
  note f = forward_stores [OF assms] advances_audit_event [OF assms] advances_modifies
    advances_reencrypt_all [OF assms]
  show "advances (initialize B)" by (auto simp: initialize_def intro!: f)
  show "advances (access_secret B i h p)" by (auto simp: access_secret_def intro!: f)
  show "advances (revoke_lease B i rs p)"
    unfolding advances_def
    using advances_audit_event [OF assms] by (auto simp: revoke_lease_def advances_def split: option.splits)
      (metis vault.select_convs(10) vault.surjective vault.update_convs(5))
  show "advances (revoke_all_for_agent B a p)"
    by (auto simp: revoke_all_for_agent_def revoke_where_env [OF assms])
  show "advances (store_secret B n t k ds p)" by (auto simp: store_secret_def intro!: f)
  show "advances (list_secrets B)" by (auto simp: list_secrets_def intro!: f)
  show "advances (delete_secret B n p)" by (auto simp: delete_secret_def revoke_where_env [OF assms] intro!: f)
  show "advances (rotate_dek B p)" by (auto simp: rotate_dek_def frame intro!: f)
  show "advances (create_session B u ch sp p)"
    by (auto simp: create_session_def frame Session_new_eq Session_time_remaining_def utc_now_def intro!: f)
qed

lemma renew_lease_env:
  assumes "forward_backends B" and "renew_lease B i secs p v = (r, w)"
  shows "env_le (v_env v) (v_env w)"
proof (cases "map_of (v_leases v) i")
  case None
  then show ?thesis using assms by (auto simp: renew_lease_def)
next
  case (Some l)
  have "advances (let_op (on_env utc_now) (\<lambda>now.
      if now > l_expires_at l then fail (LeaseExpired i)
      else if secs \<le> 0 \<or> secs > MAX_EXTENSION_SECS then
        fail (InvalidConfig (''extension must be between 1 and '' @ show_int MAX_EXTENSION_SECS @
          '' seconds, got '' @ show_int secs))
      else (case renewal_capped v l of
        Some m \<Rightarrow> fail (RenewalLimitReached i m)
      | None \<Rightarrow>
          try_op (on_env (renew (be_us B) l (seconds secs))) (\<lambda>l'.
          try_op (modifies (\<lambda>w. w\<lparr>v_leases := AList.update i l' (v_leases w)\<rparr>)) (\<lambda>_.
          try_op (audit_event B (Ev_LeaseRenewed i secs) (l_agent l') p Success) (\<lambda>_.
          ok (LeaseGrant_from l')))))))"
    by (auto simp: frame utc_now_def renew_env split: option.splits
        intro!: advances_modifies advances_on_env advances_audit_event [OF assms(1)])
  from advancesD [OF this] show ?thesis using assms(2) Some by (simp add: renew_lease_def)
qed

lemma revoke_session_env:
  assumes "forward_backends B" and "revoke_session B t p v = (r, w)"
  shows "env_le (v_env v) (v_env w)"
proof (cases "map_of (v_sessions v) t")
  case None
  then show ?thesis using assms by (auto simp: revoke_session_def)
next
  case (Some s)
  have "advances (let_op (revoke_where B (\<lambda>l. l_session_id l = Some (s_id s)) SessionRevoked p) (\<lambda>n.
      try_op (audit_event B (Ev_SessionRevoked (s_id s) ''explicit revocation'' (word_of_nat n))
        (AgentId ''session'') p Success) (\<lambda>_. ok ())))"
    using assms(1) by (auto simp: revoke_where_env)
  from advancesD [OF this] show ?thesis using assms(2) Some by (fastforce simp: revoke_session_def)
qed

lemma request_lease_id:
  assumes "forward_backends B" and "request_lease B a n d p v = (Inr g, w)"
  shows "\<exists>j. env_pos (v_env v) \<le> j \<and> j < env_pos (v_env w) \<and>
    grant_lease_id g = LeaseId (env_uuid (v_env v) j)"
proof -
  obtain terms x v1 where ev: "evaluate (v_policy v) a n d = Inr terms"
    and get: "store_op (get (be_store B) n) v = (Inr x, v1)"
    and rest: "let_op (on_env (Lease_new a n [d] terms)) (\<lambda>lease.
        try_op (audit_event B (Ev_LeaseGranted (l_id lease) n [d] (num_seconds (ttl terms))) a p Success) (\<lambda>_.
        try_op (modifies (insert_lease lease)) (\<lambda>_. ok (LeaseGrant_from lease)))) v1 = (Inr g, w)"
    using assms(2) by (auto simp: request_lease_def try_op_Inr split: sum.splits if_splits)
  let ?e = "v_env v1" and ?l = "fst (Lease_new a n [d] terms (v_env v1))"
  have le1: "env_le (v_env v) ?e" by (rule advancesD [OF forward_stores(1) [OF assms(1)] get])
  obtain v2 where audit: "audit_event B (Ev_LeaseGranted (l_id ?l) n [d] (num_seconds (ttl terms))) a p Success
      (v1\<lparr>v_env := env_step (env_step ?e)\<rparr>) = (Inr (), v2)" and w: "w = insert_lease ?l v2"
    and g: "g = LeaseGrant_from ?l"
    using rest by (auto simp: let_op_eq frame try_op_Inr Lease_new_eq)
  have "env_le (env_step (env_step ?e)) (v_env v2)"
    using advancesD [OF advances_audit_event [OF assms(1)] audit] by simp
  then have "Suc (env_pos ?e) < env_pos (v_env w)" using w by (simp add: env_le_def insert_lease_def)
  moreover have "grant_lease_id g = LeaseId (env_uuid (v_env v) (Suc (env_pos ?e)))"
    using g le1 by (simp add: LeaseGrant_from_def Lease_new_eq env_le_def)
  moreover have "env_pos (v_env v) \<le> Suc (env_pos ?e)" using le1 by (simp add: env_le_def)
  ultimately show ?thesis by blast
qed

lemma request_lease_scoped_cases:
  assumes "forward_backends B" and "request_lease_scoped B a n d p t tn v = (r, w)"
  shows "env_le (v_env v) (v_env w) \<and>
    (\<forall>g. r = Inr g \<longrightarrow> (\<exists>j. env_pos (v_env v) \<le> j \<and> j < env_pos (v_env w) \<and>
       grant_lease_id g = LeaseId (env_uuid (v_env v) j)))"
proof (cases "map_of (v_sessions v) t")
  case None
  then show ?thesis using assms by (auto simp: request_lease_scoped_def)
next
  case (Some s)
  define go where "go = try_op (request_lease B a n d p) (\<lambda>grant.
    try_op (modifies (link_lease (grant_lease_id grant) (s_id s))) (\<lambda>_.
    try_op (modifies (count_lease t)) (\<lambda>_. ok grant)))"
  define v0 where "v0 = v\<lparr>v_env := env_step (v_env v)\<rparr>"
  have keep: "v_env (link_lease i sid x) = v_env x" "v_env (count_lease t x) = v_env x" for i sid and x :: "('a, 'b, 'c) vault"
    by (simp_all add: link_lease_def count_lease_def split: option.splits)
  have "w = v \<or> w = v0 \<or> go v0 = (r, w) \<or> (\<exists>ev out. w = snd (audit_best_effort B ev a p out v0))"
    and "r = Inr g \<Longrightarrow> go v0 = (r, w)" for g
    using assms(2) Some unfolding go_def v0_def
    by (auto simp: request_lease_scoped_def let_op_eq frame is_expired_eq split: if_splits sum.splits)
  moreover have "env_le (v_env v0) (v_env w) \<and> (\<forall>g. r = Inr g \<longrightarrow> (\<exists>j. env_pos (v_env v0) \<le> j \<and> j < env_pos (v_env w) \<and>
      grant_lease_id g = LeaseId (env_uuid (v_env v0) j)))" if "go v0 = (r, w)"
  proof
    have "advances go" unfolding go_def
      using advances_request_lease [OF assms(1)] keep by (auto intro!: advances_modifies)
    then show "env_le (v_env v0) (v_env w)" using advancesD [of go v0 r w] that by simp
    show "\<forall>g. r = Inr g \<longrightarrow> (\<exists>j. env_pos (v_env v0) \<le> j \<and> j < env_pos (v_env w) \<and>
        grant_lease_id g = LeaseId (env_uuid (v_env v0) j))"
      using that request_lease_id [OF assms(1)] keep by (fastforce simp: go_def try_op_Inr)
  qed
  moreover have "env_le (v_env v) (v_env v0)" "env_pos (v_env v) \<le> env_pos (v_env v0)" "env_uuid (v_env v0) = env_uuid (v_env v)"
    by (simp_all add: v0_def)
  ultimately show ?thesis
    using advances_audit_best_effort [OF assms(1)] by (metis (no_types, lifting) env_le_refl env_le_trans le_trans)
qed

lemma exec_env:
  assumes "forward_backends B" and "exec B c v = (r, w)"
  shows "env_le (v_env v) (v_env w)"
proof -
  note a = advances_operations [OF assms(1), THEN advancesD] advances_request_lease [OF assms(1), THEN advancesD]
    renew_lease_env [OF assms(1)] revoke_session_env [OF assms(1)]
    request_lease_scoped_cases [OF assms(1), THEN conjunct1]
  have val: "validate_session t v = (x, w) \<Longrightarrow> env_le (v_env v) (v_env w)" for t x
    by (auto simp: validate_session_def let_op_eq frame is_expired_eq split: option.splits if_splits)
  have gc: "gc_leases v = (n, w) \<Longrightarrow> env_le (v_env v) (v_env w)"
    "gc_sessions v = (n, w) \<Longrightarrow> env_le (v_env v) (v_env w)" for n
    using retain_leases_env [of "v_env v" "v_leases v"] retain_sessions_env [of "v_env v" "v_sessions v"]
    by (auto simp: gc_leases_def gc_sessions_def split: prod.splits)
  show ?thesis using assms(2)
    by (cases c) (auto split: prod.splits dest!: reply_with_state dest: a val gc)
qed

lemma exec_grant_id:
  assumes "forward_backends B" and "exec B c v = (R_granted g, w)"
  shows "\<exists>j. env_pos (v_env v) \<le> j \<and> j < env_pos (v_env w) \<and> grant_lease_id g = LeaseId (env_uuid (v_env v) j)"
proof (cases c)
  case (C_request_lease a n d p)
  then show ?thesis using assms request_lease_id by (auto simp: reply_with_eq)
next
  case (C_request_lease_scoped a n d p t tn)
  then show ?thesis using assms request_lease_scoped_cases [OF assms(1), of a n d p t tn v "Inr g" w]
    by (auto simp: reply_with_eq)
qed (use assms(2) in \<open>auto simp: reply_with_eq split: prod.splits\<close>)

fun grant_ids :: "(call \<times> reply) list \<Rightarrow> LeaseId list" where
  "grant_ids [] = []"
| "grant_ids ((c, R_granted g) # tr) = grant_lease_id g # grant_ids tr"
| "grant_ids (x # tr) = grant_ids tr"

lemma grant_ids_append: "grant_ids (tr @ tr') = grant_ids tr @ grant_ids tr'"
  by (induction tr rule: grant_ids.induct) auto

lemma grant_ids_single: "grant_ids [(c, r)] = (case r of R_granted g \<Rightarrow> [grant_lease_id g] | _ \<Rightarrow> [])"
  by (cases r) auto

lemma run_grant_ids:
  assumes "run B v tr w" and "forward_backends B"
  shows "env_le (v_env v) (v_env w) \<and>
    (\<forall>i\<in>set (grant_ids tr). \<exists>j<env_pos (v_env w). i = LeaseId (env_uuid (v_env v) j)) \<and>
    (inj_on (env_uuid (v_env v)) {..<env_pos (v_env w)} \<longrightarrow> distinct (grant_ids tr))"
  using assms(1)
proof (induction rule: run.induct)
  case (run_snoc tr w c r w')
  have le: "env_le (v_env w) (v_env w')" by (rule exec_env [OF assms(2) run_snoc(2)])
  then have pos: "env_pos (v_env w) \<le> env_pos (v_env w')" by (simp add: env_le_def)
  have le': "env_le (v_env v) (v_env w')" using run_snoc.IH le by (blast intro: env_le_trans)
  have old: "\<forall>i\<in>set (grant_ids tr). \<exists>j<env_pos (v_env w'). i = LeaseId (env_uuid (v_env v) j)"
    using run_snoc.IH pos by (meson order_less_le_trans)
  have inj: "inj_on (env_uuid (v_env v)) {..<env_pos (v_env w')} \<Longrightarrow>
      inj_on (env_uuid (v_env v)) {..<env_pos (v_env w)}"
    using pos by (auto intro: inj_on_subset)
  show ?case
  proof (cases "\<exists>g. r = R_granted g")
    case True
    then obtain g where g: "r = R_granted g" by blast
    then have "exec B c w = (R_granted g, w')" using run_snoc(2) by simp
    from exec_grant_id [OF assms(2) this] obtain j where j: "env_pos (v_env w) \<le> j" "j < env_pos (v_env w')"
      "grant_lease_id g = LeaseId (env_uuid (v_env v) j)"
      using run_snoc.IH by (auto simp: env_le_def)
    have "grant_lease_id g \<notin> set (grant_ids tr)" if "inj_on (env_uuid (v_env v)) {..<env_pos (v_env w')}"
    proof
      assume "grant_lease_id g \<in> set (grant_ids tr)"
      then obtain k where "k < env_pos (v_env w)" "env_uuid (v_env v) k = env_uuid (v_env v) j"
        using run_snoc.IH j(3) by fastforce
      then show False using inj_onD [OF that] j pos by fastforce
    qed
    then show ?thesis using run_snoc.IH le' old inj j g by (auto simp: grant_ids_append)
  next
    case False
    then have "grant_ids [(c, r)] = []" by (cases r) auto
    then show ?thesis using run_snoc.IH le' old inj by (simp add: grant_ids_append)
  qed
qed simp

text \<open>
  If the UUIDs drawn during a run do not repeat and the backends only read forward in
  the environment, no two grants of the run carry the same lease id, so the side
  condition of the use-limit and revocation guarantees holds.
\<close>

theorem lease_ids_fresh:
  assumes "run B v tr w" and "forward_backends B" and "inj_on (env_uuid (v_env v)) {..<env_pos (v_env w)}"
  shows "distinct (grant_ids tr) \<and> (\<forall>tr1 x tr2 i. tr = tr1 @ x # tr2 \<and> granted i x \<longrightarrow> (\<forall>y\<in>set tr2. \<not> granted i y))"
proof
  show d: "distinct (grant_ids tr)" using run_grant_ids [OF assms(1,2)] assms(3) by blast
  have mem: "granted i y \<Longrightarrow> y \<in> set tr' \<Longrightarrow> i \<in> set (grant_ids tr')" for i y tr'
    by (induction tr' rule: grant_ids.induct) (auto simp: granted_def split: reply.splits)
  show "\<forall>tr1 x tr2 i. tr = tr1 @ x # tr2 \<and> granted i x \<longrightarrow> (\<forall>y\<in>set tr2. \<not> granted i y)"
  proof (intro allI impI ballI notI, elim conjE)
    fix tr1 x tr2 i y
    assume tr: "tr = tr1 @ x # tr2" and x: "granted i x" and y: "y \<in> set tr2" "granted i y"
    have "grant_ids tr = grant_ids tr1 @ grant_ids [x] @ grant_ids tr2"
      using tr grant_ids_append [of tr1 "[x] @ tr2"] grant_ids_append [of "[x]" tr2] by simp
    then show False using d mem [OF x, of "[x]"] mem [OF y(2,1)] by auto
  qed
qed

lemma demo_forward: "forward_backends demo_backends"
  by (simp add: forward_backends_def forward_def demo_backends_def op_defs)

theorem lease_ids_fresh_witness:
  "distinct (grant_ids [(C_initialize, R_unit), (demo_request, R_granted (LeaseGrant_from demo_lease))])"
proof -
  have "inj_on (env_uuid (v_env demo0)) {..<env_pos (v_env demo2)}"
    by (auto simp: inj_on_def demo2_sel word_unat_eq_iff unat_of_nat)
  from lease_ids_fresh [OF demo_runs(2) demo_forward this] show ?thesis by blast
qed

end
