(* ===== verification/Vault_Contracts.thy ===== *)
theory Vault_Contracts
  imports Vault_Operations Sqlite_Store
begin

text \<open>
  What the vault promises over well-behaved backends: the locale \<open>vault_backends\<close> joins
  the contracts of the store, the audit log and the key source, and its lemmas show the
  round trip of a secret through the vault and what a key rotation does to the stored
  secrets. The interpretations are the vault over the SQLite store and the tracing log with
  each of the three key sources.
\<close>

section \<open>Secrets that open\<close>

text \<open>
  \<open>opens_to\<close>: the store's value of a name decrypts to the plaintext under the vault's
  current key; \<open>key_held\<close>: that key is the one the key source would load again.
\<close>

definition opens_to ::
  "('k, 's, 'a) backends \<Rightarrow> ('s \<Rightarrow> SecretName \<rightharpoonup> Sealed) \<Rightarrow> SecretName \<Rightarrow> bytes \<Rightarrow> ('k, 's, 'a) vault \<Rightarrow> bool" where
  "opens_to B sabs n p v \<longleftrightarrow>
     (\<exists>k sealed. v_dek v = Some k \<and> sabs (v_store v) n = Some sealed \<and>
        (\<forall>ci. Cipher_decrypt (be_aead B) ci sealed k = Inr p))"

definition key_held :: "('k \<Rightarrow> DataEncryptionKey \<Rightarrow> bool) \<Rightarrow> ('k, 's, 'a) vault \<Rightarrow> bool" where
  "key_held holds v \<longleftrightarrow>
     (\<exists>k. v_dek v = Some k \<and> holds (v_key_source v) k \<and> length (dek_bytes k) = 32)"

definition secure ::
  "('k, 's, 'a) backends \<Rightarrow> ('s \<Rightarrow> SecretName \<rightharpoonup> Sealed) \<Rightarrow> ('s \<Rightarrow> bool) \<Rightarrow> ('a \<Rightarrow> bool) \<Rightarrow> ('k \<Rightarrow> bool) \<Rightarrow>
    ('k \<Rightarrow> DataEncryptionKey \<Rightarrow> bool) \<Rightarrow> SecretName \<Rightarrow> bytes \<Rightarrow> ('k, 's, 'a) vault \<Rightarrow> bool" where
  "secure B sabs sinv ainv kinv holds n p v \<longleftrightarrow>
     sinv (v_store v) \<and> ainv (v_audit v) \<and> kinv (v_key_source v) \<and> key_held holds v \<and>
     opens_to B sabs n p v"

text \<open>Every value of a map, sealed under one key, is sealed in the other under the other key.\<close>

definition resealed ::
  "aead \<Rightarrow> DataEncryptionKey \<Rightarrow> (SecretName \<rightharpoonup> Sealed) \<Rightarrow> DataEncryptionKey \<Rightarrow> (SecretName \<rightharpoonup> Sealed) \<Rightarrow> bool" where
  "resealed c old m new m' \<longleftrightarrow>
     dom m' = dom m \<and>
     (\<forall>n\<in>dom m. \<exists>a b q. m n = Some a \<and> m' n = Some b \<and>
        (\<forall>ci. Cipher_decrypt c ci a old = Inr q) \<and> (\<forall>ci. Cipher_decrypt c ci b new = Inr q))"

text \<open>A call that neither deletes the secret nor is a key rotation that fails.\<close>

definition harmless :: "SecretName \<Rightarrow> call \<times> reply \<Rightarrow> bool" where
  "harmless n = (\<lambda>(c, r). case c of
     C_delete_secret m p \<Rightarrow> m \<noteq> n | C_rotate_dek p \<Rightarrow> r = R_unit | _ \<Rightarrow> True)"

lemma keeps_on_env: "(\<And>v e. I v \<Longrightarrow> I (v\<lparr>v_env := e\<rparr>)) \<Longrightarrow> keeps I (on_env f)"
  by (simp add: keeps_def on_env_def case_prod_beta)

lemma keeps_reads: "keeps I (reads f)"
  by (simp add: keeps_def reads_def)

lemma keeps_modifies: "(\<And>v. I v \<Longrightarrow> I (f v)) \<Longrightarrow> keeps I (modifies f)"
  by (simp add: keeps_def modifies_def)

lemma keeps_decrypt: "keeps I (decrypt B ct no al)"
  by (metis decrypt_eq keepsI prod.collapse)

lemma on_env_pair:
  "on_env f v = (x, w) \<longleftrightarrow> (\<exists>e. f (v_env v) = (x, e) \<and> w = v\<lparr>v_env := e\<rparr>)"
  by (auto simp: on_env_def split: prod.splits)

lemma try_op_reads [simp]: "try_op (reads f) k v = k (f v) v" "try_op (of_result (Inr x)) k v = k x v"
  by (simp_all add: try_op_def reads_def of_result_def)

lemma try_op_at:
  "m w = (r, w1) \<Longrightarrow> try_op m k w = (case r of Inl e \<Rightarrow> (Inl e, w1) | Inr x \<Rightarrow> k x w1)"
  by (simp add: try_op_def)

lemma keeps_snd: "keeps I m \<Longrightarrow> I w \<Longrightarrow> I (snd (m w))"
  by (simp add: keeps_def)

lemma keeps_case_prod: "(\<And>a b. keeps I (f a b)) \<Longrightarrow> keeps I (case x of (a, b) \<Rightarrow> f a b)"
  by (simp add: case_prod_beta)

text \<open>A key source that always refuses to rotate keeps the vault's key.\<close>

lemma rotate_refused:
  fixes v :: "('k, 's, 'a) vault"
  assumes "rotate_dek B peer v = (r, w)" and "\<And>d x. \<exists>er. rotate_key (be_keys B) d x = (Inl er, x)"
  shows "(\<exists>er. r = Inl er) \<and> v_dek w = v_dek v \<and> v_key_source w = v_key_source v"
proof
  have refused: "\<exists>er. key_op (rotate_key (be_keys B) d) u = (Inl er, u)" for d and u :: "('k, 's, 'a) vault"
    using assms(2) [of d "(v_key_source u, v_env u)"] by (auto simp: key_op_def)
  show "\<exists>er. r = Inl er"
  proof (cases r)
    case (Inr u)
    have "key_op (rotate_key (be_keys B) d) x \<noteq> (Inr y, z)" for d y and x z :: "('k, 's, 'a) vault"
      using refused [of d x] by auto
    then show ?thesis using assms(1) by (simp add: Inr rotate_dek_def try_op_Inr let_op_eq)
  qed simp
  define I where "I = (\<lambda>u :: ('k, 's, 'a) vault. v_dek u = v_dek v \<and> v_key_source u = v_key_source v)"
  have get: "keeps I (store_op (get (be_store B) n))" for n
    by (simp add: keeps_def I_def store_op_def case_prod_beta)
  have seal: "keeps I (on_env f)" for f :: "env \<Rightarrow> Sealed result \<times> env"
    by (simp add: keeps_def I_def on_env_def case_prod_beta)
  have re: "keeps I (reencrypt_all B old new ms)" for old new ms
    by (induction ms) (auto intro!: keeps_try_op get seal keeps_reads)
  have list: "keeps I (store_op (list_all_md (be_store B)))" "keeps I (store_op (batch_update (be_store B) us))" for us
    by (simp_all add: keeps_def I_def store_op_def case_prod_beta)
  have key: "keeps I (try_op (key_op (rotate_key (be_keys B) d)) k)" for d and k :: "EncryptedDek \<Rightarrow> (('k, 's, 'a) vault, Error, unit) op"
  proof (rule keepsI)
    fix u assume "I u"
    then show "I (snd (try_op (key_op (rotate_key (be_keys B) d)) k u))"
      using refused [of d u] by (auto simp: try_op_def)
  qed
  have env: "I u \<Longrightarrow> I (snd (on_env (fill_bytes 32) u))" for u by (simp add: I_def frame)
  have "keeps I (rotate_dek B peer)"
    unfolding rotate_dek_def by (intro keeps_try_op keeps_let_op list re key env keeps_reads keeps_of_result)
  then show "v_dek w = v_dek v \<and> v_key_source w = v_key_source v"
    using keepsD [of I "rotate_dek B peer" v r w] assms(1) by (simp add: I_def)
qed

section \<open>Three contracts together\<close>

locale vault_backends =
  st: secret_store "be_store B" sabs sinv sread +
  au: audit_log "be_audit B" items view ainv +
  ks: key_source "be_keys B" holds kinv
  for B :: "('k, 's, 'a) backends"
    and sabs sinv sread items view ainv holds kinv
begin

lemma forward_ok:
  assumes "\<And>k. kinv k" "\<And>s. sinv s" "\<And>a. ainv a"
  shows "forward_backends B"
  unfolding forward_backends_def forward_def
  using assms st.get_frame st.put_inv st.batch_inv st.delete_inv st.list_frame au.record_inv
    ks.load_inv ks.rotate_inv by (metis prod.collapse)

text \<open>The invariants of the three backends, as the vault sees them.\<close>

lemma audit_event_kept:
  assumes "audit_event B ev ag peer out v = (r, w)" and "ainv (v_audit v)"
  shows "ainv (v_audit w) \<and> env_le (v_env v) (v_env w) \<and> v_store w = v_store v \<and> v_dek w = v_dek v \<and>
    v_key_source w = v_key_source v \<and> v_cipher w = v_cipher v \<and>
    items (v_audit w) = items (v_audit v) @ (if is_ok r then [view (entry_at ev ag peer out (v_env v))] else [])"
proof -
  obtain a e where rec: "record_entry (be_audit B) (entry_at ev ag peer out (v_env v))
      (v_audit v, env_step (env_step (v_env v))) = (r, a, e)"
    and w: "w = v\<lparr>v_audit := a, v_env := e, v_traced := v_traced v @ [entry_at ev ag peer out (v_env v)]\<rparr>"
    using assms(1) by (auto simp: audit_event_eq)
  have "ainv a \<and> env_le (env_step (env_step (v_env v))) e" by (rule au.record_inv [OF assms(2) rec])
  moreover have "items a = items (v_audit v) @ (if is_ok r then [view (entry_at ev ag peer out (v_env v))] else [])"
    using au.record_ok [OF assms(2)] au.record_fail [OF assms(2)] rec by (cases r) auto
  ultimately show ?thesis using w by (auto intro: env_le_trans [OF env_le_step2])
qed

text \<open>A stored secret is in the map, sealed under the vault's key.\<close>

lemma store_secret_ok:
  assumes "store_secret B name plaintext kind desc peer v = (Inr md, w)"
    and "sinv (v_store v)" and "ainv (v_audit v)" and "aead_correct (be_aead B)"
  shows "sinv (v_store w) \<and> ainv (v_audit w) \<and> v_dek w = v_dek v \<and> sabs (v_store v) name = None \<and>
    md_name md = name \<and> sread (v_store w) name \<and> env_le (v_env v) (v_env w) \<and>
    (\<exists>k sealed. v_dek v = Some k \<and> sabs (v_store w) = (sabs (v_store v))(name \<mapsto> sealed) \<and>
       (\<forall>ci. Cipher_decrypt (be_aead B) ci sealed k = Inr plaintext))"
proof -
  obtain sealed v1 stored v2 where enc: "encrypt B plaintext v = (Inr sealed, v1)"
    and put: "store_op (put (be_store B) \<lparr>sp_name = name, sp_ciphertext = sealed_ciphertext sealed,
        sp_nonce = sealed_nonce sealed, sp_algorithm = sealed_algorithm sealed, sp_kind = kind,
        sp_description = desc\<rparr>) v1 = (Inr stored, v2)"
    and aud: "audit_event B (Ev_SecretStored name) admin_agent peer Success v2 = (Inr (), w)"
    and md: "md = SecretMetadata_from stored"
    using assms(1) by (auto simp: store_secret_def try_op_Inr)
  obtain k e1 where k: "v_dek v = Some k" "Cipher_encrypt (be_aead B) (v_cipher v) plaintext k (v_env v) = (Inr sealed, e1)"
    "v1 = v\<lparr>v_env := e1\<rparr>"
    using enc by (auto simp: encrypt_def on_env_def split: option.splits prod.splits)
  have dec: "Cipher_decrypt (be_aead B) ci sealed k = Inr plaintext" for ci
    by (rule decrypt_encrypt [OF assms(4) k(2)])
  have le1: "env_le (v_env v) e1" using Cipher_encrypt_env [of "v_env v" "be_aead B" "v_cipher v" plaintext k] k(2) by simp
  obtain s2 e2 where s2: "put (be_store B) \<lparr>sp_name = name, sp_ciphertext = sealed_ciphertext sealed,
        sp_nonce = sealed_nonce sealed, sp_algorithm = sealed_algorithm sealed, sp_kind = kind,
        sp_description = desc\<rparr> (v_store v, e1) = (Inr stored, s2, e2)" "v2 = v1\<lparr>v_store := s2, v_env := e2\<rparr>"
    using put k(3) by (auto simp: store_op_eq)
  note pi = st.put_inv [OF assms(2) s2(1)] and po = st.put_ok [OF assms(2) s2(1)]
  have sealed: "params_sealed \<lparr>sp_name = name, sp_ciphertext = sealed_ciphertext sealed,
        sp_nonce = sealed_nonce sealed, sp_algorithm = sealed_algorithm sealed, sp_kind = kind,
        sp_description = desc\<rparr> = sealed" by (simp add: params_sealed_def)
  have "ainv (v_audit v2)" using assms(3) s2(2) k(3) by simp
  note au2 = audit_event_kept [OF aud this]
  show ?thesis
    using au2 s2(2) k pi po sealed dec le1 md
    by (auto simp: SecretMetadata_from_def intro: env_le_trans)
qed

text \<open>The building blocks keep a secret secure.\<close>

abbreviation "sec \<equiv> secure B sabs sinv ainv kinv holds"

lemma sec_frame:
  "sec n p v \<Longrightarrow> v_store w = v_store v \<Longrightarrow> v_audit w = v_audit v \<Longrightarrow> v_key_source w = v_key_source v \<Longrightarrow>
    v_dek w = v_dek v \<Longrightarrow> sec n p w"
  by (simp add: secure_def opens_to_def key_held_def)

lemma sec_store:
  "sec n p v \<Longrightarrow> sinv s \<Longrightarrow> sabs s n = sabs (v_store v) n \<Longrightarrow> sec n p (v\<lparr>v_store := s, v_env := e\<rparr>)"
  by (simp add: secure_def opens_to_def key_held_def)

lemma keeps_get: "keeps (sec n p) (store_op (get (be_store B) m))"
  by (rule keepsI) (auto simp: store_op_def split: prod.splits dest!: st.get_frame intro: sec_frame)

lemma keeps_list: "keeps (sec n p) (store_op (list_all_md (be_store B)))"
  by (rule keepsI) (auto simp: store_op_def split: prod.splits dest!: st.list_frame intro: sec_frame)

lemma keeps_put: "keeps (sec n p) (store_op (put (be_store B) q))"
proof (rule keepsI)
  fix v assume sec: "sec n p v"
  obtain r s e where run: "put (be_store B) q (v_store v, v_env v) = (r, s, e)" by (rule prod_cases3)
  have inv: "sinv (v_store v)" and ex: "sabs (v_store v) n \<noteq> None"
    using sec by (auto simp: secure_def opens_to_def)
  have "sabs s n = sabs (v_store v) n"
    using st.put_ok [OF inv] st.put_fail [OF inv] run ex by (cases r) (auto simp: fun_upd_def)
  then show "sec n p (snd (store_op (put (be_store B) q) v))"
    using sec_store [OF sec] st.put_inv [OF inv run] run by (simp add: store_op_def)
qed

lemma keeps_delete: "m \<noteq> n \<Longrightarrow> keeps (sec n p) (store_op (delete (be_store B) m))"
proof (rule keepsI)
  fix v assume sec: "sec n p v" and ne: "m \<noteq> n"
  obtain r s e where run: "delete (be_store B) m (v_store v, v_env v) = (r, s, e)" by (rule prod_cases3)
  have inv: "sinv (v_store v)" using sec by (auto simp: secure_def)
  have "sabs s n = sabs (v_store v) n"
    using st.delete_ok [OF inv] st.delete_fail [OF inv] run ne by (cases r) fastforce+
  then show "sec n p (snd (store_op (delete (be_store B) m) v))"
    using sec_store [OF sec] st.delete_inv [OF inv run] run by (simp add: store_op_def)
qed

lemma keeps_audit: "keeps (sec n p) (audit_event B ev ag peer out)"
proof (rule keepsI)
  fix v assume sec: "sec n p v"
  obtain r w where run: "audit_event B ev ag peer out v = (r, w)" by (rule prod.exhaust)
  have "ainv (v_audit v)" using sec by (simp add: secure_def)
  from audit_event_kept [OF run this] sec show "sec n p (snd (audit_event B ev ag peer out v))"
    by (simp add: run secure_def opens_to_def key_held_def)
qed

lemma keeps_env: "keeps (sec n p) (on_env f)"
  by (rule keeps_on_env) (rule sec_frame, auto)

lemma keeps_encrypt: "keeps (sec n p) (encrypt B t)"
  by (rule keepsI) (auto simp: encrypt_def on_env_def split: option.splits prod.splits intro: sec_frame)

lemma sec_audit_best_effort: "sec n p v \<Longrightarrow> sec n p (snd (audit_best_effort B ev ag peer out v))"
  using keeps_audit [of n p ev ag peer out] audit_best_effort_eq [of B ev ag peer out v]
  by (metis keepsD prod.collapse)

lemma sec_revoke_loop: "sec n p v \<Longrightarrow> sec n p (snd (revoke_loop B cond reason peer ks v))"
proof (induction ks arbitrary: v)
  case (Cons k ks)
  have "sec n p (v\<lparr>v_leases := x\<rparr>)" for x by (rule sec_frame [OF Cons.prems]) auto
  then show ?case using Cons sec_audit_best_effort
    by (auto simp: case_prod_beta split: option.splits if_splits)
qed simp

lemma sec_revoke_where: "sec n p v \<Longrightarrow> sec n p (snd (revoke_where B cond reason peer v))"
  by (simp add: revoke_where_def sec_revoke_loop)

lemmas sec_keeps = keeps_get keeps_list keeps_put keeps_delete keeps_audit keeps_env keeps_encrypt
  keeps_reads keeps_decrypt keeps_ok keeps_fail keeps_of_result

lemma sec_on_env: "sec n p v \<Longrightarrow> sec n p (snd (on_env f v))"
  by (rule sec_frame) (simp_all add: frame)

lemma keeps_tables:
  "keeps (sec n p) (modifies (insert_lease l))"
  "keeps (sec n p) (modifies (\<lambda>v. v\<lparr>v_leases := f v\<rparr>))"
  "keeps (sec n p) (modifies (\<lambda>v. v\<lparr>v_sessions := g v\<rparr>))"
  "keeps (sec n p) (modifies (link_lease i sid))"
  "keeps (sec n p) (modifies (count_lease t))"
  by (rule keeps_modifies, erule sec_frame,
      auto simp: insert_lease_def link_lease_def count_lease_def split: option.splits)+

lemmas sec_rules = keeps_try_op keeps_let_op sec_keeps sec_on_env keeps_tables sec_revoke_where
  keeps_case_sum keeps_case_option keeps_case_prod keeps_if sec_audit_best_effort

lemma keeps_request_lease: "keeps (sec n p) (request_lease B a m d pr)"
  unfolding request_lease_def by (intro sec_rules)

lemma keeps_store_secret: "keeps (sec n p) (store_secret B m t kd ds pr)"
  unfolding store_secret_def by (intro sec_rules)

lemma keeps_delete_secret: "m \<noteq> n \<Longrightarrow> keeps (sec n p) (delete_secret B m pr)"
  unfolding delete_secret_def by (intro sec_rules)

lemma keeps_revoke_all: "keeps (sec n p) (revoke_all_for_agent B a pr)"
  unfolding revoke_all_for_agent_def by (intro sec_rules)

lemma keeps_create_session: "keeps (sec n p) (create_session B u c sp pr)"
  unfolding create_session_def by (intro sec_rules)

lemma keeps_access_secret: "keeps (sec n p) (access_secret B i h pr)"
proof -
  have "keeps (sec n p) (use_lease i h)"
    by (rule keepsI, erule sec_frame)
      (auto simp: use_lease_def on_env_def split: option.splits prod.splits sum.splits)
  then show ?thesis unfolding access_secret_def by (intro sec_rules)
qed

lemma keeps_revoke_lease: "keeps (sec n p) (revoke_lease B i rs pr)"
proof (rule keepsI)
  fix v assume sec: "sec n p v"
  have "sec n p (v\<lparr>v_leases := x\<rparr>)" for x by (rule sec_frame [OF sec]) auto
  then show "sec n p (snd (revoke_lease B i rs pr v))"
    using keeps_audit sec by (auto simp: revoke_lease_def keeps_def split: option.splits)
qed

lemma keeps_renew_lease: "keeps (sec n p) (renew_lease B i x pr)"
proof (rule keepsI)
  fix v assume sec: "sec n p v"
  show "sec n p (snd (renew_lease B i x pr v))"
  proof (cases "map_of (v_leases v) i")
    case None
    then show ?thesis using sec by (simp add: renew_lease_def)
  next
    case (Some l)
    show ?thesis unfolding renew_lease_def Some option.case
      by (rule keeps_snd [where I = "sec n p", OF _ sec]) (intro sec_rules)
  qed
qed

lemma keeps_validate_session: "keeps (sec n p) (validate_session t)"
  by (rule keepsI, erule sec_frame)
    (auto simp: validate_session_def op_defs on_env_def split: option.splits prod.splits)

lemma keeps_revoke_session: "keeps (sec n p) (revoke_session B t pr)"
proof (rule keepsI)
  fix v assume sec: "sec n p v"
  show "sec n p (snd (revoke_session B t pr v))"
  proof (cases "map_of (v_sessions v) t")
    case None
    then show ?thesis using sec by (simp add: revoke_session_def)
  next
    case (Some s)
    have sec': "sec n p (v\<lparr>v_sessions := x\<rparr>)" for x by (rule sec_frame [OF sec]) auto
    show ?thesis unfolding revoke_session_def Some option.case
      by (rule keeps_snd [where I = "sec n p", OF _ sec']) (intro sec_rules)
  qed
qed

lemma keeps_request_lease_scoped: "keeps (sec n p) (request_lease_scoped B a m d pr t tn)"
proof (rule keepsI)
  fix v assume sec: "sec n p v"
  show "sec n p (snd (request_lease_scoped B a m d pr t tn v))"
  proof (cases "\<exists>s. map_of (v_sessions v) t = Some s \<and> \<not> s_revoked s")
    case False
    then show ?thesis using sec by (auto simp: request_lease_scoped_def split: option.splits)
  next
    case True
    then obtain s where s: "map_of (v_sessions v) t = Some s" "\<not> s_revoked s" by blast
    show ?thesis unfolding request_lease_scoped_def s(1) option.case if_not_P [OF s(2)]
      by (rule keeps_snd [where I = "sec n p", OF _ sec]) (intro sec_rules keeps_request_lease)
  qed
qed

lemma sec_gc: "sec n p v \<Longrightarrow> sec n p (snd (gc_leases v))" "sec n p v \<Longrightarrow> sec n p (snd (gc_sessions v))"
  by (erule sec_frame; simp add: gc_leases_def gc_sessions_def case_prod_beta)+

text \<open>Loading the key again gives the key in use.\<close>

lemma keeps_initialize: "keeps (sec n p) (initialize B)"
proof (rule keepsI)
  fix v assume sec: "sec n p v"
  obtain r k e where load: "load_or_create_dek (be_keys B) (v_key_source v, v_env v) = (r, k, e)" by (rule prod_cases3)
  obtain d where d: "v_dek v = Some d" "holds (v_key_source v) d" "kinv (v_key_source v)"
    using sec by (auto simp: secure_def key_held_def)
  have "k = v_key_source v \<and> (\<forall>d'. r = Inr d' \<longrightarrow> d' = d)" by (rule ks.load_held [OF d(3,2) load])
  then show "sec n p (snd (initialize B v))"
    using load d(1) by (intro sec_frame [OF sec]) (auto simp: initialize_def try_op_def key_op_def modifies_def split: sum.splits)
qed

section \<open>Key rotation\<close>

lemma reencrypt_all_ok:
  assumes "reencrypt_all B old new ms v = (Inr us, w)" and "sinv (v_store v)" and "aead_correct (be_aead B)"
  shows "(\<exists>e. w = v\<lparr>v_env := e\<rparr>) \<and> map bu_name us = map md_name ms \<and>
    (\<forall>u\<in>set us. \<exists>sealed q. sabs (v_store v) (bu_name u) = Some sealed \<and>
       (\<forall>ci. Cipher_decrypt (be_aead B) ci sealed old = Inr q) \<and>
       (\<forall>ci. Cipher_decrypt (be_aead B) ci (item_sealed u) new = Inr q))"
  using assms(1,2)
proof (induction ms arbitrary: v us)
  case Nil
  then show ?case by (auto simp: ok_def intro: exI [of _ "v_env v"])
next
  case (Cons m ms)
  obtain stored v1 q sealed e2 rest where get: "store_op (get (be_store B) (md_name m)) v = (Inr stored, v1)"
    and dec: "Cipher_decrypt (be_aead B) (v_cipher v1) (stored_sealed stored) old = Inr q"
    and enc: "Cipher_encrypt (be_aead B) (v_cipher v1) q new (v_env v1) = (Inr sealed, e2)"
    and rec: "reencrypt_all B old new ms (v1\<lparr>v_env := e2\<rparr>) = (Inr rest, w)"
    and us: "us = \<lparr>bu_name = md_name m, bu_ciphertext = sealed_ciphertext sealed,
        bu_nonce = sealed_nonce sealed, bu_algorithm = sealed_algorithm sealed\<rparr> # rest"
    using Cons.prems(1)
    by (auto simp: try_op_Inr of_result_def on_env_pair stored_sealed_def ok_def split: sum.splits)
  obtain s e where s: "get (be_store B) (md_name m) (v_store v, v_env v) = (Inr stored, s, e)"
    "v1 = v\<lparr>v_store := s, v_env := e\<rparr>"
    using get by (auto simp: store_op_eq)
  have same: "s = v_store v" using st.get_frame [OF s(1)] by simp
  have val: "sabs (v_store v) (md_name m) = Some (stored_sealed stored)"
    using st.get_ok [OF Cons.prems(2) s(1)] by simp
  have new: "Cipher_decrypt (be_aead B) ci sealed new = Inr q" for ci
    by (rule decrypt_encrypt [OF assms(3) enc])
  have old: "Cipher_decrypt (be_aead B) ci (stored_sealed stored) old = Inr q" for ci
    using dec Cipher_decrypt_self [of "be_aead B" ci "v_cipher v1"] by simp
  have "item_sealed (hd us) = sealed" using us by (simp add: item_sealed_def)
  with Cons.IH [OF rec] s(2) same Cons.prems(2) us val new old
  show ?case by auto
qed

lemma reencrypt_all_frame:
  "\<exists>e. snd (reencrypt_all B old new ms v) = v\<lparr>v_env := e\<rparr>"
proof (induction ms arbitrary: v)
  case Nil
  then show ?case by (auto simp: ok_def intro: exI [of _ "v_env v"])
next
  case (Cons m ms)
  have get: "\<exists>e. snd (store_op (get (be_store B) x) u) = u\<lparr>v_env := e\<rparr>" for x u
    using st.get_frame by (fastforce simp: store_op_def split: prod.splits)
  define I where "I = (\<lambda>u. \<exists>e. u = v\<lparr>v_env := e\<rparr>)"
  have I: "(\<And>u. \<exists>e. snd (m' u) = u\<lparr>v_env := e\<rparr>) \<Longrightarrow> keeps I m'" for m' :: "(('k, 's, 'a) vault, Error, 'x) op"
    unfolding I_def keeps_def
  proof (intro allI impI, elim exE)
    fix u e assume frame: "\<And>u. \<exists>e. snd (m' u) = u\<lparr>v_env := e\<rparr>" and "u = v\<lparr>v_env := e\<rparr>"
    then show "\<exists>e. snd (m' u) = v\<lparr>v_env := e\<rparr>" using frame [of u] by auto
  qed
  have base: "keeps I (store_op (get (be_store B) x))" for x by (rule I [OF get])
  have base': "keeps I (reencrypt_all B old new ms)" by (rule I [OF Cons.IH])
  have base'': "keeps I (on_env f)" for f :: "env \<Rightarrow> Sealed result \<times> env" by (rule I) (auto simp: frame)
  have "keeps I (reencrypt_all B old new (m # ms))"
    unfolding reencrypt_all.simps by (intro keeps_try_op base base' base'' keeps_reads keeps_of_result keeps_ok)
  moreover have "I v" by (auto simp: I_def intro: exI [of _ "v_env v"])
  ultimately show ?case by (auto simp: keeps_def I_def)
qed

text \<open>The last steps of a rotation: the batch, the key source, the vault's key, the record.\<close>

lemma rotate_rest:
  assumes run: "try_op (store_op (batch_update (be_store B) us)) (\<lambda>_.
     try_op (key_op (rotate_key (be_keys B) new)) (\<lambda>_.
     try_op (modifies (\<lambda>v. v\<lparr>v_dek := Some new\<rparr>)) (\<lambda>_.
     try_op (audit_event B Ev_DekRotated admin_agent peer Success) (\<lambda>_.
     ok ())))) v3 = (r, w)"
    and inv: "sinv (v_store v)" "ainv (v_audit v)" "kinv (v_key_source v)"
    and v3: "v3 = v\<lparr>v_env := e3\<rparr>" and old: "v_dek v = Some old"
    and us: "distinct (map bu_name us)" "bu_name ` set us = dom (sabs (v_store v))"
      "\<forall>u\<in>set us. \<exists>sealed q. sabs (v_store v) (bu_name u) = Some sealed \<and>
        (\<forall>ci. Cipher_decrypt (be_aead B) ci sealed old = Inr q) \<and>
        (\<forall>ci. Cipher_decrypt (be_aead B) ci (item_sealed u) new = Inr q)"
    and len: "length (dek_bytes new) = 32"
  shows "(\<exists>er. r = Inl er \<and> sabs (v_store w) = sabs (v_store v) \<and> v_dek w = v_dek v \<and> v_key_source w = v_key_source v) \<or>
    (resealed (be_aead B) old (sabs (v_store v)) new (sabs (v_store w)) \<and>
     ((\<exists>er. r = Inl er) \<and> v_dek w = Some old \<or>
      v_dek w = Some new \<and> holds (v_key_source w) new \<and> sinv (v_store w) \<and> ainv (v_audit w) \<and> kinv (v_key_source w)))"
proof -
  obtain rb s e where batch: "batch_update (be_store B) us (v_store v, e3) = (rb, s, e)" by (rule prod_cases3)
  note binv = st.batch_inv [OF inv(1) batch]
  show ?thesis
  proof (cases rb)
    case (Inl er)
    then show ?thesis using run v3 batch st.batch_fail [OF inv(1)] by (fastforce simp: try_op_def store_op_def)
  next
    case (Inr u)
    have ap: "apply_batch us (sabs (v_store v)) = Some (sabs s)" using st.batch_ok [OF inv(1)] batch Inr by blast
    have dom: "dom (sabs s) = dom (sabs (v_store v))" by (rule apply_batch_dom [OF ap])
    have vals: "\<exists>a b q. sabs (v_store v) n = Some a \<and> sabs s n = Some b \<and>
        (\<forall>ci. Cipher_decrypt (be_aead B) ci a old = Inr q) \<and> (\<forall>ci. Cipher_decrypt (be_aead B) ci b new = Inr q)"
      if n: "n \<in> dom (sabs (v_store v))" for n
    proof -
      obtain x where x: "x \<in> set us" "bu_name x = n" using n us(2) by (metis imageE)
      then have "sabs s n = Some (item_sealed x)" using apply_batch_in [OF ap us(1)] by auto
      then show ?thesis using us(3) x by blast
    qed
    have re: "resealed (be_aead B) old (sabs (v_store v)) new (sabs s)"
      unfolding resealed_def using dom vals by blast
    define v4 where "v4 = v\<lparr>v_store := s, v_env := e\<rparr>"
    obtain rk k e5 where rot: "rotate_key (be_keys B) new (v_key_source v, e) = (rk, k, e5)" by (rule prod_cases3)
    note kinv' = ks.rotate_inv [OF inv(3) rot]
    define v5 where "v5 = v4\<lparr>v_key_source := k, v_env := e5\<rparr>"
    have run5: "(case rk of Inl er \<Rightarrow> (Inl er, v5)
        | Inr _ \<Rightarrow> try_op (audit_event B Ev_DekRotated admin_agent peer Success) (\<lambda>_. ok ()) (v5\<lparr>v_dek := Some new\<rparr>)) = (r, w)"
      using run batch Inr rot v3
      by (simp add: try_op_def store_op_def key_op_def modifies_def v4_def v5_def split: sum.splits)
    show ?thesis
    proof (cases rk)
      case (Inl er)
      then have "r = Inl er" "w = v5" using run5 by auto
      then show ?thesis using re old by (auto simp: v5_def v4_def)
    next
      case (Inr y)
      obtain ra w1 where au: "audit_event B Ev_DekRotated admin_agent peer Success (v5\<lparr>v_dek := Some new\<rparr>) = (ra, w1)"
        by (rule prod.exhaust)
      have "w = w1" using run5 Inr au by (auto simp: try_op_def ok_def split: sum.splits)
      moreover have "ainv (v_audit (v5\<lparr>v_dek := Some new\<rparr>))" using inv(2) by (simp add: v5_def v4_def)
      moreover have "holds k new" using ks.rotate_ok [OF inv(3) len] rot Inr by blast
      ultimately show ?thesis
        using audit_event_kept [OF au] re binv kinv' by (auto simp: v5_def v4_def)
    qed
  qed
qed

text \<open>
  The three ways a rotation ends: before the store is touched, with nothing changed; in the
  key source, with the store already under the new key and the vault still under the old
  one; or after the new key is in place, where only the audit record can still fail.
\<close>

lemma rotate_dek_cases:
  assumes "rotate_dek B peer v = (r, w)" and "sinv (v_store v)" and "ainv (v_audit v)"
    and "kinv (v_key_source v)" and "aead_correct (be_aead B)"
  obtains (untouched) er where "r = Inl er" "sabs (v_store w) = sabs (v_store v)" "v_dek w = v_dek v"
      "v_key_source w = v_key_source v"
  | (stranded) er old new where "r = Inl er" "v_dek v = Some old" "v_dek w = Some old"
      "length (dek_bytes new) = 32" "resealed (be_aead B) old (sabs (v_store v)) new (sabs (v_store w))"
  | (rotated) old new where "v_dek v = Some old" "v_dek w = Some new" "holds (v_key_source w) new"
      "length (dek_bytes new) = 32" "resealed (be_aead B) old (sabs (v_store v)) new (sabs (v_store w))"
      "sinv (v_store w)" "ainv (v_audit w)" "kinv (v_key_source w)"
proof -
  define new where "new = DEK (fst (fill_bytes 32 (v_env v)))"
  define v1 where "v1 = v\<lparr>v_env := snd (fill_bytes 32 (v_env v))\<rparr>"
  define rest where "rest updates =
     try_op (store_op (batch_update (be_store B) updates)) (\<lambda>_.
     try_op (key_op (rotate_key (be_keys B) new)) (\<lambda>_.
     try_op (modifies (\<lambda>v. v\<lparr>v_dek := Some new\<rparr>)) (\<lambda>_.
     try_op (audit_event B Ev_DekRotated admin_agent peer Success) (\<lambda>_.
     ok ()))))" for updates
  have len: "length (dek_bytes new) = 32" by (simp add: new_def)
  show thesis
  proof (cases "v_dek v")
    case None
    then have "r = Inl no_dek" "w = v" using assms(1)
      by (auto simp: rotate_dek_def op_defs reads_def of_result_def)
    then show thesis using untouched by blast
  next
    case (Some old)
    obtain rl v2 where l: "store_op (list_all_md (be_store B)) v1 = (rl, v2)" by (rule prod.exhaust)
    have run: "(case rl of Inl er \<Rightarrow> (Inl er, v2)
        | Inr ms \<Rightarrow> try_op (reencrypt_all B old new ms) rest v2) = (r, w)"
      using assms(1) unfolding rotate_dek_def rest_def
      by (simp add: Some ok_or_def let_op_eq fst_on_env snd_on_env del: snd_draws)
        (cases rl; simp add: new_def [symmetric] v1_def [symmetric]
          try_op_at [of "store_op (list_all_md (be_store B))", OF l] del: snd_draws)
    obtain e2 where v2: "v2 = v\<lparr>v_env := e2\<rparr>"
      using l st.list_frame by (fastforce simp: store_op_eq v1_def)
    show thesis
    proof (cases rl)
      case (Inl er)
      then show thesis using run v2 untouched by auto
    next
      case (Inr ms)
      have ms: "distinct (map md_name ms) \<and> set (map md_name ms) = dom (sabs (v_store v))"
        using l st.list_ok [OF assms(2)] Inr by (fastforce simp: store_op_eq v1_def)
      obtain ru v3 where re: "reencrypt_all B old new ms v2 = (ru, v3)" by (rule prod.exhaust)
      obtain e3 where v3: "v3 = v\<lparr>v_env := e3\<rparr>"
        using reencrypt_all_frame [of old new ms v2] re v2 by auto
      have run: "(case ru of Inl er \<Rightarrow> (Inl er, v3) | Inr us \<Rightarrow> rest us v3) = (r, w)"
        using run Inr by (simp add: try_op_at [of "reencrypt_all B old new ms", OF re])
      show thesis
      proof (cases ru)
        case (Inl er)
        then show thesis using run v3 untouched by auto
      next
        case (Inr us)
        have "sinv (v_store v2)" using assms(2) v2 by simp
        from reencrypt_all_ok [OF re [unfolded Inr] this assms(5)] v2 ms
        have us: "distinct (map bu_name us)" "bu_name ` set us = dom (sabs (v_store v))"
          "\<forall>u\<in>set us. \<exists>sealed q. sabs (v_store v) (bu_name u) = Some sealed \<and>
            (\<forall>ci. Cipher_decrypt (be_aead B) ci sealed old = Inr q) \<and>
            (\<forall>ci. Cipher_decrypt (be_aead B) ci (item_sealed u) new = Inr q)"
          by (auto simp flip: set_map)
        have run: "rest us v3 = (r, w)" using run Inr by simp
        from rotate_rest [OF run [unfolded rest_def] assms(2-4) v3 Some us len]
        show thesis using untouched stranded [OF _ Some _ len] rotated [OF Some _ _ len] by metis
      qed
    qed
  qed
qed

lemma rotate_sec:
  assumes "rotate_dek B peer v = (Inr u, w)" and "sec n p v" and "aead_correct (be_aead B)"
  shows "sec n p w"
proof -
  have inv: "sinv (v_store v)" "ainv (v_audit v)" "kinv (v_key_source v)"
    using assms(2) by (simp_all add: secure_def)
  obtain old a where old: "v_dek v = Some old" "sabs (v_store v) n = Some a"
    "Cipher_decrypt (be_aead B) (v_cipher v) a old = Inr p"
    using assms(2) by (auto simp: secure_def opens_to_def)
  show ?thesis
  proof (cases rule: rotate_dek_cases [OF assms(1) inv assms(3)])
    case (3 old' new)
    obtain b where "sabs (v_store w) n = Some b" "\<forall>ci. Cipher_decrypt (be_aead B) ci b new = Inr p"
      using 3(1,5) old unfolding resealed_def by (metis domI Inr_inject option.inject)
    then show ?thesis using 3 by (auto simp: secure_def opens_to_def key_held_def)
  qed simp_all
qed

text \<open>Every harmless call keeps every secret secure.\<close>

lemmas sec_operations = keeps_snd [OF keeps_initialize] keeps_snd [OF keeps_request_lease]
  keeps_snd [OF keeps_access_secret] keeps_snd [OF keeps_revoke_lease] keeps_snd [OF keeps_revoke_all]
  keeps_snd [OF keeps_store_secret] keeps_snd [OF keeps_list] keeps_snd [OF keeps_renew_lease]
  keeps_snd [OF keeps_delete_secret] keeps_snd [OF keeps_create_session]
  keeps_snd [OF keeps_validate_session] keeps_snd [OF keeps_revoke_session]
  keeps_snd [OF keeps_request_lease_scoped] sec_gc

lemma exec_sec:
  assumes "exec B c v = (r, w)" and "harmless n (c, r)" and "sec n p v" and "aead_correct (be_aead B)"
  shows "sec n p w"
proof (cases "\<exists>pr. c = C_rotate_dek pr")
  case True
  then obtain pr u where "rotate_dek B pr v = (Inr u, w)"
    using assms(1,2) by (auto simp: harmless_def reply_with_def split: prod.splits sum.splits)
  then show ?thesis using rotate_sec assms(3,4) by blast
next
  case False
  have "sec n p (snd (exec B c v))"
    using False assms(2,3)
    by (cases c) (simp_all add: sec_operations list_secrets_def harmless_def case_prod_beta)
  then show ?thesis using assms(1) by simp
qed

lemma run_sec:
  assumes "run B v tr w" and "\<forall>x\<in>set tr. harmless n x" and "sec n p v" and "aead_correct (be_aead B)"
  shows "sec n p w"
  using assms by (induction rule: run.induct) (auto dest: exec_sec)

text \<open>What an access returns is what the key opens the map's value to.\<close>

lemma access_secret_value:
  assumes "access_secret B i host peer v = (Inr g, w)" and "sinv (v_store v)"
  shows "\<exists>l sealed. map_of (v_leases v) i = Some l \<and> sabs (v_store v) (l_secret_name l) = Some sealed \<and>
    open_sealed (be_aead B) (v_dek v) sealed = Inr (guard_value g)"
proof -
  obtain an v1 stored v2 where use: "use_lease i host v = (Inr an, v1)"
    and get: "store_op (get (be_store B) (snd an)) v1 = (Inr stored, v2)"
    and dec: "open_sealed (be_aead B) (v_dek v2)
        \<lparr>sealed_ciphertext = ss_ciphertext stored, sealed_nonce = ss_nonce stored,
         sealed_algorithm = ss_algorithm stored\<rparr> = Inr (guard_value g)"
    using assms(1)
    by (auto simp: access_secret_def try_op_Inr decrypt_eq audit_event_eq LeaseGuard_new_def split: prod.splits)
  from use_lease_effect [OF use] obtain l where l: "map_of (v_leases v) i = Some l" "snd an = l_secret_name l"
    "v_dek v1 = v_dek v" "v_store v1 = v_store v"
    by (cases an) auto
  obtain s e where s: "get (be_store B) (snd an) (v_store v, v_env v1) = (Inr stored, s, e)" "v_dek v2 = v_dek v"
    using get l(3,4) by (auto simp: store_op_eq)
  have "sabs (v_store v) (snd an) = Some (stored_sealed stored)" using st.get_ok [OF assms(2) s(1)] by blast
  then show ?thesis using l dec s(2) by (auto simp: stored_sealed_def)
qed

lemma access_opens:
  assumes "access_secret B i host peer v = (Inr g, w)" and "sec n p v"
    and "map_of (v_leases v) i = Some l" and "l_secret_name l = n"
  shows "from_utf8 p = Some (guard_value g)"
proof -
  have "sinv (v_store v)" using assms(2) by (simp add: secure_def)
  from access_secret_value [OF assms(1) this] assms(3,4) obtain sealed where
    s: "sabs (v_store v) n = Some sealed" "open_sealed (be_aead B) (v_dek v) sealed = Inr (guard_value g)" by auto
  then show ?thesis using assms(2)
    by (auto simp: secure_def opens_to_def open_sealed_def ok_or_def split: option.splits)
qed

text \<open>A stored secret comes back as it was stored, after any harmless calls.\<close>

lemma stored_secret_comes_back:
  assumes "store_secret B n p kind desc peer v = (Inr md, v1)"
    and "sinv (v_store v)" "ainv (v_audit v)" "kinv (v_key_source v)" "key_held holds v"
    and "aead_correct (be_aead B)"
    and "run B v1 tr w" and "\<forall>x\<in>set tr. harmless n x"
    and "access_secret B i host pr w = (Inr g, w')" and "map_of (v_leases w) i = Some l" and "l_secret_name l = n"
  shows "from_utf8 p = Some (guard_value g)"
proof -
  have "v_key_source v1 = v_key_source v"
    using assms(1) by (auto simp: store_secret_def try_op_Inr encrypt_def on_env_def store_op_eq audit_event_eq
        split: option.splits prod.splits)
  then have "sec n p v1"
    using store_secret_ok [OF assms(1-3,6)] assms(4,5) by (auto simp: secure_def opens_to_def key_held_def)
  from access_opens [OF assms(9) run_sec [OF assms(7,8) this assms(6)] assms(10,11)] show ?thesis .
qed

end

section \<open>The vault over SQLite\<close>

text \<open>
  The vault as the server binary assembles it: the SQLite store and the tracing log, with
  any of the key sources.
\<close>

definition sqlite_vault ::
  "'k KeySource \<Rightarrow> store_codec \<Rightarrow> audit_codec \<Rightarrow> aead \<Rightarrow> (uuid \<Rightarrow> string) \<Rightarrow>
    ('k, secret_row list, TracedEvent list) backends" where
  "sqlite_vault keys sc ac c us =
     \<lparr>be_keys = keys, be_store = RusqliteStore sc, be_audit = TracingAuditLog ac, be_aead = c, be_us = us\<rparr>"

lemma sqlite_vault_sel [simp]:
  "be_keys (sqlite_vault keys sc ac c us) = keys"
  "be_store (sqlite_vault keys sc ac c us) = RusqliteStore sc"
  "be_audit (sqlite_vault keys sc ac c us) = TracingAuditLog ac"
  "be_aead (sqlite_vault keys sc ac c us) = c"
  by (simp_all add: sqlite_vault_def)

interpretation kms_vault: vault_backends "sqlite_vault (KmsKeySource api self) sc ac c us"
  sqlite_abs "sqlite_inv sc" sqlite_readable "\<lambda>log. log" "tracing_view ac" "\<lambda>_. True"
  "kms_holds api self" "\<lambda>_. kms_correct api" for api self sc ac c us
  unfolding vault_backends_def sqlite_vault_sel
  using sqlite.secret_store_axioms tracing.audit_log_axioms kms.key_source_axioms by blast

interpretation env_vault: vault_backends "sqlite_vault (EnvVarSource var) sc ac c us"
  sqlite_abs "sqlite_inv sc" sqlite_readable "\<lambda>log. log" "tracing_view ac" "\<lambda>_. True"
  "env_holds var" "env_inv var" for var sc ac c us
  unfolding vault_backends_def sqlite_vault_sel
  using sqlite.secret_store_axioms tracing.audit_log_axioms env_var.key_source_axioms by blast

interpretation keychain_vault: vault_backends "sqlite_vault (KeychainSource kr srv acc) sc ac c us"
  sqlite_abs "sqlite_inv sc" sqlite_readable "\<lambda>log. log" "tracing_view ac" "\<lambda>_. True"
  "keyring_holds kr srv acc" "\<lambda>_. keyring_correct kr" for kr srv acc sc ac c us
  unfolding vault_backends_def sqlite_vault_sel
  using sqlite.secret_store_axioms tracing.audit_log_axioms keychain.key_source_axioms by blast

end
