(* ===== verification/Vault_Integrity.thy ===== *)
theory Vault_Integrity
  imports Vault_Contracts
begin

text \<open>
  The contract lemmas of the vault at the backends the server assembles: what was stored
  is what an access returns, across any calls and key rotations, and what a rotation does
  to the stored secrets with a key source that can rotate (KMS) and with one that cannot
  (an environment variable).
\<close>

section \<open>Stored secrets come back\<close>

text \<open>
  C2: end-to-end integrity of a secret. A vault over SQLite and KMS stores a secret; then any
  sequence of calls follows in which the secret is not deleted and no key rotation reports
  an error (successful rotations and reloads of the key are allowed). Every access that
  succeeds through a lease on that secret returns the text that was stored.
\<close>

theorem secret_integrity:
  fixes api self sc ac c us
  defines "B \<equiv> sqlite_vault (KmsKeySource api self) sc ac c us"
  assumes "kms_correct api" and "aead_correct c"
    and "sqlite_inv sc (v_store v)" and "key_held (kms_holds api self) v"
    and "store_secret B name plaintext kind desc peer v = (Inr md, v1)"
    and "run B v1 tr w" and "\<forall>x\<in>set tr. harmless name x"
    and "access_secret B i host pr w = (Inr g, w')"
    and "map_of (v_leases w) i = Some l" and "l_secret_name l = name"
  shows "from_utf8 plaintext = Some (guard_value g)"
  using kms_vault.stored_secret_comes_back [OF assms(6) [unfolded B_def] assms(4) _ assms(2,5) _
      assms(7) [unfolded B_def] assms(8) assms(9) [unfolded B_def] assms(10,11)] assms(3) by simp

section \<open>Key rotation\<close>



section \<open>Closed runs\<close>

text \<open>Collaborators for closed runs: a KMS that returns what it is given, and a constant codec.\<close>

definition mirror_kms :: kms_api where
  "mirror_kms = \<lparr>kms_encrypt = (\<lambda>_ p _. Inr (Some p)), kms_decrypt = (\<lambda>_ c _. Inr (Some c)), fs_torn = (\<lambda>f _ _. f)\<rparr>"

definition demo_kms :: KmsSource where
  "demo_kms = \<lparr>kms_key_id = ''k'', encrypted_dek_path = ''p'', path_has_parent = False\<rparr>"

definition plain_audit_codec :: audit_codec where
  "plain_audit_codec =
     \<lparr>event_to_json = (\<lambda>_. Inr ''event''), event_of_json = (\<lambda>_. Inl ''unused''),
      outcome_to_json = (\<lambda>_. Inr ''outcome''), outcome_of_json = (\<lambda>_. Inl ''unused''),
      uuid_to_string = (\<lambda>_. ''id''), uuid_parse = (\<lambda>_. Inl ''unused''), show_timestamp = (\<lambda>_. ''now''),
      to_rfc3339 = (\<lambda>_. ''now''), parse_rfc3339 = (\<lambda>_. Inl ''unused'')\<rparr>"

abbreviation "kms_backends \<equiv>
  sqlite_vault (KmsKeySource mirror_kms demo_kms) unary_codec plain_audit_codec tag_aead (\<lambda>_. ''id'')"

abbreviation "env_backends \<equiv>
  sqlite_vault (EnvVarSource ''DEK'') unary_codec plain_audit_codec tag_aead (\<lambda>_. ''id'')"

definition kms1 :: "(bytes option, secret_row list, TracedEvent list) vault" where
  "kms1 = snd (initialize kms_backends (fresh_vault 3 None [] [] demo_policy Aes256Gcm sample_env))"

definition "kms2 = snd (store_secret kms_backends demo_name [112, 119] Pat None Anonymous kms1)"
definition "kms3 = snd (exec kms_backends (C_rotate_dek Anonymous) kms2)"
definition "kms4 = snd (exec kms_backends demo_request kms3)"

lemma mirror_kms_correct: "kms_correct mirror_kms"
  by (simp add: kms_correct_def mirror_kms_def)

lemma kms1_ok:
  "sqlite_inv unary_codec (v_store kms1)" "key_held (kms_holds mirror_kms demo_kms) kms1"
proof -
  have "v_store kms1 = []" by code_simp
  then show "sqlite_inv unary_codec (v_store kms1)" by (simp add: sqlite_inv_def unary_codec_ok)
  have "v_dek kms1 = Some demo_key" "v_key_source kms1 = Some (replicate 32 0)" by code_simp+
  then show "key_held (kms_holds mirror_kms demo_kms) kms1"
    by (simp add: key_held_def kms_holds_def mirror_kms_def demo_key_def)
qed

definition kms_grant :: LeaseGrant where
  "kms_grant = \<lparr>grant_lease_id = LeaseId 26, grant_secret_name = demo_name,
     grant_allowed_domains = [DomainScope ''*.a.net''], grant_expires_at = 300000000025,
     grant_renewable = False, grant_remaining_uses = Some 1\<rparr>"

lemma ok_run: "is_ok (fst x) \<Longrightarrow> \<exists>y. x = (Inr y, snd x)"
  by (cases x; cases "fst x") auto

lemma kms_calls:
  "\<exists>md. store_secret kms_backends demo_name [112, 119] Pat None Anonymous kms1 = (Inr md, kms2)"
  "exec kms_backends (C_rotate_dek Anonymous) kms2 = (R_unit, kms3)"
  "exec kms_backends demo_request kms3 = (R_granted kms_grant, kms4)"
proof -
  have "is_ok (fst (store_secret kms_backends demo_name [112, 119] Pat None Anonymous kms1))" by code_simp
  then show "\<exists>md. store_secret kms_backends demo_name [112, 119] Pat None Anonymous kms1 = (Inr md, kms2)"
    unfolding kms2_def by (rule ok_run)
  have "fst (exec kms_backends (C_rotate_dek Anonymous) kms2) = R_unit" by code_simp
  then show "exec kms_backends (C_rotate_dek Anonymous) kms2 = (R_unit, kms3)"
    unfolding kms3_def by (metis prod.collapse)
  have "fst (exec kms_backends demo_request kms3) = R_granted kms_grant" by code_simp
  then show "exec kms_backends demo_request kms3 = (R_granted kms_grant, kms4)"
    unfolding kms4_def by (metis prod.collapse)
qed

lemma kms_run:
  "run kms_backends kms2 [(C_rotate_dek Anonymous, R_unit), (demo_request, R_granted kms_grant)] kms4"
  using run_snoc [OF run_snoc [OF run_nil kms_calls(2)] kms_calls(3)] by simp

theorem secret_integrity_witness:
  "\<exists>g w'. access_secret kms_backends (LeaseId 26) ''x.a.net'' Anonymous kms4 = (Inr g, w') \<and>
     from_utf8 [112, 119] = Some (guard_value g)"
proof -
  obtain md where store: "store_secret kms_backends demo_name [112, 119] Pat None Anonymous kms1 = (Inr md, kms2)"
    using kms_calls(1) by blast
  have "is_ok (fst (access_secret kms_backends (LeaseId 26) ''x.a.net'' Anonymous kms4))" by code_simp
  then obtain g w' where access: "access_secret kms_backends (LeaseId 26) ''x.a.net'' Anonymous kms4 = (Inr g, w')"
    using ok_run by blast
  have "map_option l_secret_name (map_of (v_leases kms4) (LeaseId 26)) = Some demo_name" by code_simp
  then obtain l where lease: "map_of (v_leases kms4) (LeaseId 26) = Some l" "l_secret_name l = demo_name" by auto
  have "\<forall>x\<in>set [(C_rotate_dek Anonymous, R_unit), (demo_request, R_granted kms_grant)]. harmless demo_name x"
    by (simp add: harmless_def)
  from secret_integrity [OF mirror_kms_correct tag_aead_correct(1) kms1_ok store kms_run this access lease] access
  show ?thesis by blast
qed


text \<open>
  The environment variable holds the zero key; the vault stores one secret, reads it through
  a lease, then a rotation fails and a second lease no longer opens the secret.
\<close>

definition env1 :: "(string \<Rightarrow> string option, secret_row list, TracedEvent list) vault" where
  "env1 = snd (store_secret env_backends demo_name [112, 119] Pat None Anonymous
     (snd (initialize env_backends
       (fresh_vault 3 [''DEK'' \<mapsto> replicate 64 CHR ''0''] [] [] demo_policy Aes256Gcm sample_env))))"

definition "env2 = snd (rotate_dek env_backends Anonymous env1)"

lemma env_rotation:
  "rotate_dek env_backends Anonymous env1 =
     (Inl (KeySourceUnavailable ''cannot rotate an env-var key source; set a new value and restart''), env2)"
proof -
  have "fst (rotate_dek env_backends Anonymous env1) =
     Inl (KeySourceUnavailable ''cannot rotate an env-var key source; set a new value and restart'')" by code_simp
  then show ?thesis unfolding env2_def by (metis prod.collapse)
qed


text \<open>
  The loss is visible to clients. In the closed run, a lease granted before the failed
  rotation opens the secret, and one granted after it gets a decryption error.
\<close>

theorem env_rotation_loses_secret:
  "fst (access_secret env_backends (LeaseId 9) ''x.a.net'' Anonymous (snd (exec env_backends demo_request env1))) =
     Inr (LeaseGuard_new (LeaseId 9) ''pw'') \<and>
   fst (access_secret env_backends (LeaseId 19) ''x.a.net'' Anonymous (snd (exec env_backends demo_request env2))) =
     Inl DecryptionFailed"
  by (rule conjI) code_simp+

end
