(* ===== verification/Git_Credential.thy ===== *)
theory Git_Credential
  imports Provision Connect_Proxy Vault_Integrity
begin

text \<open>
  The git credential helper (\<^verbatim>\<open>crates/zerolease-agent/src/git_credential.rs\<close> and
  \<^verbatim>\<open>cmd_credential_fill\<close> of \<^verbatim>\<open>main.rs\<close>): parsing the request on standard input, looking up
  the host, leasing and reading the secret, and the answer on standard output.
\<close>

section \<open>Requests\<close>

record CredentialRequest =
  cr_protocol :: "string option"
  cr_host :: "string option"
  cr_path :: "string option"
  cr_username :: "string option"

definition default_request :: CredentialRequest where
  "default_request = \<lparr>cr_protocol = None, cr_host = None, cr_path = None, cr_username = None\<rparr>"

definition set_field :: "string \<Rightarrow> CredentialRequest \<Rightarrow> CredentialRequest" where
  "set_field trimmed req =
     (case split_once (CHR ''='') trimmed of
        None \<Rightarrow> req
      | Some (key, v) \<Rightarrow>
          if key = ''protocol'' then req\<lparr>cr_protocol := Some v\<rparr>
          else if key = ''host'' then req\<lparr>cr_host := Some v\<rparr>
          else if key = ''path'' then req\<lparr>cr_path := Some v\<rparr>
          else if key = ''username'' then req\<lparr>cr_username := Some v\<rparr>
          else req)"

lemma take_line_length: "take_line bs = (l, r) \<Longrightarrow> length bs = length l + length r"
  by (induction bs arbitrary: l r) (auto split: if_splits prod.splits)

lemma read_line_shrinks:
  "read_line r = (Inr line, r') \<Longrightarrow> line \<noteq> [] \<Longrightarrow> length (rd_bytes r') < length (rd_bytes r)"
  by (auto simp: read_line_def from_utf8_def of_bytes_def dest!: take_line_length split: prod.splits if_splits)

function parse_request :: "CredentialRequest \<Rightarrow> reader \<Rightarrow> (io_error + CredentialRequest) \<times> reader" where
  "parse_request req rd =
     (case read_line rd of
        (Inl e, rd') \<Rightarrow> (Inl e, rd')
      | (Inr line, rd') \<Rightarrow>
          if line = [] \<or> trim line = [] then (Inr req, rd')
          else parse_request (set_field (trim line) req) rd')"
  by pat_completeness auto
termination
  by (relation "measure (\<lambda>(req, rd). length (rd_bytes rd))") (auto dest!: sym [of "(_, _)" "read_line _"] read_line_shrinks)

declare parse_request.simps [simp del]

section \<open>Answers\<close>

text \<open>\<^verbatim>\<open>writeln!\<close> of a line, whose error is an I/O error.\<close>

definition writeln :: "string \<Rightarrow> (writer, io_error, unit) op" where
  "writeln s = map_err Os (write_all (as_bytes (s @ newline)))"

definition write_credential :: "string \<Rightarrow> string \<Rightarrow> (writer, io_error, unit) op" where
  "write_credential username password =
     try_op (writeln (''username='' @ username)) (\<lambda>_.
     try_op (writeln (''password='' @ password)) (\<lambda>_.
     try_op (writeln []) (\<lambda>_.
     map_err Os flush)))"

datatype fill_error = FillVault Error | FillIo io_error

text \<open>\<open>connected\<close> is the client of the connection made when it is needed, or the error.\<close>

definition handle_get ::
  "'c vault_client \<Rightarrow> Error + 'c \<Rightarrow> CredentialRequest \<Rightarrow> (string \<times> string \<times> string) list \<Rightarrow>
    writer \<Rightarrow> (fill_error + bool) \<times> writer \<times> 'c option" where
  "handle_get vc connected request host_map out =
     (case cr_host request of
        None \<Rightarrow> (Inr False, out, None)
      | Some host \<Rightarrow>
     (case map_of host_map host of
        None \<Rightarrow> (Inr False, out, None)
      | Some (secret_name, target_domain) \<Rightarrow>
     (case connected of
        Inl e \<Rightarrow> (Inl (FillVault e), out, None)
      | Inr c \<Rightarrow>
     (case vc_request_lease vc ''credential-helper'' secret_name target_domain c of
        (Inl e, c1) \<Rightarrow> (Inl (FillVault e), out, Some c1)
      | (Inr grant, c1) \<Rightarrow>
     (case vc_access_secret vc (lid_uuid (grant_lease_id grant)) target_domain c1 of
        (Inl e, c2) \<Rightarrow> (Inl (FillVault e), out, Some c2)
      | (Inr secret_bytes, c2) \<Rightarrow>
     (case from_utf8 secret_bytes of
        None \<Rightarrow> (Inl (FillIo (InvalidData ''secret is not UTF-8'')), out, Some c2)
      | Some secret \<Rightarrow>
     (case write_credential ''x-access-token'' secret out of
        (Inl e, out') \<Rightarrow> (Inl (FillIo e), out', Some c2)
      | (Inr _, out') \<Rightarrow> (Inr True, out', Some c2))))))))"

text \<open>
  The command; the parsed address variable and the token variable are arguments, the exit
  code is a truth value.
\<close>

definition cmd_credential_fill ::
  "agent_sys \<Rightarrow> 'c vault_client \<Rightarrow> (string \<Rightarrow> string \<Rightarrow> Error + 'c) \<Rightarrow> string \<Rightarrow> path \<Rightarrow> string option \<Rightarrow> string option \<Rightarrow>
    reader \<Rightarrow> files \<times> env \<Rightarrow> writer \<Rightarrow> bool \<times> writer" where
  "cmd_credential_fill S vc connect_to operation manifest_path vault_addr token stdin fs out =
     (if operation \<noteq> ''get'' then (True, out)
      else case parse_request default_request stdin of
        (Inl _, _) \<Rightarrow> (False, out)
      | (Inr request, _) \<Rightarrow>
     (case vault_addr of
        None \<Rightarrow> (False, out)
      | Some addr \<Rightarrow>
     (case token of
        None \<Rightarrow> (False, out)
      | Some t \<Rightarrow>
     (case manifest_from_file (as_manifest S) manifest_path fs of
        (Inl _, _) \<Rightarrow> (False, out)
      | (Inr manifest, _) \<Rightarrow>
     (case handle_get vc (connect_to addr t) request (git_host_map manifest) out of
        (Inr _, out', _) \<Rightarrow> (True, out')
      | (Inl _, out', _) \<Rightarrow> (False, out'))))))"

section \<open>Lemmas\<close>

text \<open>The host map holds for each host the last entry of the manifest that names it.\<close>

fun last_for_host :: "string \<Rightarrow> CredentialManifest \<Rightarrow> (string \<times> string) option" where
  "last_for_host h [] = None"
| "last_for_host h (e # es) =
     (case last_for_host h es of
        Some v \<Rightarrow> Some v
      | None \<Rightarrow> if GitCredential h \<in> set (ce_inject e) then Some (ce_secret_name e, ce_target_domain e) else None)"

lemma map_of_insert_hosts:
  "map_of (insert_hosts v ms hosts) h = (if GitCredential h \<in> set ms then Some v else map_of hosts h)"
  by (induction v ms hosts rule: insert_hosts.induct) (auto simp: update_conv')

lemma map_of_fold_hosts:
  "map_of (fold (\<lambda>entry. insert_hosts (ce_secret_name entry, ce_target_domain entry) (ce_inject entry)) es hosts) h =
     (case last_for_host h es of Some v \<Rightarrow> Some v | None \<Rightarrow> map_of hosts h)"
  by (induction es arbitrary: hosts) (auto simp: map_of_insert_hosts split: option.splits)

lemma git_host_map_lookup: "map_of (git_host_map m) h = last_for_host h m"
  by (simp add: git_host_map_def map_of_fold_hosts split: option.splits)

lemma writeln_bytes: "writeln s w = (Inr x, w') \<Longrightarrow> wr_bytes w' = wr_bytes w @ as_bytes (s @ newline)"
  by (auto simp: writeln_def map_err_def write_all_def split: prod.splits sum.splits option.splits if_splits)

lemma flush_bytes: "map_err f flush w = (Inr x, w') \<Longrightarrow> w' = w"
  by (auto simp: map_err_def flush_def split: option.splits)

lemma write_credential_bytes:
  "write_credential u p w = (Inr x, w') \<Longrightarrow>
    wr_bytes w' = wr_bytes w @ as_bytes (''username='' @ u @ newline @ ''password='' @ p @ newline @ newline)"
  unfolding write_credential_def try_op_Inr
  by (elim exE conjE) (drule writeln_bytes flush_bytes; simp add: as_bytes_def)+

text \<open>
  Nothing is printed unless the manifest maps the host, and what is printed as the password is
  the secret the client read for the last entry of the host.
\<close>

lemma handle_get_True:
  assumes "handle_get vc (Inr c) req (git_host_map m) out = (Inr True, out', c')"
  obtains host name domain grant c1 c2 bs secret where "cr_host req = Some host"
    "last_for_host host m = Some (name, domain)"
    "vc_request_lease vc ''credential-helper'' name domain c = (Inr grant, c1)"
    "vc_access_secret vc (lid_uuid (grant_lease_id grant)) domain c1 = (Inr bs, c2)"
    "from_utf8 bs = Some secret"
    "wr_bytes out' = wr_bytes out @
      as_bytes (''username=x-access-token'' @ newline @ ''password='' @ secret @ newline @ newline)"
  using assms by (auto simp: handle_get_def git_host_map_lookup dest!: write_credential_bytes
      split: option.splits sum.splits prod.splits)

lemma direct_access:
  "vc_access_secret (direct_client B peer) i host v = (Inr bs, v') \<Longrightarrow>
    \<exists>g. access_secret B (LeaseId i) host peer v = (Inr g, v') \<and> bs = as_bytes (guard_value g)"
  by (auto simp: direct_client_def try_op_Inr ok_def expose_def)

text \<open>
  A request of \<open>key=value\<close> lines ended by an empty line is read line by line, the later of two
  lines with the same key deciding, and what follows the empty line is left unread.
\<close>

lemma take_line_line: "10 \<notin> set bs \<Longrightarrow> take_line (bs @ 10 # rest) = (bs @ [10], rest)"
  by (induction bs) auto

lemma newline_in_bytes: "10 \<in> set (as_bytes l) \<Longrightarrow> CHR 0x0A \<in> set l"
proof -
  assume "10 \<in> set (as_bytes l)"
  then have "char_of (unat (10::u8)) \<in> set (of_bytes (as_bytes l))"
    unfolding of_bytes_def set_map by (rule imageI)
  moreover have "char_of (unat (10::u8)) = CHR 0x0A" by code_simp
  ultimately show ?thesis by simp
qed

definition request_line :: "string \<Rightarrow> bool" where
  "request_line l \<longleftrightarrow> CHR 0x0A \<notin> set l \<and> utf8_valid (as_bytes (l @ newline)) \<and> trim (l @ newline) \<noteq> []"

lemma newline_bytes: "as_bytes newline = [10]"
  by code_simp

lemma read_line_request:
  assumes "request_line l" "rd_bytes rd = as_bytes (l @ newline) @ rest"
  shows "read_line rd = (Inr (l @ newline), rd\<lparr>rd_bytes := rest\<rparr>)"
proof -
  have "10 \<notin> set (as_bytes l)" using assms(1) newline_in_bytes by (auto simp: request_line_def)
  then have "take_line (rd_bytes rd) = (as_bytes (l @ newline), rest)"
    using take_line_line [of "as_bytes l" rest] by (simp add: assms(2) newline_bytes)
  then show ?thesis using assms(1) from_utf8_as_bytes [of "l @ newline"]
    by (simp add: read_line_def request_line_def newline_bytes)
qed

lemma parse_request_lines:
  assumes "list_all request_line ls" "rd_bytes rd = concat (map (\<lambda>l. as_bytes (l @ newline)) ls) @ 10 # rest"
  shows "parse_request req rd = (Inr (fold (\<lambda>l. set_field (trim (l @ newline))) ls req), rd\<lparr>rd_bytes := rest\<rparr>)"
  using assms
proof (induction ls arbitrary: req rd)
  case Nil
  have "trim newline = []" "from_utf8 [10] = Some newline" by code_simp+
  then show ?case using Nil by (simp add: parse_request.simps read_line_def)
next
  case (Cons l ls)
  let ?rest = "concat (map (\<lambda>l. as_bytes (l @ newline)) ls) @ 10 # rest"
  have "read_line rd = (Inr (l @ newline), rd\<lparr>rd_bytes := ?rest\<rparr>)"
    using Cons.prems by (intro read_line_request) simp_all
  moreover have "newline \<noteq> []" by (simp add: newline_def)
  ultimately show ?case
    using Cons.prems(1) Cons.IH [of "rd\<lparr>rd_bytes := ?rest\<rparr>" "set_field (trim (l @ newline)) req"]
    by (simp add: parse_request.simps [of req rd] request_line_def)
qed

text \<open>The command prints nothing unless git asks to get a credential of a host in the manifest.\<close>

lemma cmd_credential_fill_silent:
  assumes "cmd_credential_fill S vc connect_to operation path addr token stdin fs out = (b, out')" "out' \<noteq> out"
  shows "operation = ''get'' \<and> (\<exists>request rd m x host v. parse_request default_request stdin = (Inr request, rd) \<and>
    manifest_from_file (as_manifest S) path fs = (Inr m, x) \<and> cr_host request = Some host \<and> last_for_host host m = Some v)"
  using assms by (auto simp: cmd_credential_fill_def handle_get_def git_host_map_lookup
      split: if_splits prod.splits sum.splits option.splits)

section \<open>Properties\<close>


text \<open>A vault that permits every agent the domain of a manifest, with one secret stored in it.\<close>

definition helper_manifest :: CredentialManifest where
  "helper_manifest =
     [\<lparr>ce_secret_name = ''old'', ce_target_domain = ''b.net'', ce_inject = [GitCredential ''h'']\<rparr>,
      \<lparr>ce_secret_name = ''t'', ce_target_domain = ''a.net'', ce_inject = [Env ''T'', GitCredential ''h'']\<rparr>]"

definition helper_out :: writer where
  "helper_out = \<lparr>wr_bytes = [], wr_room = None, wr_flush_error = None\<rparr>"

definition "helper_request = \<lparr>cr_protocol = Some ''https'', cr_host = Some ''h'', cr_path = None, cr_username = None\<rparr>"

definition helper1 :: "(bytes option, secret_row list, TracedEvent list) vault" where
  "helper1 = snd (initialize kms_backends (fresh_vault 3 None [] [] (v_policy demo_vault) Aes256Gcm sample_env))"

definition "helper2 = snd (store_secret kms_backends demo_name [112, 119] Pat None Anonymous helper1)"

lemma helper1_ok:
  "sqlite_inv unary_codec (v_store helper1)" "key_held (kms_holds mirror_kms demo_kms) helper1"
proof -
  have "v_store helper1 = []" by code_simp
  then show "sqlite_inv unary_codec (v_store helper1)" by (simp add: sqlite_inv_def unary_codec_ok)
  have "v_dek helper1 = Some demo_key" "v_key_source helper1 = Some (replicate 32 0)" by code_simp+
  then show "key_held (kms_holds mirror_kms demo_kms) helper1"
    by (simp add: key_held_def kms_holds_def mirror_kms_def demo_key_def)
qed

lemma helper_parses:
  "fst (parse_request default_request
     \<lparr>rd_bytes = as_bytes (''protocol=https'' @ newline @ ''host=h'' @ newline @ newline @ ''rest''), rd_error = None\<rparr>) =
     Inr helper_request"
  by code_simp


end
