(* ===== verification/Provider.thy ===== *)
theory Provider
  imports Provision
begin

text \<open>
  The credential provider for tools (\<^verbatim>\<open>crates/zerolease-provider/src\<close>): the guard that hands out
  a secret and asks for the revocation of its lease when it is dropped, the provider backed by a
  vault with its bounded revocation channel and the worker that empties it, and the static
  provider. Acquisitions, drops and steps of the worker interleave as steps of a transition
  relation.
\<close>

section \<open>Requests, errors and guards\<close>

record ProviderRequest =
  prq_secret_name :: SecretName
  prq_target_domain :: DomainScope
  prq_agent_id :: AgentId
  prq_session_token :: "SessionToken option"
  prq_tool_name :: "string option"

datatype ProviderError = Unavailable string | ConnectionFailed string | InvalidUtf8

fun show_ProviderError :: "ProviderError \<Rightarrow> string" where
  "show_ProviderError (Unavailable m) = ''credential unavailable: '' @ m"
| "show_ProviderError (ConnectionFailed m) = ''vault connection failed: '' @ m"
| "show_ProviderError InvalidUtf8 = ''credential is not valid UTF-8''"

text \<open>The last field says whether the guard still holds the sending end of the channel.\<close>

record CredentialGuard =
  cg_secret :: string
  cg_lease_id :: uuid
  cg_target_domain :: DomainScope
  cg_revoke_tx :: bool

definition CredentialGuard_new :: "string \<Rightarrow> uuid \<Rightarrow> DomainScope \<Rightarrow> CredentialGuard" where
  "CredentialGuard_new secret lease_id target_domain =
     \<lparr>cg_secret = secret, cg_lease_id = lease_id, cg_target_domain = target_domain, cg_revoke_tx = True\<rparr>"

definition new_static :: "string \<Rightarrow> DomainScope \<Rightarrow> env \<Rightarrow> CredentialGuard \<times> env" where
  "new_static secret target_domain e =
     (case uuid_now_v7 e of (u, e') \<Rightarrow>
        (\<lparr>cg_secret = secret, cg_lease_id = u, cg_target_domain = target_domain, cg_revoke_tx = False\<rparr>, e'))"

definition expose_credential :: "CredentialGuard \<Rightarrow> (string \<Rightarrow> 'r) \<Rightarrow> 'r" where
  "expose_credential g f = f (cg_secret g)"

text \<open>\<^verbatim>\<open>Debug\<close> for a guard; the forms of a UUID and a domain are those of their own instances.\<close>

definition debug_CredentialGuard :: "(uuid \<Rightarrow> string) \<Rightarrow> (DomainScope \<Rightarrow> string) \<Rightarrow> CredentialGuard \<Rightarrow> string" where
  "debug_CredentialGuard us ds g =
     ''CredentialGuard { lease_id: '' @ us (cg_lease_id g) @ '', target_domain: '' @ ds (cg_target_domain g) @
     '', secret: '' @ [CHR 0x22] @ ''[REDACTED]'' @ [CHR 0x22] @ '' }''"

section \<open>The revocation channel\<close>

text \<open>The capacity of the channel and \<^verbatim>\<open>try_send\<close>: a full channel refuses.\<close>

definition REVOKE_CHANNEL :: nat where
  "REVOKE_CHANNEL = 64"

definition try_send :: "uuid \<Rightarrow> uuid list \<Rightarrow> bool \<times> uuid list" where
  "try_send i queue = (if length queue < REVOKE_CHANNEL then (True, queue @ [i]) else (False, queue))"

definition drop_guard :: "CredentialGuard \<Rightarrow> uuid list \<Rightarrow> bool \<times> uuid list" where
  "drop_guard g queue = (if cg_revoke_tx g then try_send (cg_lease_id g) queue else (True, queue))"

section \<open>The provider backed by a vault\<close>

text \<open>
  \<open>open_conn\<close> is the outcome of connecting to the vault's socket, which each acquisition and
  each revocation does anew.
\<close>

definition acquire ::
  "(uuid \<Rightarrow> string) \<Rightarrow> 'c vault_client \<Rightarrow> ('c \<Rightarrow> Error + unit) \<Rightarrow> ProviderRequest \<Rightarrow> ('c, ProviderError, CredentialGuard) op" where
  "acquire us vc open_conn request c =
     (case open_conn c of
        Inl e \<Rightarrow> (Inl (ConnectionFailed (show_Error us e)), c)
      | Inr _ \<Rightarrow>
     (case vc_request_lease vc (agent_str (prq_agent_id request)) (name_str (prq_secret_name request))
             (domain_str (prq_target_domain request)) c of
        (Inl e, c1) \<Rightarrow> (Inl (Unavailable (show_Error us e)), c1)
      | (Inr grant, c1) \<Rightarrow>
     (case vc_access_secret vc (lid_uuid (grant_lease_id grant)) (domain_str (prq_target_domain request)) c1 of
        (Inl e, c2) \<Rightarrow> (Inl (Unavailable (show_Error us e)), c2)
      | (Inr secret_bytes, c2) \<Rightarrow>
     (case from_utf8 secret_bytes of
        None \<Rightarrow> (Inl InvalidUtf8, c2)
      | Some s \<Rightarrow> (Inr (CredentialGuard_new s (lid_uuid (grant_lease_id grant)) (prq_target_domain request)), c2)))))"

text \<open>
  The worker on one received lease: whether the vault could be reached; an error of the
  revocation itself is only logged.
\<close>

definition revoke_received :: "'c vault_client \<Rightarrow> ('c \<Rightarrow> Error + unit) \<Rightarrow> uuid \<Rightarrow> 'c \<Rightarrow> bool \<times> 'c" where
  "revoke_received vc open_conn i c =
     (case open_conn c of
        Inl _ \<Rightarrow> (False, c)
      | Inr _ \<Rightarrow> (True, snd (vc_revoke_lease vc i AdminRevoked c)))"

section \<open>The static provider\<close>

type_synonym StaticProvider = "(SecretName \<times> string) list"

definition insert_credential :: "SecretName \<Rightarrow> string \<Rightarrow> StaticProvider \<Rightarrow> StaticProvider" where
  "insert_credential name v p = AList.update name v p"

definition static_acquire :: "StaticProvider \<Rightarrow> ProviderRequest \<Rightarrow> (env, ProviderError, CredentialGuard) op" where
  "static_acquire p request e =
     (case map_of p (prq_secret_name request) of
        None \<Rightarrow> (Inl (Unavailable (''no such secret: '' @ name_str (prq_secret_name request))), e)
      | Some secret \<Rightarrow> (case new_static secret (prq_target_domain request) e of (g, e') \<Rightarrow> (Inr g, e')))"

section \<open>Runs\<close>

record 'c provider_world =
  pw_client :: 'c
  pw_queue :: "uuid list"
  pw_guards :: "CredentialGuard list"

datatype provider_event =
    Acquired ProviderRequest "ProviderError + CredentialGuard"
  | Dropped CredentialGuard bool
  | Worked uuid bool

inductive provider_step ::
  "(uuid \<Rightarrow> string) \<Rightarrow> 'c vault_client \<Rightarrow> ('c \<Rightarrow> Error + unit) \<Rightarrow> 'c provider_world \<Rightarrow> provider_event \<Rightarrow> 'c provider_world \<Rightarrow> bool"
  for us vc open_conn where
  acquires: "acquire us vc open_conn request (pw_client p) = (r, c) \<Longrightarrow>
    provider_step us vc open_conn p (Acquired request r)
      (p\<lparr>pw_client := c, pw_guards := (case r of Inl _ \<Rightarrow> [] | Inr g \<Rightarrow> [g]) @ pw_guards p\<rparr>)"
| drops: "g \<in> set (pw_guards p) \<Longrightarrow> drop_guard g (pw_queue p) = (sent, queue) \<Longrightarrow>
    provider_step us vc open_conn p (Dropped g sent) (p\<lparr>pw_queue := queue, pw_guards := remove1 g (pw_guards p)\<rparr>)"
| works: "pw_queue p = i # queue \<Longrightarrow> revoke_received vc open_conn i (pw_client p) = (reached, c) \<Longrightarrow>
    provider_step us vc open_conn p (Worked i reached) (p\<lparr>pw_client := c, pw_queue := queue\<rparr>)"

inductive provider_run ::
  "(uuid \<Rightarrow> string) \<Rightarrow> 'c vault_client \<Rightarrow> ('c \<Rightarrow> Error + unit) \<Rightarrow> 'c provider_world \<Rightarrow> provider_event list \<Rightarrow> 'c provider_world \<Rightarrow> bool"
  for us vc open_conn p where
  run_start: "provider_run us vc open_conn p [] p"
| run_step: "provider_run us vc open_conn p tr q \<Longrightarrow> provider_step us vc open_conn q ev q' \<Longrightarrow>
    provider_run us vc open_conn p (tr @ [ev]) q'"

inductive_cases provider_stepE:
  "provider_step us vc open_conn p (Acquired request r) q"
  "provider_step us vc open_conn p (Dropped g sent) q"
  "provider_step us vc open_conn p (Worked i reached) q"

text \<open>
  A step in which no lease gets out of sight: an acquisition succeeds or does not reach the
  vault, the channel takes the lease of a dropped guard, and the worker reaches the vault.
\<close>

fun tidy :: "provider_event \<Rightarrow> bool" where
  "tidy (Acquired request r) = (case r of Inl (ConnectionFailed _) \<Rightarrow> True | Inl _ \<Rightarrow> False | Inr _ \<Rightarrow> True)"
| "tidy (Dropped g sent) = sent"
| "tidy (Worked i reached) = reached"

section \<open>Lemmas\<close>

lemma acquire_Inr:
  assumes "acquire us vc open_conn request c = (Inr g, c')"
  obtains grant c1 bs where
    "vc_request_lease vc (agent_str (prq_agent_id request)) (name_str (prq_secret_name request))
       (domain_str (prq_target_domain request)) c = (Inr grant, c1)"
    "vc_access_secret vc (lid_uuid (grant_lease_id grant)) (domain_str (prq_target_domain request)) c1 = (Inr bs, c')"
    "g = CredentialGuard_new (of_bytes bs) (lid_uuid (grant_lease_id grant)) (prq_target_domain request)"
    "utf8_valid bs"
  using assms by (auto simp: acquire_def from_utf8_def split: sum.splits prod.splits option.splits if_splits)

lemma queue_bounded_step:
  "provider_step us vc open_conn p ev q \<Longrightarrow> length (pw_queue p) \<le> REVOKE_CHANNEL \<Longrightarrow> length (pw_queue q) \<le> REVOKE_CHANNEL"
  by (cases rule: provider_step.cases) (auto simp: drop_guard_def try_send_def split: if_splits)

text \<open>The leases a provider can still see: held by a guard or waiting for the worker.\<close>

definition in_sight :: "'c provider_world \<Rightarrow> uuid set" where
  "in_sight p = cg_lease_id ` set (pw_guards p) \<union> set (pw_queue p)"

definition vault_guards :: "'c provider_world \<Rightarrow> bool" where
  "vault_guards p \<longleftrightarrow> list_all cg_revoke_tx (pw_guards p)"

context revoking_client
begin

lemma acquire_live:
  assumes "acquire us vc open_conn request c = (r, c')" "tidy (Acquired request r)"
  shows "live c' \<subseteq> live c \<union> (case r of Inl _ \<Rightarrow> {} | Inr g \<Rightarrow> {cg_lease_id g})"
    and "r = Inr g \<Longrightarrow> cg_revoke_tx g"
proof -
  show "r = Inr g \<Longrightarrow> cg_revoke_tx g"
    using assms(1) by (auto elim!: acquire_Inr simp: CredentialGuard_new_def)
  show "live c' \<subseteq> live c \<union> (case r of Inl _ \<Rightarrow> {} | Inr g \<Rightarrow> {cg_lease_id g})"
  proof (cases r)
    case (Inl e)
    then have "c' = c" using assms
      by (auto simp: acquire_def split: sum.splits prod.splits option.splits ProviderError.splits)
    then show ?thesis using Inl by simp
  next
    case (Inr g)
    then show ?thesis using assms(1)
      by (auto elim!: acquire_Inr simp: CredentialGuard_new_def dest!: request_live access_live)
  qed
qed

lemma step_live:
  assumes "provider_step us vc open_conn p ev q" "tidy ev" "vault_guards p" "live (pw_client p) \<subseteq> L \<union> in_sight p"
  shows "live (pw_client q) \<subseteq> L \<union> in_sight q \<and> vault_guards q"
  using assms
proof (cases rule: provider_step.cases)
  case (acquires request r c)
  then show ?thesis using assms(2-4) acquire_live [OF acquires(3)]
    by (cases r) (auto simp: in_sight_def vault_guards_def)
next
  case (drops g sent queue)
  have "set (pw_guards p) \<subseteq> insert g (set (remove1 g (pw_guards p)))"
    by (metis in_set_remove1 insertCI subsetI)
  then have "cg_lease_id ` set (pw_guards p) \<subseteq> insert (cg_lease_id g) (cg_lease_id ` set (remove1 g (pw_guards p)))"
    by blast
  then have "in_sight p \<subseteq> in_sight q"
    using assms(2,3) drops by (auto simp: in_sight_def vault_guards_def drop_guard_def try_send_def list_all_iff split: if_splits)
  moreover have "vault_guards q" using assms(3) drops set_remove1_subset [of g "pw_guards p"]
    by (auto simp: vault_guards_def list_all_iff)
  ultimately show ?thesis using assms(4) drops by auto
next
  case (works i queue reached c)
  have "live c \<subseteq> live (pw_client p) - {i}"
    using works assms(2) revoke_live [OF prod.collapse [symmetric], of i AdminRevoked "pw_client p"]
    by (auto simp: revoke_received_def split: sum.splits dest: subsetD)
  then show ?thesis using assms(3,4) works by (auto simp: in_sight_def vault_guards_def)
qed

lemma run_live:
  assumes "provider_run us vc open_conn p tr q" "\<forall>ev\<in>set tr. tidy ev" "pw_guards p = []" "pw_queue p = []"
  shows "live (pw_client q) \<subseteq> live (pw_client p) \<union> in_sight q \<and> vault_guards q"
  using assms
proof (induction rule: provider_run.induct)
  case run_start
  then show ?case by (simp add: in_sight_def vault_guards_def)
next
  case (run_step tr q ev q')
  then show ?case
    using step_live [OF run_step.hyps(2), of "live (pw_client p)"] by (auto simp del: Un_subset_iff)
qed

end

text \<open>A worker that reaches the vault empties the channel.\<close>

lemma worker_drains:
  assumes "\<forall>c. open_conn c = Inr ()"
  shows "\<exists>p'. provider_run us vc open_conn p (map (\<lambda>i. Worked i True) (pw_queue p)) p' \<and> pw_queue p' = [] \<and>
    pw_guards p' = pw_guards p"
proof -
  have "\<exists>p'. provider_run us vc open_conn p (map (\<lambda>i. Worked i True) before) p' \<and> pw_queue p' = left \<and>
      pw_guards p' = pw_guards p" if "pw_queue p = before @ left" for before left
    using that
  proof (induction before arbitrary: left rule: rev_induct)
    case Nil
    then show ?case using run_start by fastforce
  next
    case (snoc i js)
    then obtain p' where p': "provider_run us vc open_conn p (map (\<lambda>i. Worked i True) js) p'"
      "pw_queue p' = i # left" "pw_guards p' = pw_guards p"
      using snoc.IH [of "i # left"] by auto
    have "provider_step us vc open_conn p' (Worked i True)
        (p'\<lparr>pw_client := snd (vc_revoke_lease vc i AdminRevoked (pw_client p')), pw_queue := left\<rparr>)"
      by (rule works [OF p'(2)]) (simp add: revoke_received_def assms)
    from run_step [OF p'(1) this] p'(3) show ?case by fastforce
  qed
  from this [of "pw_queue p" "[]"] show ?thesis by simp
qed

lemma provider_run_trans:
  assumes "provider_run us vc open_conn q tr' r" "provider_run us vc open_conn p tr q"
  shows "provider_run us vc open_conn p (tr @ tr') r"
  using assms
proof (induction rule: provider_run.induct)
  case (run_step tr' r ev r')
  then show ?case using provider_run.run_step [of us vc open_conn p "tr @ tr'" r ev r'] by simp
qed simp

lemma queue_bounded:
  "provider_run us vc open_conn p tr q \<Longrightarrow> length (pw_queue p) \<le> REVOKE_CHANNEL \<Longrightarrow> length (pw_queue q) \<le> REVOKE_CHANNEL"
  by (induction rule: provider_run.induct) (auto dest: queue_bounded_step)

section \<open>Properties\<close>


text \<open>
  An acquisition that fails after its lease was granted leaves the lease to its expiry: it
  returns no guard and asks for no revocation.
\<close>

theorem failed_acquire_keeps_lease:
  assumes "open_conn c = Inr ()"
    and "vc_request_lease vc (agent_str (prq_agent_id request)) (name_str (prq_secret_name request))
      (domain_str (prq_target_domain request)) c = (Inr grant, c1)"
    and "vc_access_secret vc (lid_uuid (grant_lease_id grant)) (domain_str (prq_target_domain request)) c1 = (Inl e, c2)"
  shows "acquire us vc open_conn request c = (Inl (Unavailable (show_Error us e)), c2)"
  using assms by (simp add: acquire_def)

definition demo_tool :: ProviderRequest where
  "demo_tool =
     \<lparr>prq_secret_name = SecretName ''t'', prq_target_domain = DomainScope ''a.net'', prq_agent_id = AgentId ''provisioner'',
      prq_session_token = None, prq_tool_name = None\<rparr>"

definition "demo_provider = \<lparr>pw_client = demo_vault, pw_queue = [], pw_guards = []\<rparr>"

definition "demo_guard = CredentialGuard_new ''pw'' 1 (DomainScope ''a.net'')"

lemma demo_acquire:
  "\<exists>v. acquire us (direct_client demo_backends Anonymous) (\<lambda>_. Inr ()) demo_tool demo_vault = (Inr demo_guard, v)"
proof -
  have "grant_lease_id (LeaseGrant_from demo_granted) = LeaseId 1"
    by (simp add: LeaseGrant_from_def demo_granted_def Lease_new_eq)
  moreover have "from_utf8 (as_bytes ''pw'') = Some ''pw''" by code_simp
  ultimately show ?thesis using demo_request_run demo_access_run
    by (auto simp: acquire_def demo_tool_def direct_client_def try_op_def ok_def expose_def LeaseGuard_new_def demo_guard_def)
qed


end
