(* ===== verification/Postgres_Store.thy ===== *)
theory Postgres_Store
  imports Sqlite_Store
begin

text \<open>
  The PostgreSQL secret store (\<^verbatim>\<open>crates/zerolease-store-postgres/src/store.rs\<close>) over the table
  of \<^verbatim>\<open>sql/postgres_secrets.sql\<close>. Unlike in SQLite the time columns hold time stamps, at the
  precision of the column, and the version column is a 32-bit integer whose overflow is an
  error of the statement. Printing and parsing of UUIDs, the precision of the time columns and
  the text of the overflow error are arguments. The theory interprets the store contract.
\<close>

record pg_codec =
  pc_uuid_str :: "uuid \<Rightarrow> string"
  pc_uuid_parse :: "string \<Rightarrow> string + uuid"
  pc_column_time :: "date_time \<Rightarrow> date_time"
  pc_range_text :: string

record pg_row =
  pg_id :: string
  pg_name :: string
  pg_ciphertext :: bytes
  pg_nonce :: bytes
  pg_algorithm :: string
  pg_kind :: string
  pg_description :: "string option"
  pg_created_at :: date_time
  pg_updated_at :: date_time
  pg_version :: int

section \<open>Reading rows\<close>

definition pg_parse_id :: "pg_codec \<Rightarrow> pg_row \<Rightarrow> SecretId result" where
  "pg_parse_id c row =
     (case pc_uuid_parse c (pg_id row) of Inl m \<Rightarrow> Inl (Storage m) | Inr u \<Rightarrow> Inr (SecretId u))"

definition pg_row_to_stored_secret :: "pg_codec \<Rightarrow> pg_row \<Rightarrow> StoredSecret result" where
  "pg_row_to_stored_secret c row =
     bind_res (pg_parse_id c row) (\<lambda>i.
     bind_res (parse_cipher_algorithm (pg_algorithm row)) (\<lambda>alg.
     bind_res (parse_secret_kind (pg_kind row)) (\<lambda>kind.
     Inr \<lparr>ss_id = i, ss_name = SecretName (pg_name row), ss_ciphertext = pg_ciphertext row,
          ss_nonce = pg_nonce row, ss_algorithm = alg, ss_kind = kind,
          ss_description = pg_description row, ss_created_at = pg_created_at row,
          ss_updated_at = pg_updated_at row, ss_version = word_of_int (pg_version row)\<rparr>)))"

definition pg_row_to_metadata :: "pg_codec \<Rightarrow> pg_row \<Rightarrow> SecretMetadata result" where
  "pg_row_to_metadata c row =
     bind_res (pg_parse_id c row) (\<lambda>i.
     bind_res (parse_secret_kind (pg_kind row)) (\<lambda>kind.
     Inr \<lparr>md_id = i, md_name = SecretName (pg_name row), md_kind = kind,
          md_description = pg_description row, md_created_at = pg_created_at row,
          md_updated_at = pg_updated_at row, md_version = word_of_int (pg_version row)\<rparr>))"

section \<open>Operations\<close>

type_synonym 'x pg_op = "(pg_row list \<times> env, Error, 'x) op"

text \<open>A violation of either unique column is reported as an existing secret.\<close>

definition pg_put :: "pg_codec \<Rightarrow> StoreSecretParams \<Rightarrow> StoredSecret pg_op" where
  "pg_put c p =
     let_op (\<lambda>(rows, e). case SecretId_new e of (i, e') \<Rightarrow> (i, rows, e')) (\<lambda>i.
     let_op (\<lambda>(rows, e). case utc_now e of (t, e') \<Rightarrow> (t, rows, e')) (\<lambda>now.
     try_op (io_guard (storage_error ''insert failed: '')) (\<lambda>_.
     (\<lambda>(rows, e).
       let row = \<lparr>pg_id = pc_uuid_str c (sid_uuid i), pg_name = name_str (sp_name p),
                  pg_ciphertext = sp_ciphertext p, pg_nonce = sp_nonce p,
                  pg_algorithm = CipherAlgorithm_as_str (sp_algorithm p),
                  pg_kind = SecretKind_as_str (sp_kind p), pg_description = sp_description p,
                  pg_created_at = pc_column_time c now, pg_updated_at = pc_column_time c now, pg_version = 1\<rparr>
       in if pg_id row \<in> pg_id ` set rows \<or> pg_name row \<in> pg_name ` set rows
          then (Inl (SecretAlreadyExists (sp_name p)), rows, e)
          else (Inr \<lparr>ss_id = i, ss_name = sp_name p, ss_ciphertext = sp_ciphertext p,
                     ss_nonce = sp_nonce p, ss_algorithm = sp_algorithm p, ss_kind = sp_kind p,
                     ss_description = sp_description p, ss_created_at = now, ss_updated_at = now,
                     ss_version = 1\<rparr>, rows @ [row], e)))))"

definition pg_select :: "pg_row list \<Rightarrow> SecretName \<Rightarrow> pg_row option" where
  "pg_select rows name = find (\<lambda>r. pg_name r = name_str name) rows"

definition pg_get :: "pg_codec \<Rightarrow> SecretName \<Rightarrow> StoredSecret pg_op" where
  "pg_get c name =
     try_op (io_guard (storage_error ''query failed: '')) (\<lambda>_.
     (\<lambda>(rows, e).
       (case pg_select rows name of
          None \<Rightarrow> Inl (SecretNotFound name)
        | Some row \<Rightarrow> pg_row_to_stored_secret c row, rows, e)))"

definition pg_update_rows ::
  "SecretName \<Rightarrow> bytes \<Rightarrow> bytes \<Rightarrow> string \<Rightarrow> date_time \<Rightarrow> pg_row list \<Rightarrow> nat \<times> pg_row list" where
  "pg_update_rows name ct no alg now rows =
     (length (filter (\<lambda>r. pg_name r = name_str name) rows),
      map (\<lambda>r. if pg_name r = name_str name
               then r\<lparr>pg_ciphertext := ct, pg_nonce := no, pg_algorithm := alg, pg_updated_at := now,
                      pg_version := pg_version r + 1\<rparr> else r) rows)"

definition pg_exec_update ::
  "pg_codec \<Rightarrow> string \<Rightarrow> SecretName \<Rightarrow> bytes \<Rightarrow> bytes \<Rightarrow> string \<Rightarrow> date_time \<Rightarrow> nat pg_op" where
  "pg_exec_update c what name ct no alg now =
     try_op (io_guard (storage_error what)) (\<lambda>_.
     (\<lambda>(rows, e).
       if list_ex (\<lambda>r. pg_name r = name_str name \<and> 2 ^ 31 \<le> pg_version r + 1) rows
       then (Inl (storage_error what (pc_range_text c)), rows, e)
       else case pg_update_rows name ct no alg now rows of (n, rows') \<Rightarrow> (Inr n, rows', e)))"

definition pg_draw_time :: "pg_codec \<Rightarrow> 'x \<times> env \<Rightarrow> date_time \<times> 'x \<times> env" where
  "pg_draw_time c = (\<lambda>(x, e). case utc_now e of (t, e') \<Rightarrow> (pc_column_time c t, x, e'))"

definition pg_update ::
  "pg_codec \<Rightarrow> SecretName \<Rightarrow> bytes \<Rightarrow> bytes \<Rightarrow> CipherAlgorithm \<Rightarrow> StoredSecret pg_op" where
  "pg_update c name ct no alg =
     let_op (pg_draw_time c) (\<lambda>now.
     try_op (pg_exec_update c ''update failed: '' name ct no (CipherAlgorithm_as_str alg) now) (\<lambda>n.
     if n = 0 then fail (SecretNotFound name) else pg_get c name))"

fun pg_batch_loop :: "pg_codec \<Rightarrow> BatchUpdateItem list \<Rightarrow> unit pg_op" where
  "pg_batch_loop c [] = ok ()"
| "pg_batch_loop c (u # us) =
     let_op (pg_draw_time c) (\<lambda>now.
     try_op (pg_exec_update c ''batch update failed: '' (bu_name u) (bu_ciphertext u) (bu_nonce u)
       (CipherAlgorithm_as_str (bu_algorithm u)) now) (\<lambda>n.
     if n = 0 then fail (SecretNotFound (bu_name u)) else pg_batch_loop c us))"

text \<open>A transaction that is dropped without a commit is rolled back.\<close>

definition pg_batch_update :: "pg_codec \<Rightarrow> BatchUpdateItem list \<Rightarrow> unit pg_op" where
  "pg_batch_update c us = (\<lambda>(rows, e).
     case try_op (io_guard (storage_error ''failed to begin transaction: '')) (\<lambda>_.
          try_op (pg_batch_loop c us) (\<lambda>_.
          io_guard (storage_error ''transaction commit failed: ''))) (rows, e) of
       (Inl er, rows', e') \<Rightarrow> (Inl er, rows, e')
     | (Inr u, rows', e') \<Rightarrow> (Inr u, rows', e'))"

definition pg_delete :: "SecretName \<Rightarrow> unit pg_op" where
  "pg_delete name =
     try_op (io_guard (storage_error ''delete failed: '')) (\<lambda>_.
     (\<lambda>(rows, e).
       if list_ex (\<lambda>r. pg_name r = name_str name) rows
       then (Inr (), filter (\<lambda>r. pg_name r \<noteq> name_str name) rows, e)
       else (Inl (SecretNotFound name), rows, e)))"

fun pg_collect :: "pg_codec \<Rightarrow> pg_row list \<Rightarrow> SecretMetadata list result" where
  "pg_collect c [] = Inr []"
| "pg_collect c (row # rows) =
     bind_res (pg_row_to_metadata c row) (\<lambda>m. bind_res (pg_collect c rows) (\<lambda>ms. Inr (m # ms)))"

definition pg_list :: "pg_codec \<Rightarrow> SecretMetadata list pg_op" where
  "pg_list c =
     try_op (io_guard (storage_error ''list query failed: '')) (\<lambda>_. (\<lambda>(rows, e). (pg_collect c rows, rows, e)))"

text \<open>Connecting keeps the rows of the table at the url and creates it if missing.\<close>

definition PostgresStore_new :: "unit pg_op" where
  "PostgresStore_new =
     try_op (io_guard (storage_error [])) (\<lambda>_.
     io_guard (storage_error []))"

definition PostgresStore :: "pg_codec \<Rightarrow> pg_row list SecretStore" where
  "PostgresStore c =
     \<lparr>put = pg_put c, get = pg_get c, update = pg_update c,
      batch_update = pg_batch_update c, delete = pg_delete, list_all_md = pg_list c\<rparr>"

section \<open>Abstraction and invariant\<close>

definition pg_sealed :: "pg_row \<Rightarrow> Sealed" where
  "pg_sealed r =
     \<lparr>sealed_ciphertext = pg_ciphertext r, sealed_nonce = pg_nonce r,
      sealed_algorithm = (case parse_cipher_algorithm (pg_algorithm r) of Inr a \<Rightarrow> a | Inl _ \<Rightarrow> Aes256Gcm)\<rparr>"

definition pg_abs :: "pg_row list \<Rightarrow> SecretName \<Rightarrow> Sealed option" where
  "pg_abs rows n = map_option pg_sealed (pg_select rows n)"

definition pg_row_ok :: "pg_codec \<Rightarrow> pg_row \<Rightarrow> bool" where
  "pg_row_ok c r \<longleftrightarrow>
     is_ok (pc_uuid_parse c (pg_id r)) \<and> is_ok (parse_cipher_algorithm (pg_algorithm r)) \<and>
     is_ok (parse_secret_kind (pg_kind r)) \<and> 1 \<le> pg_version r \<and> pg_version r < 2 ^ 31"

definition pg_inv :: "pg_codec \<Rightarrow> pg_row list \<Rightarrow> bool" where
  "pg_inv c rows \<longleftrightarrow>
     (\<forall>u. pc_uuid_parse c (pc_uuid_str c u) = Inr u) \<and> distinct (map pg_name rows) \<and> distinct (map pg_id rows) \<and>
     list_all (pg_row_ok c) rows"

section \<open>Lemmas\<close>

lemma PostgresStore_new_keeps: "PostgresStore_new (rows, e) = (r, rows', e') \<Longrightarrow> rows' = rows"
  unfolding PostgresStore_new_def by (rule opened_twice_keeps)

lemma pg_select_simps [simp]:
  "pg_select [] n = None"
  "pg_select (r # rows) n = (if pg_name r = name_str n then Some r else pg_select rows n)"
  by (simp_all add: pg_select_def)

lemma pg_select_None: "pg_select rows n = None \<longleftrightarrow> name_str n \<notin> pg_name ` set rows"
  by (induction rows) auto

lemma pg_select_Some: "pg_select rows n = Some r \<Longrightarrow> r \<in> set rows \<and> pg_name r = name_str n"
  by (induction rows) (auto split: if_splits)

lemma pg_select_append:
  "pg_select (rows @ rows') n = (case pg_select rows n of None \<Rightarrow> pg_select rows' n | Some r \<Rightarrow> Some r)"
  by (induction rows) auto

lemma dom_pg_abs: "dom (pg_abs rows) = {n. name_str n \<in> pg_name ` set rows}"
  by (rule set_eqI) (simp add: domIff pg_abs_def pg_select_None del: not_None_eq)

lemma pg_row_Inr:
  "pg_row_to_stored_secret c r = Inr x \<Longrightarrow> ss_name x = SecretName (pg_name r) \<and> stored_sealed x = pg_sealed r"
  by (auto simp: pg_row_to_stored_secret_def bind_res_Inr stored_sealed_def pg_sealed_def)

lemma pg_row_reads: "pg_row_ok c r \<Longrightarrow> \<exists>x. pg_row_to_stored_secret c r = Inr x"
  by (auto simp: pg_row_ok_def is_ok_iff pg_row_to_stored_secret_def bind_res_def pg_parse_id_def)

lemma pg_collect_names:
  "pg_collect c rows = Inr ms \<Longrightarrow> map md_name ms = map (\<lambda>r. SecretName (pg_name r)) rows"
  by (induction rows arbitrary: ms) (auto simp: bind_res_Inr pg_row_to_metadata_def)

lemma pg_update_abs:
  "pg_abs (snd (pg_update_rows n ct no (CipherAlgorithm_as_str al) now rows)) =
     (if n \<in> dom (pg_abs rows)
      then (pg_abs rows)(n \<mapsto> \<lparr>sealed_ciphertext = ct, sealed_nonce = no, sealed_algorithm = al\<rparr>)
      else pg_abs rows)"
proof -
  have "pg_abs (snd (pg_update_rows n ct no (CipherAlgorithm_as_str al) now rows)) k =
      (if k = n \<and> pg_abs rows n \<noteq> None
       then Some \<lparr>sealed_ciphertext = ct, sealed_nonce = no, sealed_algorithm = al\<rparr> else pg_abs rows k)" for k
    by (induction rows) (auto simp: pg_update_rows_def pg_abs_def pg_sealed_def)
  then show ?thesis by (auto simp: fun_eq_iff)
qed

lemma pg_update_count: "fst (pg_update_rows n ct no al now rows) = 0 \<longleftrightarrow> n \<notin> dom (pg_abs rows)"
  unfolding dom_pg_abs by (auto simp: pg_update_rows_def filter_empty_conv image_iff)

lemma pg_update_inv:
  assumes "pg_inv c rows" "\<not> list_ex (\<lambda>r. pg_name r = name_str n \<and> 2 ^ 31 \<le> pg_version r + 1) rows"
  shows "pg_inv c (snd (pg_update_rows n ct no (CipherAlgorithm_as_str al) t rows))"
proof -
  let ?f = "\<lambda>r. if pg_name r = name_str n
    then r\<lparr>pg_ciphertext := ct, pg_nonce := no, pg_algorithm := CipherAlgorithm_as_str al,
      pg_updated_at := t, pg_version := pg_version r + 1\<rparr> else r"
  have "map pg_name (map ?f rows) = map pg_name rows" "map pg_id (map ?f rows) = map pg_id rows"
    by (induction rows) auto
  moreover have "list_all (pg_row_ok c) (map ?f rows)"
    using assms by (auto simp: pg_inv_def list_all_iff list_ex_iff pg_row_ok_def)
  ultimately show ?thesis using assms by (simp add: pg_update_rows_def pg_inv_def del: map_map)
qed

lemma pg_draw_time_eq: "pg_draw_time c (x, e) = (pc_column_time c (env_clock e (env_pos e)), x, env_step e)"
  by (simp add: pg_draw_time_def utc_now_def)

text \<open>One \<^verbatim>\<open>UPDATE\<close>: it fails without effect, or touches no row, or overwrites the entry.\<close>

lemma pg_exec_update_cases:
  assumes "pg_inv c rows"
  obtains (failed) er where "pg_exec_update c what n ct no (CipherAlgorithm_as_str al) now (rows, e) = (Inl er, rows, env_step e)"
  | (missing) rows' where "n \<notin> dom (pg_abs rows)" "pg_inv c rows'"
      "pg_exec_update c what n ct no (CipherAlgorithm_as_str al) now (rows, e) = (Inr 0, rows', env_step e)"
  | (written) k rows' where "n \<in> dom (pg_abs rows)" "pg_inv c rows'" "k \<noteq> 0"
      "pg_exec_update c what n ct no (CipherAlgorithm_as_str al) now (rows, e) = (Inr k, rows', env_step e)"
      "pg_abs rows' = (pg_abs rows)(n \<mapsto> \<lparr>sealed_ciphertext = ct, sealed_nonce = no, sealed_algorithm = al\<rparr>)"
proof -
  let ?up = "pg_update_rows n ct no (CipherAlgorithm_as_str al) now rows"
  let ?over = "list_ex (\<lambda>r. pg_name r = name_str n \<and> 2 ^ 31 \<le> pg_version r + 1) rows"
  show thesis
  proof (cases "env_fault e (env_pos e) = None \<and> \<not> ?over")
    case True
    then have run: "pg_exec_update c what n ct no (CipherAlgorithm_as_str al) now (rows, e) = (Inr (fst ?up), snd ?up, env_step e)"
      and inv: "pg_inv c (snd ?up)"
      using pg_update_inv [OF assms] by (simp_all add: pg_exec_update_def try_op_def io_guard_eq case_prod_beta)
    show thesis
    proof (cases "n \<in> dom (pg_abs rows)")
      case True
      then show thesis using written [OF True inv _ run] pg_update_count pg_update_abs by simp
    next
      case False
      then have "fst ?up = 0" by (simp add: pg_update_count)
      then show thesis using missing [OF False inv] run by simp
    qed
  next
    case False
    then show thesis using failed by (cases "env_fault e (env_pos e)") (auto simp: pg_exec_update_def try_op_def io_guard_eq)
  qed
qed

lemma pg_batch_loop_spec:
  assumes "pg_inv c rows" and "pg_batch_loop c us (rows, e) = (r, rows', e')"
  shows "pg_inv c rows' \<and> env_le e e' \<and> (\<forall>u. r = Inr u \<longrightarrow> apply_batch us (pg_abs rows) = Some (pg_abs rows'))"
  using assms
proof (induction us arbitrary: rows e)
  case (Cons u us)
  let ?t = "pc_column_time c (env_clock e (env_pos e))"
  have run: "try_op (pg_exec_update c ''batch update failed: '' (bu_name u) (bu_ciphertext u) (bu_nonce u)
       (CipherAlgorithm_as_str (bu_algorithm u)) ?t) (\<lambda>n.
     if n = 0 then fail (SecretNotFound (bu_name u)) else pg_batch_loop c us) (rows, env_step e) = (r, rows', e')"
    using Cons.prems(2) by (simp add: let_op_def pg_draw_time_eq)
  show ?case
  proof (cases rule: pg_exec_update_cases [OF Cons.prems(1), of "''batch update failed: ''" "bu_name u" "bu_ciphertext u"
        "bu_nonce u" "bu_algorithm u" ?t "env_step e"])
    case (1 er)
    then show ?thesis using run Cons.prems(1) by (auto simp: try_op_def env_le_steps)
  next
    case (2 rows1)
    then show ?thesis using run by (auto simp: try_op_def fail_def env_le_steps)
  next
    case (3 k rows1)
    then have rest: "pg_batch_loop c us (rows1, env_step (env_step e)) = (r, rows', e')"
      using run by (simp add: try_op_def)
    from Cons.IH [OF 3(2) rest] 3(1,5) show ?thesis
      by (auto simp: item_sealed_def fun_upd_def intro: env_le_trans [OF env_le_steps(2)])
  qed
qed simp

lemma pg_batch_spec:
  assumes "pg_inv c rows" and "pg_batch_update c us (rows, e) = (r, rows', e')"
  shows "pg_inv c rows' \<and> env_le e e' \<and>
    (case r of Inl _ \<Rightarrow> rows' = rows | Inr _ \<Rightarrow> apply_batch us (pg_abs rows) = Some (pg_abs rows'))"
proof -
  obtain x rows1 e1 where loop: "pg_batch_loop c us (rows, env_step e) = (x, rows1, e1)" by (rule prod_cases3)
  note spec = pg_batch_loop_spec [OF assms(1) loop]
  have le: "env_le e e1" using spec by (blast intro: env_le_trans [OF env_le_step])
  then have le': "env_le e (env_step e1)" by (blast intro: env_le_trans env_le_step)
  show ?thesis using assms spec loop le le'
    by (auto simp: pg_batch_update_def try_op_def io_guard_eq split: option.splits sum.splits)
qed

lemma pg_get_spec:
  assumes "pg_get c n (rows, e) = (r, rows', e')"
  shows "rows' = rows \<and> env_le e e'"
    and "r = Inr x \<Longrightarrow> ss_name x = n \<and> pg_abs rows n = Some (stored_sealed x)"
proof -
  show "rows' = rows \<and> env_le e e'"
    using assms by (auto simp: pg_get_def try_op_def io_guard_eq env_le_steps split: option.splits)
  show "ss_name x = n \<and> pg_abs rows n = Some (stored_sealed x)" if r: "r = Inr x"
  proof -
    obtain row where "pg_select rows n = Some row" "pg_row_to_stored_secret c row = Inr x"
      using assms r by (auto simp: pg_get_def try_op_Inr io_guard_Inr split: option.splits)
    then show ?thesis using pg_select_Some [of rows n row] pg_row_Inr [of c row x] by (cases n) (simp add: pg_abs_def)
  qed
qed

lemma pg_get_live:
  assumes "pg_inv c rows" and "quiet e"
  shows "pg_abs rows n = Some y \<Longrightarrow> \<exists>x. fst (pg_get c n (rows, e)) = Inr x"
    and "pg_abs rows n = None \<Longrightarrow> fst (pg_get c n (rows, e)) = Inl (SecretNotFound n)"
proof -
  show "\<exists>x. fst (pg_get c n (rows, e)) = Inr x" if y: "pg_abs rows n = Some y"
  proof -
    obtain row where row: "pg_select rows n = Some row" using y by (auto simp: pg_abs_def)
    then have "pg_row_ok c row" using assms(1) pg_select_Some [OF row] by (auto simp: pg_inv_def list_all_iff)
    then show ?thesis using row assms(2) pg_row_reads by (simp add: pg_get_def try_op_def io_guard_eq)
  qed
  show "pg_abs rows n = None \<Longrightarrow> fst (pg_get c n (rows, e)) = Inl (SecretNotFound n)"
    using assms(2) by (simp add: pg_get_def try_op_def io_guard_eq pg_abs_def)
qed

text \<open>The row \<open>put\<close> would insert at environment \<open>e\<close>.\<close>

definition pg_new_row :: "pg_codec \<Rightarrow> StoreSecretParams \<Rightarrow> env \<Rightarrow> pg_row" where
  "pg_new_row c p e =
     \<lparr>pg_id = pc_uuid_str c (env_uuid e (env_pos e)), pg_name = name_str (sp_name p),
      pg_ciphertext = sp_ciphertext p, pg_nonce = sp_nonce p,
      pg_algorithm = CipherAlgorithm_as_str (sp_algorithm p), pg_kind = SecretKind_as_str (sp_kind p),
      pg_description = sp_description p, pg_created_at = pc_column_time c (env_clock e (Suc (env_pos e))),
      pg_updated_at = pc_column_time c (env_clock e (Suc (env_pos e))), pg_version = 1\<rparr>"

lemma pg_put_eq:
  "pg_put c p (rows, e) =
     (case env_fault e (Suc (Suc (env_pos e))) of
        Some m \<Rightarrow> (Inl (storage_error ''insert failed: '' m), rows, env_step (env_step (env_step e)))
      | None \<Rightarrow>
         (if pg_id (pg_new_row c p e) \<in> pg_id ` set rows \<or> name_str (sp_name p) \<in> pg_name ` set rows
          then (Inl (SecretAlreadyExists (sp_name p)), rows, env_step (env_step (env_step e)))
          else (Inr \<lparr>ss_id = SecretId (env_uuid e (env_pos e)), ss_name = sp_name p,
              ss_ciphertext = sp_ciphertext p, ss_nonce = sp_nonce p, ss_algorithm = sp_algorithm p,
              ss_kind = sp_kind p, ss_description = sp_description p,
              ss_created_at = env_clock e (Suc (env_pos e)), ss_updated_at = env_clock e (Suc (env_pos e)),
              ss_version = 1\<rparr>, rows @ [pg_new_row c p e], env_step (env_step (env_step e)))))"
  by (simp add: pg_put_def let_op_def try_op_def io_guard_eq SecretId_new_def uuid_now_v7_def utc_now_def
      pg_new_row_def Let_def split: option.splits)

lemma pg_put_spec:
  assumes "pg_inv c rows" and "pg_put c p (rows, e) = (r, rows', e')"
  shows "pg_inv c rows' \<and> env_le e e'"
    and "r = Inl er \<Longrightarrow> rows' = rows"
    and "r = Inr x \<Longrightarrow> pg_abs rows (sp_name p) = None \<and>
      pg_abs rows' = (pg_abs rows)(sp_name p \<mapsto> params_sealed p) \<and> ss_name x = sp_name p"
proof -
  have nm: "pg_name (pg_new_row c p e) = name_str (sp_name p)" "pg_sealed (pg_new_row c p e) = params_sealed p"
    by (simp_all add: pg_new_row_def pg_sealed_def params_sealed_def)
  have ok: "pg_row_ok c (pg_new_row c p e)" using assms(1) by (simp add: pg_row_ok_def pg_new_row_def pg_inv_def)
  show "pg_inv c rows' \<and> env_le e e'"
    using assms ok by (auto simp: pg_put_eq pg_inv_def nm env_le_steps split: option.splits if_splits)
  show "r = Inl er \<Longrightarrow> rows' = rows"
    using assms by (auto simp: pg_put_eq split: option.splits if_splits)
  assume "r = Inr x"
  then have ins: "rows' = rows @ [pg_new_row c p e]" "pg_select rows (sp_name p) = None" "ss_name x = sp_name p"
    using assms by (auto simp: pg_put_eq pg_select_None split: option.splits if_splits)
  show "pg_abs rows (sp_name p) = None \<and>
      pg_abs rows' = (pg_abs rows)(sp_name p \<mapsto> params_sealed p) \<and> ss_name x = sp_name p"
    using ins by (auto simp: pg_abs_def pg_select_append nm fun_eq_iff split: option.splits if_splits)
qed

lemma pg_update_spec:
  assumes "pg_inv c rows" and "pg_update c n ct no al (rows, e) = (r, rows', e')"
  shows "pg_inv c rows' \<and> env_le e e' \<and>
    (\<forall>x. r = Inr x \<longrightarrow> n \<in> dom (pg_abs rows) \<and>
      pg_abs rows' = (pg_abs rows)(n \<mapsto> \<lparr>sealed_ciphertext = ct, sealed_nonce = no, sealed_algorithm = al\<rparr>) \<and>
      pg_abs rows' n = Some (stored_sealed x))"
proof -
  let ?t = "pc_column_time c (env_clock e (env_pos e))"
  have run: "try_op (pg_exec_update c ''update failed: '' n ct no (CipherAlgorithm_as_str al) ?t) (\<lambda>k.
      if k = 0 then fail (SecretNotFound n) else pg_get c n) (rows, env_step e) = (r, rows', e')"
    using assms(2) by (simp add: pg_update_def let_op_def pg_draw_time_eq)
  show ?thesis
  proof (cases rule: pg_exec_update_cases [OF assms(1), of "''update failed: ''" n ct no al ?t "env_step e"])
    case (1 er)
    then show ?thesis using run assms(1) by (auto simp: try_op_def env_le_steps)
  next
    case (2 rows1)
    then show ?thesis using run by (auto simp: try_op_def fail_def env_le_steps)
  next
    case (3 k rows1)
    then have rest: "pg_get c n (rows1, env_step (env_step e)) = (r, rows', e')" using run by (simp add: try_op_def)
    from pg_get_spec [OF rest] 3(1,2,5) show ?thesis
      by (auto simp del: domIff intro: env_le_trans [OF env_le_steps(2)])
  qed
qed

lemma pg_delete_spec:
  assumes "pg_inv c rows" and "pg_delete n (rows, e) = (r, rows', e')"
  shows "pg_inv c rows' \<and> env_le e e'"
    and "r = Inl er \<Longrightarrow> rows' = rows"
    and "r = Inr u \<Longrightarrow> n \<in> dom (pg_abs rows) \<and> pg_abs rows' = (pg_abs rows)(n := None)"
proof -
  let ?rows = "filter (\<lambda>r. pg_name r \<noteq> name_str n) rows"
  have "pg_inv c ?rows" using assms(1) by (auto simp: pg_inv_def list_all_iff distinct_map_filter)
  then show "pg_inv c rows' \<and> env_le e e'"
    using assms by (auto simp: pg_delete_def try_op_def io_guard_eq env_le_steps split: option.splits if_splits)
  show "r = Inl er \<Longrightarrow> rows' = rows"
    using assms by (auto simp: pg_delete_def try_op_def io_guard_eq split: option.splits if_splits)
  have sel: "pg_select ?rows k = (if k = n then None else pg_select rows k)" for k
    by (induction rows) auto
  show "r = Inr u \<Longrightarrow> n \<in> dom (pg_abs rows) \<and> pg_abs rows' = (pg_abs rows)(n := None)"
    using assms(2) unfolding dom_pg_abs
    by (auto simp: pg_delete_def try_op_def io_guard_eq pg_abs_def sel list_ex_iff fun_eq_iff
        intro: rev_image_eqI split: option.splits if_splits)
qed

lemma pg_list_spec:
  assumes "pg_list c (rows, e) = (r, rows', e')"
  shows "rows' = rows \<and> env_le e e'"
    and "pg_inv c rows \<Longrightarrow> r = Inr ms \<Longrightarrow>
      distinct (map md_name ms) \<and> set (map md_name ms) = dom (pg_abs rows)"
proof -
  show "rows' = rows \<and> env_le e e'"
    using assms by (auto simp: pg_list_def try_op_def io_guard_eq env_le_steps split: option.splits)
  assume inv: "pg_inv c rows" and r: "r = Inr ms"
  have "pg_collect c rows = Inr ms"
    using assms r by (auto simp: pg_list_def try_op_def io_guard_eq split: option.splits)
  then have names: "map md_name ms = map (\<lambda>r. SecretName (pg_name r)) rows" by (rule pg_collect_names)
  have "distinct (map (\<lambda>r. SecretName (pg_name r)) rows)"
    using inv by (auto simp: pg_inv_def distinct_map inj_on_def)
  moreover have "n \<in> (\<lambda>r. SecretName (pg_name r)) ` set rows \<longleftrightarrow> name_str n \<in> pg_name ` set rows" for n
    by (cases n) (auto simp: image_iff)
  ultimately show "distinct (map md_name ms) \<and> set (map md_name ms) = dom (pg_abs rows)"
    using names by (auto simp: dom_pg_abs)
qed

interpretation postgres: secret_store "PostgresStore c" pg_abs "pg_inv c" "\<lambda>_ _. True" for c
proof unfold_locales
  note d = PostgresStore_def
  fix n s e r s' e' x y p ct no al us u er rl ms ru
  show "get (PostgresStore c) n (s, e) = (r, s', e') \<Longrightarrow> s' = s \<and> env_le e e'"
    using pg_get_spec(1) by (simp add: d)
  show "pg_inv c s \<Longrightarrow> get (PostgresStore c) n (s, e) = (Inr x, s', e') \<Longrightarrow>
      ss_name x = n \<and> pg_abs s n = Some (stored_sealed x)"
    using pg_get_spec(2) by (simp add: d)
  show "pg_inv c s \<Longrightarrow> quiet e \<Longrightarrow> pg_abs s n = Some y \<Longrightarrow> True \<Longrightarrow>
      \<exists>x. fst (get (PostgresStore c) n (s, e)) = Inr x"
    using pg_get_live(1) by (simp add: d)
  show "pg_inv c s \<Longrightarrow> quiet e \<Longrightarrow> pg_abs s n = None \<Longrightarrow>
      fst (get (PostgresStore c) n (s, e)) = Inl (SecretNotFound n)"
    using pg_get_live(2) by (simp add: d)
  show "pg_inv c s \<Longrightarrow> put (PostgresStore c) p (s, e) = (r, s', e') \<Longrightarrow> pg_inv c s' \<and> env_le e e'"
    using pg_put_spec(1) by (simp add: d)
  show "pg_inv c s \<Longrightarrow> put (PostgresStore c) p (s, e) = (Inr x, s', e') \<Longrightarrow>
      pg_abs s (sp_name p) = None \<and> pg_abs s' = (pg_abs s)(sp_name p \<mapsto> params_sealed p) \<and>
      ss_name x = sp_name p \<and> True"
    using pg_put_spec(3) by (simp add: d)
  show "pg_inv c s \<Longrightarrow> put (PostgresStore c) p (s, e) = (Inl er, s', e') \<Longrightarrow> pg_abs s' = pg_abs s"
    using pg_put_spec(2) [of c s p e "Inl er" s' e' er] by (simp add: d)
  show "pg_inv c s \<Longrightarrow> update (PostgresStore c) n ct no al (s, e) = (r, s', e') \<Longrightarrow> pg_inv c s' \<and> env_le e e'"
    using pg_update_spec by (simp add: d)
  show "pg_inv c s \<Longrightarrow> update (PostgresStore c) n ct no al (s, e) = (Inr x, s', e') \<Longrightarrow>
      n \<in> dom (pg_abs s) \<and>
      pg_abs s' = (pg_abs s)(n \<mapsto> \<lparr>sealed_ciphertext = ct, sealed_nonce = no, sealed_algorithm = al\<rparr>) \<and>
      pg_abs s' n = Some (stored_sealed x)"
    using pg_update_spec [of c s n ct no al e "Inr x" s' e'] by (auto simp: d)
  show "pg_inv c s \<Longrightarrow> batch_update (PostgresStore c) us (s, e) = (ru, s', e') \<Longrightarrow> pg_inv c s' \<and> env_le e e'"
    using pg_batch_spec by (simp add: d)
  show "pg_inv c s \<Longrightarrow> batch_update (PostgresStore c) us (s, e) = (Inr u, s', e') \<Longrightarrow>
      apply_batch us (pg_abs s) = Some (pg_abs s')"
    using pg_batch_spec by (fastforce simp: d)
  show "pg_inv c s \<Longrightarrow> batch_update (PostgresStore c) us (s, e) = (Inl er, s', e') \<Longrightarrow> pg_abs s' = pg_abs s"
    using pg_batch_spec by (fastforce simp: d)
  show "pg_inv c s \<Longrightarrow> delete (PostgresStore c) n (s, e) = (ru, s', e') \<Longrightarrow> pg_inv c s' \<and> env_le e e'"
    using pg_delete_spec(1) by (simp add: d)
  show "pg_inv c s \<Longrightarrow> delete (PostgresStore c) n (s, e) = (Inr u, s', e') \<Longrightarrow>
      n \<in> dom (pg_abs s) \<and> pg_abs s' = (pg_abs s)(n := None)"
    using pg_delete_spec(3) by (simp add: d)
  show "pg_inv c s \<Longrightarrow> delete (PostgresStore c) n (s, e) = (Inl er, s', e') \<Longrightarrow> pg_abs s' = pg_abs s"
    using pg_delete_spec(2) [of c s n e "Inl er" s' e' er] by (simp add: d)
  show "list_all_md (PostgresStore c) (s, e) = (rl, s', e') \<Longrightarrow> s' = s \<and> env_le e e'"
    using pg_list_spec(1) by (simp add: d)
  show "pg_inv c s \<Longrightarrow> list_all_md (PostgresStore c) (s, e) = (Inr ms, s', e') \<Longrightarrow>
      distinct (map md_name ms) \<and> set (map md_name ms) = dom (pg_abs s)"
    using pg_list_spec(2) by (simp add: d)
qed

end
