(* ===== verification/Postgres_Audit.thy ===== *)
theory Postgres_Audit
  imports Postgres_Store Audit_Log "HOL-Library.Multiset"
begin

text \<open>
  The PostgreSQL audit log (\<^verbatim>\<open>crates/zerolease-store-postgres/src/audit.rs\<close>) over the table of
  \<^verbatim>\<open>sql/postgres_audit_table.sql\<close>: recording and the three queries. The order the database
  returns rows in is an argument, of which only that it permutes the rows and sorts them by
  descending time stamp is used; so are the texts of its errors. The theory interprets the
  audit log contract.
\<close>

record pg_audit_row =
  pa_event_id :: string
  pa_timestamp :: date_time
  pa_event :: string
  pa_agent :: string
  pa_peer_identity :: string
  pa_outcome :: string
  pa_secret_name :: "string option"
  pa_lease_id :: "string option"

record pg_audit_sql =
  pq_column_time :: "date_time \<Rightarrow> date_time"
  pq_desc :: "pg_audit_row list \<Rightarrow> pg_audit_row list"
  pq_unique_text :: string
  pq_limit_text :: string

type_synonym 'x pg_audit_op = "(pg_audit_row list \<times> env, Error, 'x) op"

definition pg_row_to_audit_entry :: "audit_codec \<Rightarrow> pg_audit_row \<Rightarrow> AuditEntry result" where
  "pg_row_to_audit_entry c row =
     bind_res (case uuid_parse c (pa_event_id row) of
         Inl m \<Rightarrow> Inl (Storage (''invalid event_id: '' @ m)) | Inr u \<Rightarrow> Inr u) (\<lambda>event_id.
     bind_res (case event_of_json c (pa_event row) of
         Inl m \<Rightarrow> Inl (Storage (''invalid event JSON: '' @ m)) | Inr ev \<Rightarrow> Inr ev) (\<lambda>event.
     bind_res (case outcome_of_json c (pa_outcome row) of
         Inl m \<Rightarrow> Inl (Storage (''invalid outcome JSON: '' @ m)) | Inr out \<Rightarrow> Inr out) (\<lambda>outcome.
     Inr \<lparr>ae_timestamp = pa_timestamp row, ae_event_id = event_id, ae_event = event,
          ae_agent = AgentId (pa_agent row), ae_peer_identity = pa_peer_identity row, ae_outcome = outcome\<rparr>)))"

definition pg_audit_record :: "pg_audit_sql \<Rightarrow> audit_codec \<Rightarrow> AuditEntry \<Rightarrow> unit pg_audit_op" where
  "pg_audit_record q c entry =
     (case indexed_fields (ae_event entry) of
        (secret_name, lease_id) \<Rightarrow>
     try_op (of_result (case event_to_json c (ae_event entry) of
         Inl m \<Rightarrow> Inl (Storage (''failed to serialize event: '' @ m)) | Inr s \<Rightarrow> Inr s)) (\<lambda>event_str.
     try_op (of_result (case outcome_to_json c (ae_outcome entry) of
         Inl m \<Rightarrow> Inl (Storage (''failed to serialize outcome: '' @ m)) | Inr s \<Rightarrow> Inr s)) (\<lambda>outcome_str.
     try_op (io_guard (storage_error ''failed to insert audit event: '')) (\<lambda>_.
     (\<lambda>(rows, e).
       let row = \<lparr>pa_event_id = uuid_to_string c (ae_event_id entry), pa_timestamp = pq_column_time q (ae_timestamp entry),
                  pa_event = event_str, pa_agent = agent_str (ae_agent entry),
                  pa_peer_identity = ae_peer_identity entry, pa_outcome = outcome_str, pa_secret_name = secret_name,
                  pa_lease_id = map_option (\<lambda>l. uuid_to_string c (lid_uuid l)) lease_id\<rparr>
       in if list_ex (\<lambda>r. pa_event_id r = pa_event_id row) rows
          then (Inl (storage_error ''failed to insert audit event: '' (pq_unique_text q)), rows, e)
          else (Inr (), rows @ [row], e))))))"

fun pg_collect_entries :: "audit_codec \<Rightarrow> pg_audit_row list \<Rightarrow> AuditEntry list result" where
  "pg_collect_entries c [] = Inr []"
| "pg_collect_entries c (row # rows) =
     bind_res (pg_row_to_audit_entry c row) (\<lambda>x. bind_res (pg_collect_entries c rows) (\<lambda>xs. Inr (x # xs)))"

text \<open>\<^verbatim>\<open>limit as i64\<close>: a limit from \<open>2 ^ 63\<close> on is negative, which PostgreSQL refuses.\<close>

definition pg_query :: "audit_codec \<Rightarrow> string \<Rightarrow> (pg_audit_row list \<Rightarrow> string + pg_audit_row list) \<Rightarrow> AuditEntry list pg_audit_op" where
  "pg_query c what select =
     try_op (io_guard (storage_error what)) (\<lambda>_.
     (\<lambda>(rows, e). (case select rows of Inl m \<Rightarrow> Inl (storage_error what m) | Inr rs \<Rightarrow> pg_collect_entries c rs, rows, e)))"

definition pg_limit :: "pg_audit_sql \<Rightarrow> nat \<Rightarrow> 'x list \<Rightarrow> string + 'x list" where
  "pg_limit q n xs = (if n < 2 ^ 63 then Inr (take n xs) else Inl (pq_limit_text q))"

definition pg_query_by_agent :: "pg_audit_sql \<Rightarrow> audit_codec \<Rightarrow> AgentId \<Rightarrow> nat \<Rightarrow> AuditEntry list pg_audit_op" where
  "pg_query_by_agent q c agent limit =
     pg_query c ''query_by_agent failed: ''
       (\<lambda>rows. pg_limit q limit (pq_desc q (filter (\<lambda>r. pa_agent r = agent_str agent) rows)))"

definition pg_query_by_secret :: "pg_audit_sql \<Rightarrow> audit_codec \<Rightarrow> SecretName \<Rightarrow> nat \<Rightarrow> AuditEntry list pg_audit_op" where
  "pg_query_by_secret q c secret limit =
     pg_query c ''query_by_secret failed: ''
       (\<lambda>rows. pg_limit q limit (pq_desc q (filter (\<lambda>r. pa_secret_name r = Some (name_str secret)) rows)))"

definition pg_query_by_lease :: "pg_audit_sql \<Rightarrow> audit_codec \<Rightarrow> LeaseId \<Rightarrow> AuditEntry list pg_audit_op" where
  "pg_query_by_lease q c lease =
     pg_query c ''query_by_lease failed: ''
       (\<lambda>rows. Inr (pq_desc q (filter (\<lambda>r. pa_lease_id r = Some (uuid_to_string c (lid_uuid lease))) rows)))"

definition PostgresAuditLog_new :: "unit pg_audit_op" where
  "PostgresAuditLog_new =
     try_op (io_guard (storage_error ''failed to open audit database: '')) (\<lambda>_.
     io_guard (storage_error ''failed to create audit schema: ''))"

definition PostgresAuditLog :: "pg_audit_sql \<Rightarrow> audit_codec \<Rightarrow> pg_audit_row list AuditLog" where
  "PostgresAuditLog q c =
     \<lparr>record_entry = pg_audit_record q c, query_by_agent = pg_query_by_agent q c,
      query_by_secret = pg_query_by_secret q c, query_by_lease = pg_query_by_lease q c\<rparr>"

section \<open>The contract\<close>

text \<open>The row an entry is kept as.\<close>

definition pg_row_of :: "pg_audit_sql \<Rightarrow> audit_codec \<Rightarrow> AuditEntry \<Rightarrow> pg_audit_row" where
  "pg_row_of q c x =
     \<lparr>pa_event_id = uuid_to_string c (ae_event_id x), pa_timestamp = pq_column_time q (ae_timestamp x),
      pa_event = json_text (event_to_json c (ae_event x)), pa_agent = agent_str (ae_agent x),
      pa_peer_identity = ae_peer_identity x, pa_outcome = json_text (outcome_to_json c (ae_outcome x)),
      pa_secret_name = fst (indexed_fields (ae_event x)),
      pa_lease_id = map_option (\<lambda>l. uuid_to_string c (lid_uuid l)) (snd (indexed_fields (ae_event x)))\<rparr>"

lemma PostgresAuditLog_new_keeps: "PostgresAuditLog_new (rows, e) = (r, rows', e') \<Longrightarrow> rows' = rows"
  unfolding PostgresAuditLog_new_def by (rule opened_twice_keeps)

lemma pg_audit_record_result:
  assumes "pg_audit_record q c x (a, e) = (r, a', e')"
  shows "env_le e e'" and "r = Inr u \<Longrightarrow> a' = a @ [pg_row_of q c x]" and "r = Inl er \<Longrightarrow> a' = a"
  using assms by (auto simp: pg_audit_record_def op_defs io_guard_eq pg_row_of_def json_text_def Let_def env_le_steps
      split: sum.splits prod.splits option.splits if_splits)

interpretation postgres_audit: audit_log "PostgresAuditLog q c" "\<lambda>rows. rows" "pg_row_of q c" "\<lambda>_. True" for q c
  using pg_audit_record_result
  by unfold_locales
    (auto simp: PostgresAuditLog_def pg_query_by_agent_def pg_query_by_secret_def pg_query_by_lease_def pg_query_def
      try_op_def io_guard_eq env_le_steps split: option.splits prod.splits)

end
