(* ===== verification/Vault_Audit.thy ===== *)
theory Vault_Audit
  imports Vault_Contracts
begin

text \<open>
  The vault touches the state of its audit log only by recording entries. The locale states
  this for one property of the log that recording keeps, and its lemmas carry the property
  through every call and every run of the vault.
\<close>

locale audit_kept =
  fixes B :: "('k, 's, 'a) backends"
    and P :: "'a \<Rightarrow> bool"
  assumes record_keeps: "P a \<Longrightarrow> record_entry (be_audit B) x (a, e) = (r, a', e') \<Longrightarrow> P a'"
begin

abbreviation logged :: "('k, 's, 'a) vault \<Rightarrow> bool" where
  "logged v \<equiv> P (v_audit v)"

lemma logged_frame: "logged v \<Longrightarrow> v_audit w = v_audit v \<Longrightarrow> logged w"
  by simp

lemma keeps_audit: "keeps logged (audit_event B ev ag peer out)"
proof (rule keepsI)
  fix v assume v: "logged v"
  obtain r w where run: "audit_event B ev ag peer out v = (r, w)" by (rule prod.exhaust)
  then obtain a e where "record_entry (be_audit B) (entry_at ev ag peer out (v_env v))
      (v_audit v, env_step (env_step (v_env v))) = (r, a, e)" "v_audit w = a"
    by (auto simp: audit_event_eq)
  then show "logged (snd (audit_event B ev ag peer out v))" using record_keeps [OF v] run by simp
qed

lemma keeps_parts:
  "keeps logged (store_op m)" "keeps logged (key_op k)" "keeps logged (on_env f)" "keeps logged (encrypt B t)"
  "keeps logged (use_lease i h)"
  by (rule keepsI, erule logged_frame,
      auto simp: store_op_def key_op_def on_env_def encrypt_def use_lease_def split: prod.splits option.splits sum.splits)+

lemma keeps_tables:
  "keeps logged (modifies (insert_lease l))"
  "keeps logged (modifies (\<lambda>v. v\<lparr>v_leases := f v\<rparr>))"
  "keeps logged (modifies (\<lambda>v. v\<lparr>v_sessions := g v\<rparr>))"
  "keeps logged (modifies (\<lambda>v. v\<lparr>v_dek := d\<rparr>))"
  "keeps logged (modifies (link_lease i sid))"
  "keeps logged (modifies (count_lease t))"
  by (rule keeps_modifies, erule logged_frame,
      auto simp: insert_lease_def link_lease_def count_lease_def split: option.splits)+

lemma logged_best_effort: "logged v \<Longrightarrow> logged (snd (audit_best_effort B ev ag peer out v))"
  using keeps_audit [of ev ag peer out] audit_best_effort_eq [of B ev ag peer out v]
  by (metis keepsD prod.collapse)

lemma logged_revoke_loop: "logged v \<Longrightarrow> logged (snd (revoke_loop B cond reason peer ks v))"
proof (induction ks arbitrary: v)
  case (Cons k ks)
  have "logged (v\<lparr>v_leases := x\<rparr>)" for x using Cons.prems by simp
  then show ?case using Cons logged_best_effort by (auto simp: case_prod_beta split: option.splits if_splits)
qed simp

lemma logged_on_env: "logged v \<Longrightarrow> logged (snd (on_env f v))"
  by (rule logged_frame) (simp_all add: frame)

lemma logged_revoke_where: "logged v \<Longrightarrow> logged (snd (revoke_where B cond reason peer v))"
  by (simp add: revoke_where_def logged_revoke_loop)

lemmas log_rules = keeps_try_op keeps_let_op keeps_audit keeps_parts keeps_tables keeps_reads keeps_decrypt keeps_ok
  keeps_fail keeps_of_result logged_on_env logged_revoke_where keeps_case_sum keeps_case_option keeps_case_prod keeps_if
  logged_best_effort

lemma keeps_reencrypt: "keeps logged (reencrypt_all B old new ms)"
  by (induction ms) (auto intro!: log_rules simp del: keeps_def)

lemma keeps_request_lease: "keeps logged (request_lease B a m d pr)"
  unfolding request_lease_def by (intro log_rules)

lemma keeps_store_secret: "keeps logged (store_secret B m t kd ds pr)"
  unfolding store_secret_def by (intro log_rules)

lemma keeps_delete_secret: "keeps logged (delete_secret B m pr)"
  unfolding delete_secret_def by (intro log_rules)

lemma keeps_revoke_all: "keeps logged (revoke_all_for_agent B a pr)"
  unfolding revoke_all_for_agent_def by (intro log_rules)

lemma keeps_create_session: "keeps logged (create_session B u c sp pr)"
  unfolding create_session_def by (intro log_rules)

lemma keeps_access_secret: "keeps logged (access_secret B i h pr)"
  unfolding access_secret_def by (intro log_rules)

lemma keeps_rotate_dek: "keeps logged (rotate_dek B pr)"
  unfolding rotate_dek_def by (intro log_rules keeps_reencrypt)

lemma keeps_initialize: "keeps logged (initialize B)"
  unfolding initialize_def by (intro log_rules)

lemmas keeps_calls = keeps_request_lease keeps_store_secret keeps_delete_secret keeps_revoke_all keeps_create_session
  keeps_access_secret keeps_rotate_dek keeps_initialize

lemma logged_revoke_lease: "logged v \<Longrightarrow> logged (snd (revoke_lease B i rs pr v))"
  using keeps_audit by (auto simp: revoke_lease_def keeps_def split: option.splits)

lemma logged_renew_lease: "logged v \<Longrightarrow> logged (snd (renew_lease B i x pr v))"
proof (cases "map_of (v_leases v) i")
  case (Some l)
  assume "logged v"
  show ?thesis unfolding renew_lease_def Some option.case
    by (rule keeps_snd [where I = logged, OF _ \<open>logged v\<close>]) (intro log_rules)
qed (simp add: renew_lease_def)

lemma logged_validate_session: "logged v \<Longrightarrow> logged (snd (validate_session t v))"
  by (auto simp: validate_session_def op_defs on_env_def split: option.splits prod.splits)

lemma logged_revoke_session: "logged v \<Longrightarrow> logged (snd (revoke_session B t pr v))"
proof (cases "map_of (v_sessions v) t")
  case (Some s)
  assume v: "logged v"
  then have v': "logged (v\<lparr>v_sessions := x\<rparr>)" for x by simp
  show ?thesis unfolding revoke_session_def Some option.case
    by (rule keeps_snd [where I = logged, OF _ v']) (intro log_rules)
qed (simp add: revoke_session_def)

lemma logged_request_scoped: "logged v \<Longrightarrow> logged (snd (request_lease_scoped B a m d pr t tn v))"
proof (cases "\<exists>s. map_of (v_sessions v) t = Some s \<and> \<not> s_revoked s")
  case True
  assume v: "logged v"
  from True obtain s where s: "map_of (v_sessions v) t = Some s" "\<not> s_revoked s" by blast
  show ?thesis unfolding request_lease_scoped_def s(1) option.case if_not_P [OF s(2)]
    by (rule keeps_snd [where I = logged, OF _ v]) (intro log_rules keeps_calls)
qed (auto simp: request_lease_scoped_def split: option.splits)

lemma logged_list: "logged v \<Longrightarrow> logged (snd (list_secrets B v))"
  unfolding list_secrets_def by (rule keeps_snd [OF keeps_parts(1)])

lemma logged_gc: "logged v \<Longrightarrow> logged (snd (gc_leases v))" "logged v \<Longrightarrow> logged (snd (gc_sessions v))"
  by (simp_all add: gc_leases_def gc_sessions_def case_prod_beta)

lemma exec_logged: "exec B c v = (r, w) \<Longrightarrow> logged v \<Longrightarrow> logged w"
proof -
  assume v: "logged v" and run: "exec B c v = (r, w)"
  have "logged (snd (exec B c v))"
    using v by (cases c) (simp_all add: keeps_calls [THEN keeps_snd] logged_list logged_revoke_lease logged_renew_lease
        logged_validate_session logged_revoke_session logged_request_scoped logged_gc case_prod_beta)
  then show ?thesis using run by simp
qed

lemma run_logged: "run B v tr w \<Longrightarrow> logged v \<Longrightarrow> logged w"
  by (induction rule: run.induct) (auto dest: exec_logged)

end

end
