(* ===== verification/Postgres_Vault.thy ===== *)
theory Postgres_Vault
  imports Postgres_Audit Vault_Audit Vault_Integrity Vault_Operations
begin

text \<open>
  The vault of a cloud deployment, over the PostgreSQL store and audit log. The theory
  interprets the vault's contracts on these backends and shows that what the vault discloses
  can be found in the log afterwards.
\<close>

definition postgres_vault ::
  "'k KeySource \<Rightarrow> pg_codec \<Rightarrow> pg_audit_sql \<Rightarrow> audit_codec \<Rightarrow> aead \<Rightarrow> (uuid \<Rightarrow> string) \<Rightarrow>
    ('k, pg_row list, pg_audit_row list) backends" where
  "postgres_vault keys pc q ac c us =
     \<lparr>be_keys = keys, be_store = PostgresStore pc, be_audit = PostgresAuditLog q ac, be_aead = c, be_us = us\<rparr>"

lemma postgres_vault_sel [simp]:
  "be_keys (postgres_vault keys pc q ac c us) = keys" "be_store (postgres_vault keys pc q ac c us) = PostgresStore pc"
  "be_audit (postgres_vault keys pc q ac c us) = PostgresAuditLog q ac" "be_aead (postgres_vault keys pc q ac c us) = c"
  "be_us (postgres_vault keys pc q ac c us) = us"
  by (simp_all add: postgres_vault_def)

interpretation pg_kms_vault: vault_backends "postgres_vault (KmsKeySource api self) pc q ac c us"
  pg_abs "pg_inv pc" "\<lambda>_ _. True" "\<lambda>rows. rows" "pg_row_of q ac" "\<lambda>_. True"
  "kms_holds api self" "\<lambda>_. kms_correct api" for api self pc q ac c us
  unfolding vault_backends_def postgres_vault_sel
  using postgres.secret_store_axioms postgres_audit.audit_log_axioms kms.key_source_axioms by blast

text \<open>The log is the rows it once had, followed by rows of entries.\<close>

definition grown_from :: "pg_audit_sql \<Rightarrow> audit_codec \<Rightarrow> pg_audit_row list \<Rightarrow> pg_audit_row list \<Rightarrow> bool" where
  "grown_from q ac rows0 rows \<longleftrightarrow> (\<exists>xs. rows = rows0 @ map (pg_row_of q ac) xs \<and>
     (\<forall>x\<in>set xs. is_ok (event_to_json ac (ae_event x)) \<and> is_ok (outcome_to_json ac (ae_outcome x))))"

lemma pg_record_grown:
  assumes "grown_from q ac rows0 a" "record_entry (PostgresAuditLog q ac) x (a, e) = (r, a', e')"
  shows "grown_from q ac rows0 a'"
proof -
  have run: "pg_audit_record q ac x (a, e) = (r, a', e')" using assms(2) by (simp add: PostgresAuditLog_def)
  show ?thesis
  proof (cases r)
    case (Inl er)
    then show ?thesis using pg_audit_record_result(3) [OF run] assms(1) by simp
  next
    case (Inr u)
    then have "a' = a @ [pg_row_of q ac x]" "is_ok (event_to_json ac (ae_event x))" "is_ok (outcome_to_json ac (ae_outcome x))"
      using pg_audit_record_result(2) [OF run] run
      by (auto simp: pg_audit_record_def op_defs is_ok_iff split: sum.splits prod.splits)
    moreover obtain xs where "a = rows0 @ map (pg_row_of q ac) xs"
      "\<forall>x\<in>set xs. is_ok (event_to_json ac (ae_event x)) \<and> is_ok (outcome_to_json ac (ae_outcome x))"
      using assms(1) by (auto simp: grown_from_def)
    ultimately have "a' = rows0 @ map (pg_row_of q ac) (xs @ [x])"
      "\<forall>y\<in>set (xs @ [x]). is_ok (event_to_json ac (ae_event y)) \<and> is_ok (outcome_to_json ac (ae_outcome y))" by auto
    then show ?thesis unfolding grown_from_def by blast
  qed
qed

interpretation pg_log: audit_kept "postgres_vault keys pc q ac c us" "grown_from q ac rows0" for keys pc q ac c us rows0
  by unfold_locales (simp add: pg_record_grown)

section \<open>Finding entries\<close>

text \<open>What is asked of the serialisers and of the order of rows.\<close>

definition pg_audit_ok :: "pg_audit_sql \<Rightarrow> audit_codec \<Rightarrow> bool" where
  "pg_audit_ok q ac \<longleftrightarrow>
     (\<forall>ev s. event_to_json ac ev = Inr s \<longrightarrow> event_of_json ac s = Inr ev) \<and>
     (\<forall>out s. outcome_to_json ac out = Inr s \<longrightarrow> outcome_of_json ac s = Inr out) \<and>
     (\<forall>u. uuid_parse ac (uuid_to_string ac u) = Inr u) \<and> (\<forall>rows. mset (pq_desc q rows) = mset rows)"

text \<open>An entry as it is read back, with its time stamp at the precision of the column.\<close>

definition read_back :: "pg_audit_sql \<Rightarrow> AuditEntry \<Rightarrow> AuditEntry" where
  "read_back q x = x\<lparr>ae_timestamp := pq_column_time q (ae_timestamp x)\<rparr>"

lemma pg_row_of_reads:
  assumes "pg_audit_ok q ac" "is_ok (event_to_json ac (ae_event x))" "is_ok (outcome_to_json ac (ae_outcome x))"
  shows "pg_row_to_audit_entry ac (pg_row_of q ac x) = Inr (read_back q x)"
proof -
  obtain s t where "event_to_json ac (ae_event x) = Inr s" "outcome_to_json ac (ae_outcome x) = Inr t"
    using assms(2,3) by (auto simp: is_ok_iff)
  moreover have "AgentId (agent_str (ae_agent x)) = ae_agent x" by (cases "ae_agent x") simp
  ultimately show ?thesis using assms(1)
    by (simp add: pg_audit_ok_def pg_row_to_audit_entry_def pg_row_of_def json_text_def bind_res_def read_back_def)
qed

lemma pg_collect_reads:
  "\<forall>r\<in>set rs. \<exists>x. r = pg_row_of q ac x \<and> pg_row_to_audit_entry ac r = Inr (read_back q x) \<Longrightarrow>
    \<exists>xs. pg_collect_entries ac rs = Inr xs \<and> (\<forall>r\<in>set rs. \<exists>x\<in>set xs. pg_row_to_audit_entry ac r = Inr x)"
  by (induction rs) (fastforce simp: bind_res_def)+

lemma pg_query_by_lease_finds:
  assumes "pg_audit_ok q ac" "grown_from q ac [] rows" "quiet e" "pg_row_of q ac x \<in> set rows"
    "is_ok (event_to_json ac (ae_event x))" "is_ok (outcome_to_json ac (ae_outcome x))"
    "snd (indexed_fields (ae_event x)) = Some i"
  shows "\<exists>xs. pg_query_by_lease q ac i (rows, e) = (Inr xs, rows, env_step e) \<and> read_back q x \<in> set xs"
proof -
  let ?rs = "pq_desc q (filter (\<lambda>r. pa_lease_id r = Some (uuid_to_string ac (lid_uuid i))) rows)"
  have set: "set ?rs = {r \<in> set rows. pa_lease_id r = Some (uuid_to_string ac (lid_uuid i))}"
    using assms(1) unfolding pg_audit_ok_def by (metis set_filter set_mset_mset)
  have "\<forall>r\<in>set ?rs. \<exists>x. r = pg_row_of q ac x \<and> pg_row_to_audit_entry ac r = Inr (read_back q x)"
  proof
    fix r assume "r \<in> set ?rs"
    then obtain y where "r = pg_row_of q ac y" "is_ok (event_to_json ac (ae_event y))" "is_ok (outcome_to_json ac (ae_outcome y))"
      using assms(2) unfolding set by (auto simp: grown_from_def)
    then show "\<exists>x. r = pg_row_of q ac x \<and> pg_row_to_audit_entry ac r = Inr (read_back q x)"
      using pg_row_of_reads [OF assms(1)] by blast
  qed
  from pg_collect_reads [OF this] obtain xs where xs: "pg_collect_entries ac ?rs = Inr xs"
    "\<forall>r\<in>set ?rs. \<exists>x\<in>set xs. pg_row_to_audit_entry ac r = Inr x" by blast
  have "pg_row_of q ac x \<in> set ?rs" using assms(4,7) unfolding set by (simp add: pg_row_of_def)
  then have "read_back q x \<in> set xs" using xs(2) pg_row_of_reads [OF assms(1,5,6)] by fastforce
  then show ?thesis using xs(1) assms(3) by (auto simp: pg_query_by_lease_def pg_query_def try_op_def io_guard_eq)
qed

section \<open>Properties\<close>

text \<open>
  C33: no disclosure escapes the audit. A vault over PostgreSQL starts with an empty audit log
  and makes any calls; then an access hands out a secret, and any calls follow. Whenever the
  database answers, the log's query by lease succeeds and its result contains the entry of
  that access: its lease, the secret, the very host, and the agent the lease was granted to.
\<close>

theorem disclosure_is_queryable:
  fixes keys pc q ac c us
  defines "B \<equiv> postgres_vault keys pc q ac c us"
  assumes "pg_audit_ok q ac" and "v_audit v0 = []" and "run B v0 tr v"
    and "access_secret B i host peer v = (Inr g, w)" and "run B w tr' w'" and "quiet e"
  shows "\<exists>l xs x. map_of (v_leases v) i = Some l \<and>
    pg_query_by_lease q ac i (v_audit w', e) = (Inr xs, v_audit w', env_step e) \<and> x \<in> set xs \<and>
    ae_event x = Ev_SecretAccessed i (l_secret_name l) (DomainScope host) \<and> ae_agent x = l_agent l \<and>
    ae_peer_identity x = show_PeerIdentity peer \<and> ae_outcome x = Success"
proof -
  obtain l entry a e1 e2 where l: "map_of (v_leases v) i = Some l"
    and entry: "ae_event entry = Ev_SecretAccessed i (l_secret_name l) (DomainScope host)" "ae_agent entry = l_agent l"
      "ae_peer_identity entry = show_PeerIdentity peer" "ae_outcome entry = Success"
    and rec: "pg_audit_record q ac entry (v_audit v, e1) = (Inr (), v_audit w, e2)"
    using access_recorded [OF assms(5)] by (auto simp: B_def PostgresAuditLog_def)
  have row: "v_audit w = v_audit v @ [pg_row_of q ac entry]" by (rule pg_audit_record_result(2) [OF rec refl])
  have ok: "is_ok (event_to_json ac (ae_event entry))" "is_ok (outcome_to_json ac (ae_outcome entry))"
    using rec by (auto simp: pg_audit_record_def op_defs is_ok_iff split: sum.splits prod.splits)
  have start: "grown_from q ac rows rows" for rows by (force simp: grown_from_def)
  have "exec B (C_access_secret i host peer) v = (R_guard g, w)" by (simp add: assms(5) reply_with_eq)
  then have "grown_from q ac [] (v_audit w)"
    using pg_log.exec_logged pg_log.run_logged [OF assms(4) [unfolded B_def]] start assms(3) unfolding B_def by metis
  then have "grown_from q ac [] (v_audit w')" by (rule pg_log.run_logged [OF assms(6) [unfolded B_def]])
  moreover have "grown_from q ac (v_audit w) (v_audit w')" by (rule pg_log.run_logged [OF assms(6) [unfolded B_def] start])
  then have "pg_row_of q ac entry \<in> set (v_audit w')" using row by (auto simp: grown_from_def)
  ultimately obtain xs where "pg_query_by_lease q ac i (v_audit w', e) = (Inr xs, v_audit w', env_step e)"
    "read_back q entry \<in> set xs"
    using pg_query_by_lease_finds [OF assms(2) _ assms(7) _ ok, of "v_audit w'" i] entry(1) by auto
  with l entry show ?thesis by (intro exI [of _ l] exI [of _ xs] exI [of _ "read_back q entry"]) (simp add: read_back_def)
qed

text \<open>A database with one secret and one lease, and serialisers that know one event.\<close>

definition pg_demo_event :: AuditEvent where
  "pg_demo_event = Ev_SecretAccessed (LeaseId 1) demo_name (DomainScope ''x.a.net'')"

definition pg_demo_codec :: audit_codec where
  "pg_demo_codec = plain_audit_codec\<lparr>
     event_to_json := (\<lambda>ev. if ev = pg_demo_event then Inr ''access'' else Inl ''unknown event''),
     event_of_json := (\<lambda>_. Inr pg_demo_event),
     outcome_to_json := (\<lambda>out. if out = Success then Inr ''Success'' else Inl ''unknown outcome''),
     outcome_of_json := (\<lambda>_. Inr Success),
     uuid_to_string := (\<lambda>u. replicate (unat u) CHR ''u''), uuid_parse := (\<lambda>s. Inr (word_of_nat (length s)))\<rparr>"

definition pg_demo_sql :: pg_audit_sql where
  "pg_demo_sql =
     \<lparr>pq_column_time = (\<lambda>t. t), pq_desc = rev, pq_unique_text = ''duplicate key'', pq_limit_text = ''LIMIT must not be negative''\<rparr>"

definition pg_demo_ids :: pg_codec where
  "pg_demo_ids =
     \<lparr>pc_uuid_str = (\<lambda>u. replicate (unat u) CHR ''u''), pc_uuid_parse = (\<lambda>s. Inr (word_of_nat (length s))),
      pc_column_time = (\<lambda>t. t), pc_range_text = ''integer out of range''\<rparr>"

abbreviation "pg_demo_backends \<equiv>
  postgres_vault (KmsKeySource mirror_kms demo_kms) pg_demo_ids pg_demo_sql pg_demo_codec (be_aead demo_backends) (\<lambda>_. ''id'')"

definition pg_demo_vault :: "(bytes option, pg_row list, pg_audit_row list) vault" where
  "pg_demo_vault = (fresh_vault 3 None
     [\<lparr>pg_id = [], pg_name = ''t'', pg_ciphertext = [112, 119], pg_nonce = replicate 12 0, pg_algorithm = ''aes256gcm'',
       pg_kind = ''pat'', pg_description = None, pg_created_at = 0, pg_updated_at = 0, pg_version = 1\<rparr>]
     [] demo_policy Aes256Gcm sample_env)\<lparr>v_dek := Some demo_key, v_leases := [(LeaseId 1, demo_lease)]\<rparr>"

lemma pg_demo_ok: "pg_audit_ok pg_demo_sql pg_demo_codec" "quiet sample_env" "v_audit pg_demo_vault = []"
  by (auto simp: pg_audit_ok_def pg_demo_sql_def pg_demo_codec_def quiet_def sample_env_def pg_demo_vault_def
      with_max_leases_per_agent_def Vault_new_def split: if_splits)

theorem disclosure_is_queryable_witness:
  "\<exists>g w xs x. access_secret pg_demo_backends (LeaseId 1) ''x.a.net'' Anonymous pg_demo_vault = (Inr g, w) \<and>
    fst (pg_query_by_lease pg_demo_sql pg_demo_codec (LeaseId 1) (v_audit w, sample_env)) = Inr xs \<and> x \<in> set xs \<and>
    ae_event x = pg_demo_event \<and> ae_agent x = demo_agent"
proof -
  have "is_ok (fst (access_secret pg_demo_backends (LeaseId 1) ''x.a.net'' Anonymous pg_demo_vault))" by code_simp
  then obtain g w where g: "access_secret pg_demo_backends (LeaseId 1) ''x.a.net'' Anonymous pg_demo_vault = (Inr g, w)"
    using ok_run by blast
  have "map_of (v_leases pg_demo_vault) (LeaseId 1) = Some demo_lease" by (simp add: pg_demo_vault_def)
  then show ?thesis
    using disclosure_is_queryable [OF pg_demo_ok(1,3) run_nil g run_nil pg_demo_ok(2)] g
    by (auto simp: demo_lease_def pg_demo_event_def)
qed

end
