(* ===== verification/Aws_Store.thy ===== *)
theory Aws_Store
  imports Sqlite_Store Text
begin

text \<open>
  The AWS Secrets Manager store (\<^verbatim>\<open>crates/zerolease-store-aws-sm/src/store.rs\<close>): each secret is
  one JSON payload under a prefixed name, with metadata in tags. The service and its client are
  an argument, a record of the calls the store makes; so are the JSON text of a payload and the
  printed forms of UUIDs and time stamps. The service keeps no transactions, so the store does
  not satisfy the batch law of the store contract; what it does satisfy is stated here.
\<close>

section \<open>The service\<close>

text \<open>What the store distinguishes of an error of the client: its kind, its message and its debug form.\<close>

datatype sm_service_error = ResourceExists | ResourceNotFound | InvalidRequest "string option" | OtherServiceError

datatype SdkError = ServiceError sm_service_error string | OtherSdkError string

fun debug_SdkError :: "SdkError \<Rightarrow> string" where
  "debug_SdkError (ServiceError _ d) = d"
| "debug_SdkError (OtherSdkError d) = d"

type_synonym tag = "string option \<times> string option"

record sm_entry =
  sme_name :: "string option"
  sme_tags :: "tag list"
  sme_description :: "string option"
  sme_created_date :: "(int \<times> nat) option"
  sme_last_changed_date :: "(int \<times> nat) option"

type_synonym ('s, 'x) sm_op = "('s \<times> env, SdkError, 'x) op"

record 's sm_api =
  create_secret :: "string \<Rightarrow> string \<Rightarrow> string \<Rightarrow> tag list \<Rightarrow> ('s, unit) sm_op"
  get_secret_value :: "string \<Rightarrow> ('s, string option) sm_op"
  put_secret_value :: "string \<Rightarrow> string \<Rightarrow> ('s, unit) sm_op"
  tag_resource :: "string \<Rightarrow> tag list \<Rightarrow> ('s, unit) sm_op"
  describe_secret :: "string \<Rightarrow> ('s, unit) sm_op"
  sm_delete_secret :: "string \<Rightarrow> bool \<Rightarrow> ('s, unit) sm_op"
  sm_list_secrets :: "string \<Rightarrow> string option \<Rightarrow> ('s, sm_entry list \<times> string option) sm_op"

section \<open>Tags and payloads\<close>

datatype MetadataTag = KindTag | VersionTag | UpdatedAtTag | CreatedAtTag | DescriptionTag

fun tag_key :: "MetadataTag \<Rightarrow> string" where
  "tag_key KindTag = ''zerolease:kind''"
| "tag_key VersionTag = ''zerolease:version''"
| "tag_key UpdatedAtTag = ''zerolease:updated_at''"
| "tag_key CreatedAtTag = ''zerolease:created_at''"
| "tag_key DescriptionTag = ''zerolease:description''"

definition tag_find :: "MetadataTag \<Rightarrow> tag list \<Rightarrow> string option" where
  "tag_find t tags = (case find (\<lambda>x. fst x = Some (tag_key t)) tags of None \<Rightarrow> None | Some x \<Rightarrow> snd x)"

record SecretPayload =
  pl_id :: string
  pl_name :: string
  pl_ciphertext :: bytes
  pl_nonce :: bytes
  pl_algorithm :: string
  pl_kind :: string
  pl_description :: "string option"
  pl_created_at :: date_time
  pl_updated_at :: date_time
  pl_version :: u32

record aws_codec =
  aw_uuid_str :: "uuid \<Rightarrow> string"
  aw_uuid_parse :: "string \<Rightarrow> string + uuid"
  aw_to_json :: "SecretPayload \<Rightarrow> string + string"
  aw_of_json :: "string \<Rightarrow> string + SecretPayload"
  aw_to_rfc3339 :: "date_time \<Rightarrow> string"
  aw_parse_rfc3339 :: "string \<Rightarrow> date_time option"
  aw_from_timestamp :: "int \<Rightarrow> nat \<Rightarrow> date_time option"

definition from_stored :: "aws_codec \<Rightarrow> StoredSecret \<Rightarrow> SecretPayload" where
  "from_stored c s =
     \<lparr>pl_id = aw_uuid_str c (sid_uuid (ss_id s)), pl_name = name_str (ss_name s), pl_ciphertext = ss_ciphertext s,
      pl_nonce = ss_nonce s, pl_algorithm = CipherAlgorithm_as_str (ss_algorithm s),
      pl_kind = SecretKind_as_str (ss_kind s), pl_description = ss_description s,
      pl_created_at = ss_created_at s, pl_updated_at = ss_updated_at s, pl_version = ss_version s\<rparr>"

definition into_stored_secret :: "aws_codec \<Rightarrow> SecretPayload \<Rightarrow> StoredSecret result" where
  "into_stored_secret c p =
     bind_res (case aw_uuid_parse c (pl_id p) of
         Inl m \<Rightarrow> Inl (Storage (''invalid UUID: '' @ m)) | Inr u \<Rightarrow> Inr u) (\<lambda>id_uuid.
     bind_res (parse_cipher_algorithm (pl_algorithm p)) (\<lambda>alg.
     bind_res (parse_secret_kind (pl_kind p)) (\<lambda>kind.
     Inr \<lparr>ss_id = SecretId id_uuid, ss_name = SecretName (pl_name p), ss_ciphertext = pl_ciphertext p,
          ss_nonce = pl_nonce p, ss_algorithm = alg, ss_kind = kind, ss_description = pl_description p,
          ss_created_at = pl_created_at p, ss_updated_at = pl_updated_at p, ss_version = pl_version p\<rparr>)))"

definition metadata_tags :: "aws_codec \<Rightarrow> SecretPayload \<Rightarrow> tag list" where
  "metadata_tags c p =
     (let tag = (\<lambda>key v. (Some (tag_key key), Some v)) in
      [tag KindTag (pl_kind p), tag VersionTag (show_nat (unat (pl_version p))),
       tag UpdatedAtTag (aw_to_rfc3339 c (pl_updated_at p)), tag CreatedAtTag (aw_to_rfc3339 c (pl_created_at p))] @
      (case pl_description p of None \<Rightarrow> [] | Some desc \<Rightarrow> [tag DescriptionTag desc]))"

section \<open>The store\<close>

record AwsSecretsManagerStore =
  aws_prefix :: string
  aws_force_delete :: bool

definition AwsSecretsManagerStore_new :: "string \<Rightarrow> AwsSecretsManagerStore" where
  "AwsSecretsManagerStore_new prefix = \<lparr>aws_prefix = prefix, aws_force_delete = False\<rparr>"

definition AwsSecretsManagerStore_from_env :: "string \<Rightarrow> AwsSecretsManagerStore result" where
  "AwsSecretsManagerStore_from_env prefix = Inr (AwsSecretsManagerStore_new prefix)"

definition with_force_delete :: "bool \<Rightarrow> AwsSecretsManagerStore \<Rightarrow> AwsSecretsManagerStore" where
  "with_force_delete force self = self\<lparr>aws_force_delete := force\<rparr>"

definition sm_name :: "AwsSecretsManagerStore \<Rightarrow> SecretName \<Rightarrow> string" where
  "sm_name self name = aws_prefix self @ ''/'' @ name_str name"

definition serialize_payload :: "aws_codec \<Rightarrow> SecretPayload \<Rightarrow> string result" where
  "serialize_payload c payload =
     (case aw_to_json c payload of
        Inl m \<Rightarrow> Inl (Storage (''payload serialization failed: '' @ m)) | Inr s \<Rightarrow> Inr s)"

definition deserialize_payload :: "aws_codec \<Rightarrow> string \<Rightarrow> SecretPayload result" where
  "deserialize_payload c s =
     (case aw_of_json c s of
        Inl m \<Rightarrow> Inl (Storage (''payload deserialization failed: '' @ m)) | Inr p \<Rightarrow> Inr p)"

definition strip_store_prefix :: "AwsSecretsManagerStore \<Rightarrow> string \<Rightarrow> string option" where
  "strip_store_prefix self s = (case strip_prefix s (aws_prefix self) of None \<Rightarrow> None | Some t \<Rightarrow> strip_prefix t ''/'')"

text \<open>A call of the service whose error is turned into an error of the store.\<close>

definition sm_call :: "(SdkError \<Rightarrow> Error) \<Rightarrow> ('s, 'x) sm_op \<Rightarrow> ('s \<times> env, Error, 'x) op" where
  "sm_call f m w = (case m w of (Inl e, w') \<Rightarrow> (Inl (f e), w') | (Inr x, w') \<Rightarrow> (Inr x, w'))"

definition sm_failed :: "string \<Rightarrow> SdkError \<Rightarrow> Error" where
  "sm_failed what e = Storage (''Secrets Manager '' @ what @ '' failed: '' @ debug_SdkError e)"

definition aws_put :: "'s sm_api \<Rightarrow> aws_codec \<Rightarrow> AwsSecretsManagerStore \<Rightarrow> StoreSecretParams \<Rightarrow> ('s \<times> env, Error, StoredSecret) op" where
  "aws_put api c self p =
     let_op (\<lambda>(s, e). case SecretId_new e of (i, e') \<Rightarrow> (i, s, e')) (\<lambda>i.
     let_op (\<lambda>(s, e). case utc_now e of (t, e') \<Rightarrow> (t, s, e')) (\<lambda>now.
     let stored = \<lparr>ss_id = i, ss_name = sp_name p, ss_ciphertext = sp_ciphertext p, ss_nonce = sp_nonce p,
                   ss_algorithm = sp_algorithm p, ss_kind = sp_kind p, ss_description = sp_description p,
                   ss_created_at = now, ss_updated_at = now, ss_version = 1\<rparr>;
         payload = from_stored c stored
     in try_op (of_result (serialize_payload c payload)) (\<lambda>payload_str.
        try_op (sm_call (\<lambda>e. case e of
            ServiceError ResourceExists _ \<Rightarrow> SecretAlreadyExists (sp_name p) | _ \<Rightarrow> sm_failed ''create'' e)
          (create_secret api (sm_name self (sp_name p)) payload_str (''zerolease secret: '' @ name_str (sp_name p))
             (metadata_tags c payload))) (\<lambda>_.
        ok stored))))"

text \<open>\<^verbatim>\<open>str::contains\<close>.\<close>

fun contains_str :: "string \<Rightarrow> string \<Rightarrow> bool" where
  "contains_str [] t = (t = [])"
| "contains_str (x # xs) t = (starts_with (x # xs) t \<or> contains_str xs t)"

definition get_error :: "SecretName \<Rightarrow> SdkError \<Rightarrow> Error" where
  "get_error name e =
     (case e of
        ServiceError ResourceNotFound _ \<Rightarrow> SecretNotFound name
      | ServiceError (InvalidRequest (Some m)) _ \<Rightarrow>
          if contains_str m ''marked for deletion'' then SecretNotFound name else sm_failed ''get'' e
      | _ \<Rightarrow> sm_failed ''get'' e)"

definition aws_get :: "'s sm_api \<Rightarrow> aws_codec \<Rightarrow> AwsSecretsManagerStore \<Rightarrow> SecretName \<Rightarrow> ('s \<times> env, Error, StoredSecret) op" where
  "aws_get api c self name =
     try_op (sm_call (get_error name) (get_secret_value api (sm_name self name))) (\<lambda>output.
     try_op (of_result (ok_or (Storage ''secret has no string value (binary secrets not supported)'') output)) (\<lambda>secret_string.
     try_op (of_result (deserialize_payload c secret_string)) (\<lambda>payload.
     of_result (into_stored_secret c payload))))"

text \<open>
  The version counter wraps around, as in a release build. A failure to update the tags is only
  logged.
\<close>

definition aws_update ::
  "'s sm_api \<Rightarrow> aws_codec \<Rightarrow> AwsSecretsManagerStore \<Rightarrow> SecretName \<Rightarrow> bytes \<Rightarrow> bytes \<Rightarrow> CipherAlgorithm \<Rightarrow>
    ('s \<times> env, Error, StoredSecret) op" where
  "aws_update api c self name ct no alg =
     try_op (aws_get api c self name) (\<lambda>existing.
     let_op (\<lambda>(s, e). case utc_now e of (t, e') \<Rightarrow> (t, s, e')) (\<lambda>now.
     let updated = existing\<lparr>ss_ciphertext := ct, ss_nonce := no, ss_algorithm := alg, ss_updated_at := now,
                            ss_version := ss_version existing + 1\<rparr>;
         payload = from_stored c updated
     in try_op (of_result (serialize_payload c payload)) (\<lambda>payload_str.
        try_op (sm_call (\<lambda>e. case e of
            ServiceError ResourceNotFound _ \<Rightarrow> SecretNotFound name | _ \<Rightarrow> sm_failed ''update'' e)
          (put_secret_value api (sm_name self name) payload_str)) (\<lambda>_.
        let_op (tag_resource api (sm_name self name) (metadata_tags c payload)) (\<lambda>_.
        ok updated)))))"

fun aws_batch_update ::
  "'s sm_api \<Rightarrow> aws_codec \<Rightarrow> AwsSecretsManagerStore \<Rightarrow> BatchUpdateItem list \<Rightarrow> ('s \<times> env, Error, unit) op" where
  "aws_batch_update api c self [] = ok ()"
| "aws_batch_update api c self (item # items) =
     try_op (aws_update api c self (bu_name item) (bu_ciphertext item) (bu_nonce item) (bu_algorithm item))
       (\<lambda>_. aws_batch_update api c self items)"

definition aws_delete :: "'s sm_api \<Rightarrow> AwsSecretsManagerStore \<Rightarrow> SecretName \<Rightarrow> ('s \<times> env, Error, unit) op" where
  "aws_delete api self name =
     try_op (sm_call (\<lambda>e. case e of
         ServiceError ResourceNotFound _ \<Rightarrow> SecretNotFound name | _ \<Rightarrow> sm_failed ''describe'' e)
       (describe_secret api (sm_name self name))) (\<lambda>_.
     sm_call (sm_failed ''delete'') (sm_delete_secret api (sm_name self name) (aws_force_delete self)))"

section \<open>Listing\<close>

text \<open>\<^verbatim>\<open>str::parse::<u32>\<close>.\<close>

definition parse_u32 :: "string \<Rightarrow> u32 option" where
  "parse_u32 s =
     (let ds = (case s of c # cs \<Rightarrow> if c = CHR ''+'' then cs else s | [] \<Rightarrow> []) in
      if ds = [] then None
      else (case digits_value 0 ds of
              Some n \<Rightarrow> if n < 2 ^ 32 then Some (word_of_nat n) else None
            | None \<Rightarrow> None))"

text \<open>A time from a tag, else from the service's own date, else the epoch.\<close>

definition tag_time :: "aws_codec \<Rightarrow> MetadataTag \<Rightarrow> tag list \<Rightarrow> (int \<times> nat) option \<Rightarrow> date_time" where
  "tag_time c t tags date =
     (case Option.bind (tag_find t tags) (aw_parse_rfc3339 c) of
        Some dt \<Rightarrow> dt
      | None \<Rightarrow>
          (case date of
             None \<Rightarrow> 0
           | Some (secs, nanos) \<Rightarrow> (case aw_from_timestamp c secs nanos of None \<Rightarrow> 0 | Some dt \<Rightarrow> dt)))"

text \<open>The body of the loop over a page: an entry that does not fit is skipped.\<close>

definition entry_metadata ::
  "aws_codec \<Rightarrow> AwsSecretsManagerStore \<Rightarrow> sm_entry \<Rightarrow> env \<Rightarrow> SecretMetadata option \<times> env" where
  "entry_metadata c self secret e =
     (case sme_name secret of
        None \<Rightarrow> (None, e)
      | Some n \<Rightarrow>
     (case strip_store_prefix self n of
        None \<Rightarrow> (None, e)
      | Some zerolease_name \<Rightarrow>
     (case parse_secret_kind (case tag_find KindTag (sme_tags secret) of None \<Rightarrow> [] | Some k \<Rightarrow> k) of
        Inl _ \<Rightarrow> (None, e)
      | Inr kind \<Rightarrow>
     (case SecretId_new e of (i, e') \<Rightarrow>
        (Some \<lparr>md_id = i, md_name = SecretName zerolease_name, md_kind = kind,
           md_description = (case tag_find DescriptionTag (sme_tags secret) of
             Some d \<Rightarrow> Some d | None \<Rightarrow> sme_description secret),
           md_created_at = tag_time c CreatedAtTag (sme_tags secret) (sme_created_date secret),
           md_updated_at = tag_time c UpdatedAtTag (sme_tags secret) (sme_last_changed_date secret),
           md_version = (case Option.bind (tag_find VersionTag (sme_tags secret)) parse_u32 of
             Some v \<Rightarrow> v | None \<Rightarrow> 1)\<rparr>, e')))))"

fun page_metadata ::
  "aws_codec \<Rightarrow> AwsSecretsManagerStore \<Rightarrow> sm_entry list \<Rightarrow> env \<Rightarrow> SecretMetadata list \<times> env" where
  "page_metadata c self [] e = ([], e)"
| "page_metadata c self (secret # rest) e =
     (case entry_metadata c self secret e of (m, e1) \<Rightarrow>
      (case page_metadata c self rest e1 of (ms, e2) \<Rightarrow>
         ((case m of None \<Rightarrow> ms | Some x \<Rightarrow> x # ms), e2)))"

text \<open>The loop over pages; it goes on for as long as the service returns a token.\<close>

partial_function (option) aws_list_loop ::
  "'s sm_api \<Rightarrow> aws_codec \<Rightarrow> AwsSecretsManagerStore \<Rightarrow> string option \<Rightarrow> SecretMetadata list \<Rightarrow> 's \<times> env \<Rightarrow>
    ((Error + SecretMetadata list) \<times> 's \<times> env) option" where
  "aws_list_loop api c self next_token secrets w =
     (case sm_call (sm_failed ''list'') (sm_list_secrets api (aws_prefix self @ ''/'') next_token) w of
        (Inl e, w') \<Rightarrow> Some (Inl e, w')
      | (Inr (page, token), s, e) \<Rightarrow>
         (case page_metadata c self page e of (ms, e') \<Rightarrow>
            (case token of
               None \<Rightarrow> Some (Inr (secrets @ ms), s, e')
             | Some t \<Rightarrow> aws_list_loop api c self (Some t) (secrets @ ms) (s, e'))))"

declare aws_list_loop.simps [code]

definition aws_list ::
  "'s sm_api \<Rightarrow> aws_codec \<Rightarrow> AwsSecretsManagerStore \<Rightarrow> 's \<times> env \<Rightarrow> ((Error + SecretMetadata list) \<times> 's \<times> env) option" where
  "aws_list api c self w = aws_list_loop api c self None [] w"

text \<open>
  The store as the vault uses it. A listing that does not end has no result; the error that stands
  for it here is reached in no execution of a service whose pages end.
\<close>

definition AwsStore :: "'s sm_api \<Rightarrow> aws_codec \<Rightarrow> AwsSecretsManagerStore \<Rightarrow> 's SecretStore" where
  "AwsStore api c self =
     \<lparr>put = aws_put api c self, get = aws_get api c self, update = aws_update api c self,
      batch_update = aws_batch_update api c self, delete = aws_delete api self,
      list_all_md = (\<lambda>w. case aws_list api c self w of Some r \<Rightarrow> r | None \<Rightarrow> (Inl (Storage ''listing does not end''), w))\<rparr>"

section \<open>Specification\<close>

text \<open>
  The documented behaviour of the service, over \<open>view\<close>, the current text of each secret that is
  not deleted: reads and tags change no text, a write that is acknowledged takes effect, one the
  service refuses has none, and one whose answer is lost may or may not have taken effect; a
  listed entry exists.
\<close>

definition sm_written :: "SdkError + unit \<Rightarrow> 'v \<Rightarrow> 'v \<Rightarrow> 'v \<Rightarrow> bool" where
  "sm_written r old new after \<longleftrightarrow>
     (case r of
        Inr _ \<Rightarrow> after = new
      | Inl (ServiceError _ _) \<Rightarrow> after = old
      | Inl (OtherSdkError _) \<Rightarrow> after = old \<or> after = new)"

definition sm_documented :: "'s sm_api \<Rightarrow> ('s \<Rightarrow> string \<rightharpoonup> string) \<Rightarrow> bool" where
  "sm_documented api view \<longleftrightarrow>
     (\<forall>n s e r s' e'. get_secret_value api n (s, e) = (r, s', e') \<longrightarrow>
        view s' = view s \<and> (\<forall>str. r = Inr (Some str) \<longrightarrow> view s n = Some str)) \<and>
     (\<forall>n str s e r s' e'. put_secret_value api n str (s, e) = (r, s', e') \<longrightarrow>
        sm_written r (view s) ((view s)(n \<mapsto> str)) (view s')) \<and>
     (\<forall>n str d tags s e r s' e'. create_secret api n str d tags (s, e) = (r, s', e') \<longrightarrow>
        sm_written r (view s) ((view s)(n \<mapsto> str)) (view s') \<and> (view s n = None \<or> view s' = view s \<and> r \<noteq> Inr ())) \<and>
     (\<forall>n tags s e r s' e'. tag_resource api n tags (s, e) = (r, s', e') \<longrightarrow> view s' = view s) \<and>
     (\<forall>n s e r s' e'. describe_secret api n (s, e) = (r, s', e') \<longrightarrow> view s' = view s) \<and>
     (\<forall>n f s e r s' e'. sm_delete_secret api n f (s, e) = (r, s', e') \<longrightarrow>
        sm_written r (view s) ((view s)(n := None)) (view s')) \<and>
     (\<forall>p t s e r s' e'. sm_list_secrets api p t (s, e) = (r, s', e') \<longrightarrow>
        view s' = view s \<and>
        (\<forall>page t'. r = Inr (page, t') \<longrightarrow> (\<forall>x\<in>set page. \<forall>n. sme_name x = Some n \<longrightarrow> n \<in> dom (view s))))"

text \<open>What serde writes it reads, and a printed UUID parses.\<close>

definition aws_codec_ok :: "aws_codec \<Rightarrow> bool" where
  "aws_codec_ok c \<longleftrightarrow>
     (\<forall>p s. aw_to_json c p = Inr s \<longrightarrow> aw_of_json c s = Inr p) \<and> (\<forall>u. aw_uuid_parse c (aw_uuid_str c u) = Inr u)"

definition read_payload :: "aws_codec \<Rightarrow> string \<Rightarrow> StoredSecret result" where
  "read_payload c s = bind_res (deserialize_payload c s) (into_stored_secret c)"

definition aws_abs ::
  "('s \<Rightarrow> string \<rightharpoonup> string) \<Rightarrow> aws_codec \<Rightarrow> AwsSecretsManagerStore \<Rightarrow> 's \<Rightarrow> SecretName \<rightharpoonup> Sealed" where
  "aws_abs view c self s n =
     (case view s (sm_name self n) of
        None \<Rightarrow> None
      | Some str \<Rightarrow> (case read_payload c str of Inl _ \<Rightarrow> None | Inr x \<Rightarrow> Some (stored_sealed x)))"

section \<open>Lemmas\<close>

lemma sm_name_eq [simp]: "sm_name self m = sm_name self n \<longleftrightarrow> m = n"
  by (cases m; cases n) (simp add: sm_name_def)

lemma strip_store_prefix_Some: "strip_store_prefix self s = Some t \<longleftrightarrow> s = sm_name self (SecretName t)"
proof -
  have "strip_store_prefix self s = Some t \<longleftrightarrow>
      (\<exists>u. strip_prefix s (aws_prefix self) = Some u \<and> strip_prefix u ''/'' = Some t)"
    by (simp add: strip_store_prefix_def split: option.splits)
  then show ?thesis by (simp add: strip_prefix_Some sm_name_def)
qed

text \<open>The laws of the service, one by one.\<close>

lemma sm_documentedD:
  assumes "sm_documented api view"
  shows "get_secret_value api n (s, e) = (r1, s', e') \<Longrightarrow> view s' = view s"
    and "get_secret_value api n (s, e) = (Inr (Some str), s', e') \<Longrightarrow> view s n = Some str"
    and "put_secret_value api n str (s, e) = (r, s', e') \<Longrightarrow> sm_written r (view s) ((view s)(n \<mapsto> str)) (view s')"
    and "create_secret api n str d tags (s, e) = (r, s', e') \<Longrightarrow>
      sm_written r (view s) ((view s)(n \<mapsto> str)) (view s') \<and> (view s n = None \<or> view s' = view s \<and> r \<noteq> Inr ())"
    and "tag_resource api n tags (s, e) = (r, s', e') \<Longrightarrow> view s' = view s"
    and "describe_secret api n (s, e) = (r, s', e') \<Longrightarrow> view s' = view s"
    and "sm_delete_secret api n f (s, e) = (r, s', e') \<Longrightarrow> sm_written r (view s) ((view s)(n := None)) (view s')"
    and "sm_list_secrets api p t (s, e) = (r2, s', e') \<Longrightarrow> view s' = view s"
    and "sm_list_secrets api p t (s, e) = (Inr (page, t'), s', e') \<Longrightarrow> x \<in> set page \<Longrightarrow> sme_name x = Some n \<Longrightarrow>
      n \<in> dom (view s)"
proof -
  note laws = assms [unfolded sm_documented_def]
  note get = laws [THEN conjunct1, rule_format]
    and rest = laws [THEN conjunct2]
  show "get_secret_value api n (s, e) = (r1, s', e') \<Longrightarrow> view s' = view s" using get by metis
  show "get_secret_value api n (s, e) = (Inr (Some str), s', e') \<Longrightarrow> view s n = Some str" using get by metis
  show "put_secret_value api n str (s, e) = (r, s', e') \<Longrightarrow> sm_written r (view s) ((view s)(n \<mapsto> str)) (view s')"
    by (rule rest [THEN conjunct1, rule_format])
  show "create_secret api n str d tags (s, e) = (r, s', e') \<Longrightarrow>
      sm_written r (view s) ((view s)(n \<mapsto> str)) (view s') \<and> (view s n = None \<or> view s' = view s \<and> r \<noteq> Inr ())"
    by (rule rest [THEN conjunct2, THEN conjunct1, rule_format])
  show "tag_resource api n tags (s, e) = (r, s', e') \<Longrightarrow> view s' = view s"
    by (rule rest [THEN conjunct2, THEN conjunct2, THEN conjunct1, rule_format])
  show "describe_secret api n (s, e) = (r, s', e') \<Longrightarrow> view s' = view s"
    by (rule rest [THEN conjunct2, THEN conjunct2, THEN conjunct2, THEN conjunct1, rule_format])
  show "sm_delete_secret api n f (s, e) = (r, s', e') \<Longrightarrow> sm_written r (view s) ((view s)(n := None)) (view s')"
    by (rule rest [THEN conjunct2, THEN conjunct2, THEN conjunct2, THEN conjunct2, THEN conjunct1, rule_format])
  note ls = rest [THEN conjunct2, THEN conjunct2, THEN conjunct2, THEN conjunct2, THEN conjunct2, rule_format]
  show "sm_list_secrets api p t (s, e) = (r2, s', e') \<Longrightarrow> view s' = view s" using ls by metis
  show "sm_list_secrets api p t (s, e) = (Inr (page, t'), s', e') \<Longrightarrow> x \<in> set page \<Longrightarrow> sme_name x = Some n \<Longrightarrow>
      n \<in> dom (view s)" using ls by metis
qed

lemma sm_call_eq:
  "sm_call f m w = (r, w') \<longleftrightarrow> (\<exists>x. m w = (x, w') \<and> r = (case x of Inl e \<Rightarrow> Inl (f e) | Inr y \<Rightarrow> Inr y))"
  by (auto simp: sm_call_def split: prod.splits sum.splits)

lemma payload_reads:
  assumes "aws_codec_ok c" "serialize_payload c (from_stored c x) = Inr str"
  shows "\<exists>y. read_payload c str = Inr y \<and> stored_sealed y = stored_sealed x"
proof -
  obtain kind where "parse_secret_kind (SecretKind_as_str (ss_kind x)) = Inr kind"
    using parse_as_str_kind [of "ss_kind x"] by (auto simp: is_ok_iff)
  moreover have "aw_of_json c str = Inr (from_stored c x)"
    using assms by (auto simp: serialize_payload_def aws_codec_ok_def split: sum.splits)
  ultimately show ?thesis using assms(1)
    by (auto simp: read_payload_def deserialize_payload_def into_stored_secret_def bind_res_def from_stored_def
        aws_codec_ok_def stored_sealed_def)
qed

text \<open>Writing the payload of a secret updates the map at its name.\<close>

lemma aws_abs_write:
  assumes "aws_codec_ok c" "serialize_payload c (from_stored c x) = Inr str" "view s' = (view s)(sm_name self n \<mapsto> str)"
  shows "aws_abs view c self s' = (aws_abs view c self s)(n \<mapsto> stored_sealed x)"
  using payload_reads [OF assms(1,2)] assms(3) by (auto simp: aws_abs_def fun_eq_iff)

lemma aws_abs_remove:
  "view s' = (view s)(sm_name self n := None) \<Longrightarrow> aws_abs view c self s' = (aws_abs view c self s)(n := None)"
  by (auto simp: aws_abs_def fun_eq_iff)

lemma aws_abs_same: "view s' = view s \<Longrightarrow> aws_abs view c self s' = aws_abs view c self s"
  by (simp add: aws_abs_def fun_eq_iff)

text \<open>A call that may have written: the map is as before or updated, and updated when it succeeded.\<close>

lemma aws_get_spec:
  assumes "sm_documented api view" "aws_get api c self n (s, e) = (r, s', e')"
  shows "view s' = view s" and "r = Inr x \<Longrightarrow> aws_abs view c self s n = Some (stored_sealed x)"
proof -
  obtain r1 s1 e1 where get: "get_secret_value api (sm_name self n) (s, e) = (r1, s1, e1)" by (rule prod_cases3)
  have v: "view s1 = view s" by (rule sm_documentedD(1) [OF assms(1) get])
  show "view s' = view s"
    using assms(2) get v by (auto simp: aws_get_def try_op_def sm_call_def of_result_def split: sum.splits prod.splits)
  assume "r = Inr x"
  then obtain str where "r1 = Inr (Some str)" "read_payload c str = Inr x"
    using assms(2) get
    by (auto simp: aws_get_def try_op_Inr sm_call_eq of_result_def ok_or_def read_payload_def bind_res_def
        split: sum.splits option.splits)
  then show "aws_abs view c self s n = Some (stored_sealed x)"
    using sm_documentedD(2) [OF assms(1)] get by (simp add: aws_abs_def)
qed

lemma aws_update_spec:
  assumes "sm_documented api view" "aws_codec_ok c" "aws_update api c self n ct no al (s, e) = (r, s', e')"
  defines "A \<equiv> aws_abs view c self"
    and "sealed \<equiv> \<lparr>sealed_ciphertext = ct, sealed_nonce = no, sealed_algorithm = al\<rparr>"
  shows "A s' = A s \<and> (\<exists>er. r = Inl er) \<or> n \<in> dom (A s) \<and> A s' = (A s)(n \<mapsto> sealed)"
proof -
  obtain r1 s1 e1 where get: "aws_get api c self n (s, e) = (r1, s1, e1)" by (rule prod_cases3)
  note v1 = aws_get_spec [OF assms(1) get]
  show ?thesis
  proof (cases r1)
    case (Inl er)
    then show ?thesis using assms(3) get aws_abs_same [OF v1(1)] by (auto simp: aws_update_def try_op_def A_def)
  next
    case (Inr x)
    define y where "y = x\<lparr>ss_ciphertext := ct, ss_nonce := no, ss_algorithm := al, ss_updated_at := env_clock e1 (env_pos e1),
      ss_version := ss_version x + 1\<rparr>"
    have y: "stored_sealed y = sealed" by (simp add: y_def stored_sealed_def sealed_def)
    have dom: "n \<in> dom (A s)" using v1(2) [OF Inr] by (auto simp: A_def)
    have run: "try_op (of_result (serialize_payload c (from_stored c y))) (\<lambda>payload_str.
        try_op (sm_call (\<lambda>e. case e of
            ServiceError ResourceNotFound _ \<Rightarrow> SecretNotFound n | _ \<Rightarrow> sm_failed ''update'' e)
          (put_secret_value api (sm_name self n) payload_str)) (\<lambda>_.
        let_op (tag_resource api (sm_name self n) (metadata_tags c (from_stored c y))) (\<lambda>_. ok y))) (s1, env_step e1) = (r, s', e')"
      using assms(3) get Inr by (simp add: aws_update_def try_op_def let_op_def utc_now_def Let_def y_def)
    show ?thesis
    proof (cases "serialize_payload c (from_stored c y)")
      case (Inl er)
      then show ?thesis using run aws_abs_same [OF v1(1)] by (auto simp: try_op_def of_result_def A_def)
    next
      case (Inr str)
      obtain r2 s2 e2 where put: "put_secret_value api (sm_name self n) str (s1, env_step e1) = (r2, s2, e2)"
        by (rule prod_cases3)
      then have w: "sm_written r2 (view s) ((view s)(sm_name self n \<mapsto> str)) (view s2)"
        using sm_documentedD(3) [OF assms(1)] v1(1) by metis
      have upd: "A s2 = (A s)(n \<mapsto> sealed)" if "view s2 = (view s)(sm_name self n \<mapsto> str)"
        using aws_abs_write [OF assms(2) Inr that] y by (simp add: A_def)
      show ?thesis
      proof (cases r2)
        case (Inl er)
        then have "s' = s2" "\<exists>er. r = Inl er" using run \<open>serialize_payload c (from_stored c y) = Inr str\<close> put
          by (auto simp: try_op_def of_result_def sm_call_def)
        then show ?thesis using w Inl upd dom aws_abs_same [of view s2 s]
          by (auto simp: sm_written_def A_def split: SdkError.splits)
      next
        case (Inr u)
        obtain r3 s3 e3 where tag: "tag_resource api (sm_name self n) (metadata_tags c (from_stored c y)) (s2, e2) = (r3, s3, e3)"
          by (rule prod_cases3)
        then have "view s3 = view s2" by (rule sm_documentedD(5) [OF assms(1)])
        moreover have "s' = s3" using run \<open>serialize_payload c (from_stored c y) = Inr str\<close> put Inr tag
          by (auto simp: try_op_def of_result_def sm_call_def let_op_def ok_def)
        ultimately show ?thesis using w Inr upd dom aws_abs_same [of view s3 s2] by (auto simp: sm_written_def A_def)
      qed
    qed
  qed
qed

lemma aws_batch_spec:
  assumes "sm_documented api view" "aws_codec_ok c" "aws_batch_update api c self us (s, e) = (r, s', e')"
  shows "\<exists>k\<le>length us. apply_batch (take k us) (aws_abs view c self s) = Some (aws_abs view c self s') \<and>
    (k < length us \<longrightarrow> (\<exists>er. r = Inl er))"
  using assms(3)
proof (induction us arbitrary: s e)
  case (Cons u us)
  obtain r1 s1 e1 where up: "aws_update api c self (bu_name u) (bu_ciphertext u) (bu_nonce u) (bu_algorithm u) (s, e) = (r1, s1, e1)"
    by (rule prod_cases3)
  note spec = aws_update_spec [OF assms(1,2) up]
  let ?A = "aws_abs view c self"
  show ?case
  proof (cases r1)
    case (Inl er)
    then have r: "r = Inl er" "s' = s1" using Cons.prems up by (auto simp: try_op_def)
    from spec show ?thesis
    proof
      assume "?A s1 = ?A s \<and> (\<exists>er. r1 = Inl er)"
      then show ?thesis using r by (intro exI [of _ 0]) simp
    next
      assume "bu_name u \<in> dom (?A s) \<and> ?A s1 = (?A s)(bu_name u \<mapsto>
        \<lparr>sealed_ciphertext = bu_ciphertext u, sealed_nonce = bu_nonce u, sealed_algorithm = bu_algorithm u\<rparr>)"
      then show ?thesis using r by (intro exI [of _ 1]) (simp add: item_sealed_def fun_upd_def)
    qed
  next
    case (Inr x)
    then have "aws_batch_update api c self us (s1, e1) = (r, s', e')" using Cons.prems up by (simp add: try_op_def)
    from Cons.IH [OF this] obtain k where k: "k \<le> length us" "apply_batch (take k us) (?A s1) = Some (?A s')"
      "k < length us \<longrightarrow> (\<exists>er. r = Inl er)" by blast
    then show ?thesis using spec Inr by (intro exI [of _ "Suc k"]) (simp add: item_sealed_def)
  qed
qed simp

lemma aws_put_spec:
  assumes "sm_documented api view" "aws_codec_ok c" "aws_put api c self p (s, e) = (r, s', e')"
  defines "A \<equiv> aws_abs view c self"
  shows "A s' = A s \<and> (\<exists>er. r = Inl er) \<or> A s (sp_name p) = None \<and> A s' = (A s)(sp_name p \<mapsto> params_sealed p)"
proof -
  define x where "x = \<lparr>ss_id = SecretId (env_uuid e (env_pos e)), ss_name = sp_name p, ss_ciphertext = sp_ciphertext p,
    ss_nonce = sp_nonce p, ss_algorithm = sp_algorithm p, ss_kind = sp_kind p, ss_description = sp_description p,
    ss_created_at = env_clock e (Suc (env_pos e)), ss_updated_at = env_clock e (Suc (env_pos e)), ss_version = 1\<rparr>"
  have x: "stored_sealed x = params_sealed p" by (simp add: x_def stored_sealed_def params_sealed_def)
  let ?d = "''zerolease secret: '' @ name_str (sp_name p)" and ?tags = "metadata_tags c (from_stored c x)"
  have run: "try_op (of_result (serialize_payload c (from_stored c x))) (\<lambda>payload_str.
        try_op (sm_call (\<lambda>e. case e of
            ServiceError ResourceExists _ \<Rightarrow> SecretAlreadyExists (sp_name p) | _ \<Rightarrow> sm_failed ''create'' e)
          (create_secret api (sm_name self (sp_name p)) payload_str ?d ?tags)) (\<lambda>_. ok x)) (s, env_step (env_step e)) = (r, s', e')"
    using assms(3) by (simp add: aws_put_def let_op_def SecretId_new_def uuid_now_v7_def utc_now_def Let_def x_def)
  show ?thesis
  proof (cases "serialize_payload c (from_stored c x)")
    case (Inl er)
    then show ?thesis using run by (auto simp: try_op_def of_result_def)
  next
    case (Inr str)
    obtain r1 s1 e1 where cr: "create_secret api (sm_name self (sp_name p)) str ?d ?tags (s, env_step (env_step e)) = (r1, s1, e1)"
      by (rule prod_cases3)
    then have w: "sm_written r1 (view s) ((view s)(sm_name self (sp_name p) \<mapsto> str)) (view s1)"
      "view s (sm_name self (sp_name p)) = None \<or> view s1 = view s \<and> r1 \<noteq> Inr ()"
      using sm_documentedD(4) [OF assms(1) cr] by blast+
    have s': "s' = s1" "(\<exists>er. r = Inl er) \<longleftrightarrow> (\<exists>er. r1 = Inl er)" using run Inr cr
      by (auto simp: try_op_def of_result_def sm_call_def ok_def split: sum.splits)
    have "A s1 = A s" if "view s1 = view s" using aws_abs_same [OF that] by (simp add: A_def)
    moreover have "A s1 = (A s)(sp_name p \<mapsto> params_sealed p)" if "view s1 = (view s)(sm_name self (sp_name p) \<mapsto> str)"
      using aws_abs_write [OF assms(2) Inr that] x by (simp add: A_def)
    moreover have "A s (sp_name p) = None" if "view s (sm_name self (sp_name p)) = None"
      using that by (simp add: A_def aws_abs_def)
    ultimately show ?thesis using w s' by (cases r1) (auto simp: sm_written_def split: SdkError.splits)
  qed
qed

lemma aws_delete_spec:
  fixes c
  assumes "sm_documented api view" "aws_delete api self n (s, e) = (r, s', e')"
  defines "A \<equiv> aws_abs view c self"
  shows "A s' = A s \<and> (\<exists>er. r = Inl er) \<or> A s' = (A s)(n := None)"
proof -
  obtain r1 s1 e1 where d: "describe_secret api (sm_name self n) (s, e) = (r1, s1, e1)" by (rule prod_cases3)
  then have v1: "view s1 = view s" by (rule sm_documentedD(6) [OF assms(1)])
  show ?thesis
  proof (cases r1)
    case (Inl er)
    then show ?thesis using assms(2) d aws_abs_same [OF v1] by (auto simp: aws_delete_def try_op_def sm_call_def A_def)
  next
    case (Inr u)
    obtain r2 s2 e2 where del: "sm_delete_secret api (sm_name self n) (aws_force_delete self) (s1, e1) = (r2, s2, e2)"
      by (rule prod_cases3)
    then have w: "sm_written r2 (view s) ((view s)(sm_name self n := None)) (view s2)"
      using sm_documentedD(7) [OF assms(1)] v1 by metis
    have "s' = s2" "(\<exists>er. r = Inl er) \<longleftrightarrow> (\<exists>er. r2 = Inl er)" using assms(2) d Inr del
      by (auto simp: aws_delete_def try_op_def sm_call_def split: sum.splits)
    then show ?thesis using w aws_abs_same [of view s2 s] aws_abs_remove [of view s2 s]
      by (cases r2) (auto simp: sm_written_def A_def split: SdkError.splits)
  qed
qed

text \<open>A page adds only entries of the service under the store's prefix.\<close>

lemma page_metadata_names:
  "page_metadata c self page e = (ms, e') \<Longrightarrow> m \<in> set ms \<Longrightarrow>
    \<exists>x\<in>set page. sme_name x = Some (sm_name self (md_name m))"
proof (induction page arbitrary: e ms e')
  case (Cons x page)
  obtain y e1 where y: "entry_metadata c self x e = (y, e1)" by (rule prod.exhaust)
  obtain ms' e2 where ms': "page_metadata c self page e1 = (ms', e2)" by (rule prod.exhaust)
  show ?case
  proof (cases "m \<in> set ms'")
    case True
    then show ?thesis using Cons.IH [OF ms'] by auto
  next
    case False
    then have "y = Some m" using Cons.prems y ms' by (auto split: option.splits)
    then show ?thesis using y
      by (auto simp: entry_metadata_def strip_store_prefix_Some split: option.splits sum.splits prod.splits)
  qed
qed simp

section \<open>Properties\<close>



section \<open>A small concrete service\<close>

text \<open>
  A service that keeps its secrets in a list and refuses to write the names \<open>broken\<close> says, and a
  serialiser that writes the fields of a payload one after the other, each with its length in
  unary.
\<close>

definition toy_entry :: "string \<times> string \<Rightarrow> sm_entry" where
  "toy_entry x = \<lparr>sme_name = Some (fst x), sme_tags = [(Some ''zerolease:kind'', Some ''pat'')],
     sme_description = None, sme_created_date = None, sme_last_changed_date = None\<rparr>"

definition toy_api :: "(string \<Rightarrow> bool) \<Rightarrow> (string \<times> string) list sm_api" where
  "toy_api broken =
     \<lparr>create_secret = (\<lambda>n str d tags (s, e).
        if map_of s n = None then (Inr (), AList.update n str s, e) else (Inl (ServiceError ResourceExists ''exists''), s, e)),
      get_secret_value = (\<lambda>n (s, e).
        (case map_of s n of None \<Rightarrow> Inl (ServiceError ResourceNotFound ''not found'') | Some str \<Rightarrow> Inr (Some str), s, e)),
      put_secret_value = (\<lambda>n str (s, e).
        if broken n then (Inl (ServiceError OtherServiceError ''throttled''), s, e)
        else if map_of s n = None then (Inl (ServiceError ResourceNotFound ''not found''), s, e)
        else (Inr (), AList.update n str s, e)),
      tag_resource = (\<lambda>n tags (s, e). (Inr (), s, e)),
      describe_secret = (\<lambda>n (s, e).
        (if map_of s n = None then Inl (ServiceError ResourceNotFound ''not found'') else Inr (), s, e)),
      sm_delete_secret = (\<lambda>n force (s, e). (Inr (), AList.delete n s, e)),
      sm_list_secrets = (\<lambda>p t (s, e).
        (Inr (if t = None then (map toy_entry (take 1 s), Some ''2'') else (map toy_entry (drop 1 s), None)), s, e))\<rparr>"

lemma toy_page:
  "(n, str) \<in> set (take k s) \<Longrightarrow> \<exists>y. map_of s n = Some y" "(n, str) \<in> set (drop k s) \<Longrightarrow> \<exists>y. map_of s n = Some y"
  by (metis in_set_takeD weak_map_of_SomeI, metis in_set_dropD weak_map_of_SomeI)

lemma toy_api_documented: "sm_documented (toy_api broken) map_of"
  unfolding sm_documented_def toy_api_def sm_api.simps
proof (intro conjI)
  show "\<forall>p t s e r s' e'. (\<lambda>(s, e). (Inr (if t = None then (map toy_entry (take 1 s), Some ''2'')
        else (map toy_entry (drop 1 s), None)), s, e)) (s, e) = (r, s', e') \<longrightarrow>
        map_of s' = map_of s \<and> (\<forall>page t'. r = Inr (page, t') \<longrightarrow>
          (\<forall>x\<in>set page. \<forall>n. sme_name x = Some n \<longrightarrow> n \<in> dom (map_of s)))"
    by (auto simp: toy_entry_def simp del: One_nat_def intro: toy_page split: if_splits)
qed (auto simp: sm_written_def update_conv' delete_conv' split: if_splits option.splits)

definition enc_str :: "string \<Rightarrow> string" where
  "enc_str s = replicate (length s) CHR ''1'' @ CHR ''0'' # s"

function dec_strs :: "string \<Rightarrow> string list" where
  "dec_strs [] = []"
| "dec_strs (x # xs) =
     (let n = length (takeWhile (\<lambda>c. c = CHR ''1'') (x # xs)); r = drop n xs in take n r # dec_strs (drop n r))"
  by pat_completeness auto
termination
  by (relation "measure length") auto

lemma dec_enc_strs: "dec_strs (concat (map enc_str xs)) = xs"
proof (induction xs)
  case (Cons x xs)
  let ?rest = "concat (map enc_str xs)"
  have tw: "takeWhile (\<lambda>c. c = CHR ''1'') (enc_str x @ ?rest) = replicate (length x) CHR ''1''"
    by (simp add: enc_str_def takeWhile_append)
  obtain y ys where y: "enc_str x @ ?rest = y # ys" by (cases x) (auto simp: enc_str_def)
  have "drop (Suc (length x)) (enc_str x @ ?rest) = x @ ?rest" by (simp add: enc_str_def)
  then have "drop (length x) ys = x @ ?rest" using y by simp
  then show ?case using Cons.IH tw y by (simp add: Let_def del: drop_drop takeWhile.simps)
qed simp

definition toy_codec :: aws_codec where
  "toy_codec =
     \<lparr>aw_uuid_str = sc_uuid_str unary_codec, aw_uuid_parse = sc_uuid_parse unary_codec,
      aw_to_json = (\<lambda>p. Inr (concat (map enc_str
        [pl_id p, pl_name p, of_bytes (pl_ciphertext p), of_bytes (pl_nonce p), pl_algorithm p, pl_kind p,
         sc_time_str unary_codec (pl_created_at p), sc_time_str unary_codec (pl_updated_at p),
         replicate (unat (pl_version p)) CHR ''v'', (case pl_description p of None \<Rightarrow> [] | Some d \<Rightarrow> CHR ''d'' # d)]))),
      aw_of_json = (\<lambda>s. case dec_strs s of
          [i, n, ct, no, al, k, cr, up, ver, desc] \<Rightarrow>
            (case (sc_time_parse unary_codec cr, sc_time_parse unary_codec up) of
               (Inr t, Inr u) \<Rightarrow>
                 Inr \<lparr>pl_id = i, pl_name = n, pl_ciphertext = as_bytes ct, pl_nonce = as_bytes no, pl_algorithm = al,
                   pl_kind = k, pl_description = (if desc = [] then None else Some (tl desc)), pl_created_at = t,
                   pl_updated_at = u, pl_version = word_of_nat (length ver)\<rparr>
             | _ \<Rightarrow> Inl ''bad time'')
        | _ \<Rightarrow> Inl ''bad payload''),
      aw_to_rfc3339 = sc_time_str unary_codec, aw_parse_rfc3339 = (\<lambda>s. None), aw_from_timestamp = (\<lambda>_ _. None)\<rparr>"

lemma toy_codec_ok: "aws_codec_ok toy_codec"
  using unary_codec_ok dec_enc_strs
  by (auto simp: aws_codec_ok_def toy_codec_def store_codec_ok_def simp del: concat.simps list.map split: option.splits)

definition toy_store :: AwsSecretsManagerStore where
  "toy_store = AwsSecretsManagerStore_new ''z''"

definition toy_params :: "string \<Rightarrow> StoreSecretParams" where
  "toy_params n = \<lparr>sp_name = SecretName n, sp_ciphertext = [1], sp_nonce = [2], sp_algorithm = Aes256Gcm, sp_kind = Pat,
     sp_description = None\<rparr>"

definition toy_item :: "string \<Rightarrow> BatchUpdateItem" where
  "toy_item n = \<lparr>bu_name = SecretName n, bu_ciphertext = [3], bu_nonce = [4], bu_algorithm = Aes256Gcm\<rparr>"

abbreviation "one_broken \<equiv> toy_api (\<lambda>n. n = ''z/b'')"

definition toy_state :: "(string \<times> string) list \<times> env" where
  "toy_state = snd (aws_put one_broken toy_codec toy_store (toy_params ''b'')
     (snd (aws_put one_broken toy_codec toy_store (toy_params ''a'') ([], sample_env))))"

lemma failed_run: "\<not> is_ok (fst x) \<Longrightarrow> \<exists>er. x = (Inl er, snd x)"
  by (cases x; cases "fst x") auto



end
