(* ===== verification/Aws_Vault.thy ===== *)
theory Aws_Vault
  imports Aws_Store Vault_Integrity
begin

text \<open>
  The vault over the AWS store. A key rotation whose batch of updates fails half-way leaves the
  secrets already updated under a key that exists nowhere any more, in a closed run with two
  secrets.
\<close>

definition aws_vault ::
  "'k KeySource \<Rightarrow> 's sm_api \<Rightarrow> aws_codec \<Rightarrow> AwsSecretsManagerStore \<Rightarrow> audit_codec \<Rightarrow> aead \<Rightarrow> (uuid \<Rightarrow> string) \<Rightarrow>
    ('k, 's, TracedEvent list) backends" where
  "aws_vault keys api ac self au c us =
     \<lparr>be_keys = keys, be_store = AwsStore api ac self, be_audit = TracingAuditLog au, be_aead = c, be_us = us\<rparr>"

text \<open>A cipher whose tag is the first byte of the key.\<close>

definition short_aead :: aead where
  "short_aead =
     \<lparr>aes_encrypt = (\<lambda>k n p. Some (p @ take 1 k)), aes_decrypt = (\<lambda>k n ct. strip_suffix ct (take 1 k)),
      xchacha_encrypt = (\<lambda>k n p. Some (p @ take 1 k)), xchacha_decrypt = (\<lambda>k n ct. strip_suffix ct (take 1 k))\<rparr>"

lemma short_aead_correct: "aead_correct short_aead"
  by (auto simp: aead_correct_def short_aead_def strip_suffix_Some)

abbreviation "toy_backends broken \<equiv>
  aws_vault (KmsKeySource mirror_kms demo_kms) (toy_api broken) toy_codec toy_store plain_audit_codec short_aead (\<lambda>_. ''id'')"

text \<open>
  Two secrets are stored, sealed under the vault's key, and a rotation meets a service that refuses
  the second update.
\<close>

definition stored_text :: "string \<Rightarrow> string \<times> string" where
  "stored_text n = (''z/'' @ n, case aw_to_json toy_codec
     \<lparr>pl_id = [], pl_name = n, pl_ciphertext = [112, 119, 0], pl_nonce = replicate 12 0, pl_algorithm = ''aes256gcm'',
      pl_kind = ''pat'', pl_description = None, pl_created_at = 0, pl_updated_at = 0, pl_version = 1\<rparr> of Inr s \<Rightarrow> s | Inl _ \<Rightarrow> [])"

definition aws1 :: "(bytes option, (string \<times> string) list, TracedEvent list) vault" where
  "aws1 = (fresh_vault 3 (Some (replicate 32 0)) [stored_text ''a'', stored_text ''b''] [] demo_policy Aes256Gcm (sample_env\<lparr>env_pos := 1\<rparr>))
     \<lparr>v_dek := Some demo_key\<rparr>"

definition "aws2 = snd (rotate_dek (toy_backends (\<lambda>n. n = ''z/b'')) Anonymous aws1)"

text \<open>
  The rotation reports the service's error and the vault keeps its key. Where a rotation over a
  service that works would have succeeded before, it fails now: the first secret no longer opens.
\<close>

theorem aws_rotation_strands_secret:
  "\<not> is_ok (fst (rotate_dek (toy_backends (\<lambda>n. n = ''z/b'')) Anonymous aws1)) \<and> v_dek aws2 = v_dek aws1 \<and>
   fst (rotate_dek (toy_backends (\<lambda>_. False)) Anonymous aws1) = Inr () \<and>
   fst (rotate_dek (toy_backends (\<lambda>_. False)) Anonymous aws2) = Inl DecryptionFailed"
proof (intro conjI)
  show "\<not> is_ok (fst (rotate_dek (toy_backends (\<lambda>n. n = ''z/b'')) Anonymous aws1))" by code_simp
  show "v_dek aws2 = v_dek aws1" by code_simp
  show "fst (rotate_dek (toy_backends (\<lambda>_. False)) Anonymous aws1) = Inr ()" by code_simp
  show "fst (rotate_dek (toy_backends (\<lambda>_. False)) Anonymous aws2) = Inl DecryptionFailed" by code_simp
qed

end
