(* ===== verification/Sockets.thy ===== *)
theory Sockets
  imports Server
begin

text \<open>
  The three transports (\<^verbatim>\<open>src/transport/tcp.rs\<close>, \<^verbatim>\<open>uds.rs\<close>, \<^verbatim>\<open>vsock.rs\<close>): binding, accepting
  with the identity of the peer, and connecting. The sockets are the operating system's and tokio's:
  a record of the outcomes of their calls is the argument \<open>os\<close>, with streams of any type. The
  locale is the interface \<^verbatim>\<open>VaultListener\<close> as the server and the audit log rely on it.
\<close>

text \<open>A process id is a signed 32-bit integer; \<^verbatim>\<open>as u32\<close> keeps its bits.\<close>

record peer_cred =
  cred_uid :: u32
  cred_pid :: "u32 option"

record 't os_sockets =
  os_tcp_bind :: "string \<Rightarrow> string + unit"
  os_tcp_accept :: "string + 't \<times> string"
  os_tcp_local_addr :: "string + string"
  os_tcp_connect :: "string \<Rightarrow> string + 't"
  os_uds_bind :: "string \<Rightarrow> string + unit"
  os_uds_accept :: "string + 't"
  os_uds_peer_cred :: "'t \<Rightarrow> string + peer_cred"
  os_uds_connect :: "string \<Rightarrow> string + 't"
  os_vsock_cid_any :: u32
  os_vsock_bind :: "u32 \<Rightarrow> u32 \<Rightarrow> string + unit"
  os_vsock_accept :: "string + 't \<times> u32"
  os_vsock_connect :: "u32 \<Rightarrow> u32 \<Rightarrow> string + 't"

text \<open>\<^verbatim>\<open>r.map_err(|e| Error::Transport(...))\<close>.\<close>

definition transport_err :: "string \<Rightarrow> string + 'x \<Rightarrow> 'x result" where
  "transport_err what r = (case r of Inl m \<Rightarrow> Inl (Transport (what @ m)) | Inr x \<Rightarrow> Inr x)"

section \<open>TCP\<close>

definition localhost :: "u16 \<Rightarrow> string" where
  "localhost port = ''127.0.0.1:'' @ show_nat (unat port)"

definition tcp_bind :: "'t os_sockets \<Rightarrow> u16 \<Rightarrow> unit result" where
  "tcp_bind os port =
     transport_err (''failed to bind TCP listener on '' @ localhost port @ '': '') (os_tcp_bind os (localhost port))"

definition tcp_local_addr :: "'t os_sockets \<Rightarrow> string result" where
  "tcp_local_addr os = transport_err ''failed to get local address: '' (os_tcp_local_addr os)"

definition tcp_accept :: "'t os_sockets \<Rightarrow> ('t \<times> PeerIdentity) result" where
  "tcp_accept os =
     (case transport_err ''TCP accept failed: '' (os_tcp_accept os) of
        Inl e \<Rightarrow> Inl e
      | Inr (stream, addr) \<Rightarrow> Inr (stream, PeerTcp addr (replicate 32 0)))"

record TcpConnector =
  tc_addr :: string
  tc_token :: string

definition TcpConnector_new :: "string \<Rightarrow> string \<Rightarrow> TcpConnector" where
  "TcpConnector_new addr token = \<lparr>tc_addr = addr, tc_token = token\<rparr>"

definition tcp_connect :: "'t os_sockets \<Rightarrow> TcpConnector \<Rightarrow> 't result" where
  "tcp_connect os self =
     transport_err (''TCP connect to '' @ tc_addr self @ '' failed: '') (os_tcp_connect os (tc_addr self))"

section \<open>Unix domain sockets\<close>

definition uds_bind :: "'t os_sockets \<Rightarrow> string \<Rightarrow> unit result" where
  "uds_bind os path = transport_err [] (os_uds_bind os path)"

definition uds_accept :: "'t os_sockets \<Rightarrow> ('t \<times> PeerIdentity) result" where
  "uds_accept os =
     (case transport_err [] (os_uds_accept os) of
        Inl e \<Rightarrow> Inl e
      | Inr stream \<Rightarrow>
          Inr (stream, case os_uds_peer_cred os stream of
            Inr cred \<Rightarrow> PeerUnix (cred_uid cred) (case cred_pid cred of None \<Rightarrow> 0 | Some pid \<Rightarrow> pid)
          | Inl _ \<Rightarrow> Anonymous))"

definition uds_connect :: "'t os_sockets \<Rightarrow> string \<Rightarrow> 't result" where
  "uds_connect os path = transport_err ''failed to connect to UDS: '' (os_uds_connect os path)"

section \<open>Vsock\<close>

text \<open>\<^verbatim>\<open>VMADDR_CID_ANY\<close> is a constant of the vsock crate, hence a field of the record.\<close>

definition vsock_bind :: "'t os_sockets \<Rightarrow> u32 \<Rightarrow> unit result" where
  "vsock_bind os port = transport_err ''failed to bind vsock: '' (os_vsock_bind os (os_vsock_cid_any os) port)"

definition vsock_accept :: "'t os_sockets \<Rightarrow> ('t \<times> PeerIdentity) result" where
  "vsock_accept os =
     (case transport_err ''vsock accept failed: '' (os_vsock_accept os) of
        Inl e \<Rightarrow> Inl e
      | Inr (stream, cid) \<Rightarrow> Inr (stream, PeerVsock cid))"

record VsockConnector =
  vc_cid :: u32
  vc_port :: u32

definition VsockConnector_new :: "u32 \<Rightarrow> u32 \<Rightarrow> VsockConnector" where
  "VsockConnector_new cid port = \<lparr>vc_cid = cid, vc_port = port\<rparr>"

definition vsock_connect :: "'t os_sockets \<Rightarrow> VsockConnector \<Rightarrow> 't result" where
  "vsock_connect os self = transport_err ''vsock connect failed: '' (os_vsock_connect os (vc_cid self) (vc_port self))"

section \<open>The listener interface\<close>

text \<open>
  \<open>accept\<close> fails with transport errors only, and the peer it reports with a stream is the one
  the operating system names, as \<open>names\<close> says for each transport.
\<close>

definition names_tcp :: "'t os_sockets \<Rightarrow> 't \<Rightarrow> PeerIdentity \<Rightarrow> bool" where
  "names_tcp os stream p \<longleftrightarrow>
     (\<exists>addr. os_tcp_accept os = Inr (stream, addr) \<and> p = PeerTcp addr (replicate 32 0))"

definition names_uds :: "'t os_sockets \<Rightarrow> 't \<Rightarrow> PeerIdentity \<Rightarrow> bool" where
  "names_uds os stream p \<longleftrightarrow> os_uds_accept os = Inr stream \<and>
     (case os_uds_peer_cred os stream of
        Inl _ \<Rightarrow> p = Anonymous
      | Inr cred \<Rightarrow> \<exists>pid. p = PeerUnix (cred_uid cred) pid \<and> (cred_pid cred = Some pid \<or> cred_pid cred = None \<and> pid = 0))"

definition names_vsock :: "'t os_sockets \<Rightarrow> 't \<Rightarrow> PeerIdentity \<Rightarrow> bool" where
  "names_vsock os stream p \<longleftrightarrow> (\<exists>cid. os_vsock_accept os = Inr (stream, cid) \<and> p = PeerVsock cid)"

text \<open>The server's accept loop over a listener whose sockets give these outcomes in turn.\<close>

definition accepted :: "((reader \<times> writer) \<times> PeerIdentity) result \<Rightarrow> Error + reader \<times> writer \<times> PeerIdentity" where
  "accepted r = (case r of Inl e \<Rightarrow> Inl e | Inr ((rd, wr), peer) \<Rightarrow> Inr (rd, wr, peer))"

lemma serve_error_accepted:
  "fst (serve B J sha256 auth accepts v) = Some r \<Longrightarrow> \<exists>e. r = Inl e \<and> Inl e \<in> set accepts"
  by (induction B J sha256 auth accepts v rule: serve.induct) (auto split: prod.splits)

locale vault_listener =
  fixes accept :: "'o \<Rightarrow> ((reader \<times> writer) \<times> PeerIdentity) result"
    and names :: "'o \<Rightarrow> reader \<times> writer \<Rightarrow> PeerIdentity \<Rightarrow> bool"
  assumes accept_error: "accept os = Inl e \<Longrightarrow> \<exists>m. e = Transport m"
    and accept_peer: "accept os = Inr (stream, peer) \<Longrightarrow> names os stream peer"
begin

lemma accept_cases:
  "case accept os of Inl e \<Rightarrow> \<exists>m. e = Transport m | Inr (stream, peer) \<Rightarrow> names os stream peer"
  using accept_error accept_peer by (auto split: sum.splits prod.splits)

lemma served_peer:
  "Inr (rd, wr, peer) \<in> set (map (accepted \<circ> accept) oss) \<Longrightarrow> \<exists>os\<in>set oss. names os (rd, wr) peer"
  using accept_peer by (auto simp: accepted_def split: sum.splits) blast

lemma serve_ends_with_transport_error:
  assumes "fst (serve B J sha256 auth (map (accepted \<circ> accept) oss) v) = Some r"
  shows "\<exists>m. r = Inl (Transport m)"
  using serve_error_accepted [OF assms] accept_error
  by (fastforce simp: accepted_def split: sum.splits prod.splits)

end

interpretation tcp: vault_listener tcp_accept names_tcp
  by unfold_locales (auto simp: names_tcp_def tcp_accept_def transport_err_def split: sum.splits)

interpretation uds: vault_listener uds_accept names_uds
  by unfold_locales (auto simp: names_uds_def uds_accept_def transport_err_def split: sum.splits option.splits)

interpretation vsock: vault_listener vsock_accept names_vsock
  by unfold_locales (auto simp: names_vsock_def vsock_accept_def transport_err_def split: sum.splits)

section \<open>Properties\<close>


end
