(* ===== verification/Spec2Isabelle.thy ===== *)
theory Spec2Isabelle
  imports Client_Server Sqlite_Audit Agent_Proxy Git_Credential Provider Postgres_Vault Aws_Vault Sockets
begin

text \<open>
  Verification of zerolease, a credential vault that hands agents short leases on secrets.
  All paths are below \<^verbatim>\<open>src/\<close>.

  \<^bold>\<open>The program.\<close> The vault (\<^verbatim>\<open>src/vault.rs\<close>) keeps secrets encrypted in a store under a data
  encryption key it gets from a key source, decides requests by policy, issues leases with an
  expiry, a use limit and allowed domains, groups leases into sessions, and records every step in
  an audit log. Store, key source and audit log are interfaces with several implementations. A
  server (\<^verbatim>\<open>src/server.rs\<close>) offers the vault over framed JSON to authenticated peers on TCP, Unix
  and vsock sockets; a client (\<^verbatim>\<open>src/client.rs\<close>) calls it. On top of the client,
  \<^verbatim>\<open>crates/zerolease-agent\<close> has a provisioner that writes credentials into a virtual machine, a git
  credential helper, and a proxy that lets traffic out only to leased domains;
  \<^verbatim>\<open>crates/zerolease-provider\<close> has guards that revoke their lease when dropped.

  \<^bold>\<open>How code is modelled.\<close> Structs are records and enums datatypes with the names of the source,
  methods are functions with the name of the method, prefixed by type or backend where two methods
  share one. An operation maps a state to a result and a new state (\<open>op\<close> of Prelude); \<^verbatim>\<open>?\<close> is
  \<open>try_op\<close>, and an error is a value of the datatype \<open>Error\<close> of \<^verbatim>\<open>src/error.rs\<close>. Machine integers
  are words; times are integers. Clock, fresh UUIDs, random bytes and the faults of databases,
  files and services come from the stream \<open>env\<close>, which is arbitrary in every theorem, so that
  every call may fail at every point. Third-party code (AEAD ciphers, SHA-256, JSON, KMS, Secrets
  Manager, the keyring, sockets, DNS) is an argument; where a theorem needs a law of it, that law
  is a named hypothesis (\<open>aead_correct\<close>, \<open>kms_correct\<close>, \<open>serde_ok\<close>, \<open>sm_documented\<close>,
  \<open>pg_audit_ok\<close>, ...), and the witness of the theorem shows an instance.

  \<^bold>\<open>Theories.\<close>
  \<^item> Prelude, Text: operations and a small Hoare calculus, words, UTF-8, and the parts of \<^verbatim>\<open>str\<close>
    and \<^verbatim>\<open>HashMap\<close> the sources use.
  \<^item> Identity, Lease, Policy, Session: \<^verbatim>\<open>crates/zerolease-types/src\<close>, \<^verbatim>\<open>src/error.rs\<close>,
    \<^verbatim>\<open>src/lease.rs\<close>, \<^verbatim>\<open>src/policy/mod.rs\<close>, \<^verbatim>\<open>src/session.rs\<close>. Shown: domain matching, what
    validation answers on each branch, first-match and deny by default, bindings of tools.
  \<^item> Crypto, KeySource: \<^verbatim>\<open>src/crypto.rs\<close>, \<^verbatim>\<open>src/keysource\<close>. Shown: decryption inverts encryption
    across algorithms, hex decoding, and the contract of key sources for the three sources.
  \<^item> Store, Audit_Log: the interfaces \<^verbatim>\<open>SecretStore\<close> and \<^verbatim>\<open>AuditLog\<close> (\<^verbatim>\<open>src/store/mod.rs\<close>,
    \<^verbatim>\<open>src/audit\<close>) as records of operations with the locales of their laws, and the tracing log.
  \<^item> Vault: every operation of \<^verbatim>\<open>src/vault.rs\<close>. Vault_Frames: what each leaves alone. Vault_Traces:
    runs of calls. Vault_Safety: the invariant and the guarantees along runs (accesses are
    authorised, use limits, revocation, the cap on leases). Vault_Operations: renewal, sessions,
    garbage collection, recording. Vault_Contracts: the vault over any backends that meet their
    contracts. Vault_Integrity: a stored secret comes back across rotations, over SQLite and KMS,
    and how rotation ends. Vault_Audit: what calls do to the log.
  \<^item> Sqlite_Store, Sqlite_Audit: \<^verbatim>\<open>crates/zerolease-store-rusqlite\<close>. Shown: the store refines a
    finite map with atomic batches; recorded chains verify, verified chains bind their text, and
    queries return what was recorded.
  \<^item> Postgres_Store, Postgres_Audit, Postgres_Vault: \<^verbatim>\<open>crates/zerolease-store-postgres\<close>, which
    meets the same contracts, so the vault's guarantees carry over; every disclosure is found by
    the query for its lease.
  \<^item> Aws_Store, Aws_Vault: \<^verbatim>\<open>crates/zerolease-store-aws-sm\<close>. Single operations refine the map,
    batches only a prefix of it, and so a failed rotation can strand a secret.
  \<^item> Transport, Sockets: \<^verbatim>\<open>src/transport\<close>. Shown: each listener names its peers as the operating
    system does.
  \<^item> Frame, Protocol, Auth, Server, Client: \<^verbatim>\<open>src/protocol\<close>, \<^verbatim>\<open>src/auth.rs\<close>, \<^verbatim>\<open>src/server.rs\<close>,
    \<^verbatim>\<open>src/client.rs\<close>. Server_Safety: whatever a peer sends is a run of calls its role permits.
    Server_Answers: requests are answered once and in order. Client_Server: a call through client
    and server gives what the call on the vault gives.
  \<^item> Lease_File, Connect_Proxy, Sni, Agent_Proxy: the proxy of \<^verbatim>\<open>crates/zerolease-agent\<close>. Shown:
    the lease file is old or new and never torn, a tunnel rests on a lease of the file, and
    ClientHello parsing finds the name and panics only in one case.
  \<^item> Provision, Git_Credential: provisioner and git helper of the same crate, over the client's
    interface (\<open>vault_client\<close>) and the vault behind it. Shown: rollback, quoting, and that the
    helper prints the stored secret.
  \<^item> Provider: \<^verbatim>\<open>crates/zerolease-provider\<close>, its guards, channel and worker as a step relation.

  \<^bold>\<open>Interfaces.\<close> The locales state what a component may rely on, and each is interpreted on the
  models of the implementations: stores (SQLite, PostgreSQL), audit logs (tracing, SQLite,
  PostgreSQL), key sources (environment, keychain, KMS), the vault's backends, clients (the vault
  called directly), listeners (TCP, Unix, vsock). The AWS store is not an instance of the store
  contract, since its batches are not atomic; it has its own refinement theorem.

  \<^bold>\<open>Bounds and fuel.\<close> There is no fuel. Loops over data are structural or have a termination
  proof; the page loop of the AWS listing is a partial function, shown to return when the
  service's page tokens cannot go on for ever. Serving is over the finite sequence of accepted
  connections and of bytes that have arrived, of any length.

  \<^bold>\<open>Not modelled.\<close>
  \<^item> Interleaving inside one vault call: a call is one step, so races between its awaits (for
    instance of two scoped requests between the count and the grant) are outside the model, and the
    server's connections run one after the other.
  \<^item> Zeroizing of memory, and what logging macros print, apart from the tracing audit log.
  \<^item> The bytes copied through an open tunnel, timers of the runtime, and the copying in the
    operating system: they are calls of tokio.
  \<^item> Command line parsing (clap), crate roots with re-exports only, the examples and the tests.
\<close>

end
